theory Spec2Isabelle
  imports Complex_Main "HOL-Library.Sublist" "HOL-Library.Char_ord"
    "HOL-Library.List_Lexorder" "HOL-Library.Product_Lexorder"
begin

section \<open>The ledger store (services/supabase.js)\<close>

text \<open>
  The store is a Postgres database reached through the Supabase client. Its three tables
  are lists of rows; a row is a record with the columns of \<^verbatim>\<open>supabase-migrations.sql\<close>.
  Identifiers (\<^verbatim>\<open>gen_random_uuid()\<close>) and creation stamps (\<^verbatim>\<open>NOW()\<close>) are
  drawn from one counter, so a new row gets an identifier no earlier row had and a stamp
  later than every earlier one.

  A number is the decimal it is written as in JSON, which is how it travels between the
  server and the store: a rational. A \<^verbatim>\<open>NUMERIC(p, 2)\<close> column rounds what is written to
  it to two decimal places, halves away from zero. The server's own arithmetic is in
  doubles; it is a parameter of the model (see \<open>arith\<close> below).
\<close>

definition numeric2 :: "rat \<Rightarrow> rat" where
  "numeric2 x =
     (if 0 \<le> x then of_int \<lfloor>x * 100 + 1 / 2\<rfloor> / 100
      else - (of_int \<lfloor>- x * 100 + 1 / 2\<rfloor> / 100))"

text \<open>The amounts a \<^verbatim>\<open>NUMERIC(p, 2)\<close> column can hold: whole numbers of cents.\<close>

definition whole_cents :: "rat \<Rightarrow> bool" where
  "whole_cents x \<longleftrightarrow> of_int \<lfloor>x * 100\<rfloor> = x * 100"

text \<open>
  The server computes in JavaScript numbers, which are IEEE doubles. The two operations
  the store module uses on them, \<^verbatim>\<open>a + b\<close> and \<^verbatim>\<open>a - b\<close>, are parameters of the
  model: \<open>js_plus ar x y\<close> is the number the sum evaluates to, as the decimal it is
  written as when it is sent on. \<open>exact\<close> is the arithmetic without rounding error;
  where the operands and the result are numbers that doubles represent (a whole
  number below \<open>2\<^sup>5\<^sup>3\<close>, or one divided by a power of 2) it is the arithmetic of
  doubles. An arithmetic is \<open>accurate\<close> on two operands when the sum and the
  difference it gives are within half a cent of the exact ones and a number minus itself
  is 0. Doubles are accurate on the amounts a \<^verbatim>\<open>NUMERIC(15, 2)\<close> column can hold.
\<close>

record arith =
  js_plus :: "rat \<Rightarrow> rat \<Rightarrow> rat"
  js_minus :: "rat \<Rightarrow> rat \<Rightarrow> rat"

definition exact :: arith where
  "exact = \<lparr>js_plus = (\<lambda>a b. a + b), js_minus = (\<lambda>a b. a - b)\<rparr>"

definition accurate :: "arith \<Rightarrow> rat \<Rightarrow> rat \<Rightarrow> bool" where
  "accurate ar x y \<longleftrightarrow>
     \<bar>js_plus ar x y - (x + y)\<bar> < 1 / 200 \<and> \<bar>js_minus ar x y - (x - y)\<bar> < 1 / 200 \<and>
     js_minus ar y y = 0"

record transaction_row =
  tx_id :: nat
  tx_user_id :: string
  tx_amount :: rat
  tx_currency :: string
  tx_category :: string
  tx_notes :: string
  tx_type :: string
  tx_date :: string
  tx_created_at :: nat

record loan_row =
  loan_id :: nat
  loan_user_id :: string
  lender_name :: string
  loan_type :: string
  principal_amount :: rat
  interest_rate :: rat
  tenure_months :: "int option"
  monthly_installment :: "rat option"
  total_paid :: rat
  remaining_balance :: rat
  loan_currency :: string
  status :: string
  start_date :: string
  loan_notes :: "string option"
  loan_created_at :: nat

record feedback_row =
  fb_id :: nat
  fb_user_id :: string
  fb_user_name :: "string option"
  fb_user_email :: "string option"
  fb_rating :: int
  fb_comment :: "string option"

text \<open>
  Every call of the client is one round trip, and a round trip can fail (the client then
  returns \<^verbatim>\<open>{ error }\<close>, which every function of the module rethrows). Whether it fails
  is decided by the environment, not by the program: the state carries the schedule of
  the coming round trips, \<open>True\<close> for one that fails. An exhausted schedule means
  the store answers.
\<close>

record db =
  transactions :: "transaction_row list"
  loans :: "loan_row list"
  feedback :: "feedback_row list"
  next_id :: nat
  failures :: "bool list"

datatype store_error = StoreError

definition round_trip :: "db \<Rightarrow> bool \<times> db" where
  "round_trip d =
     (case failures d of
        [] \<Rightarrow> (False, d)
      | f # fs \<Rightarrow> (f, d\<lparr>failures := fs\<rparr>))"

subsection \<open>JavaScript's \<open>||\<close> on typed arguments\<close>

text \<open>
  \<^verbatim>\<open>s || d\<close> on a string: the empty string is falsy. On an optional value: \<^verbatim>\<open>undefined\<close>
  and \<^verbatim>\<open>null\<close> are falsy, and so are \<^verbatim>\<open>0\<close> and the empty string.
\<close>

definition or_str :: "string \<Rightarrow> string \<Rightarrow> string" where
  "or_str s d = (if s = [] then d else s)"

definition or_rat :: "rat option \<Rightarrow> rat \<Rightarrow> rat" where
  "or_rat x d = (case x of None \<Rightarrow> d | Some r \<Rightarrow> if r = 0 then d else r)"

definition or_null_rat :: "rat option \<Rightarrow> rat option" where
  "or_null_rat x = (case x of None \<Rightarrow> None | Some r \<Rightarrow> if r = 0 then None else Some r)"

definition or_null_int :: "int option \<Rightarrow> int option" where
  "or_null_int x = (case x of None \<Rightarrow> None | Some r \<Rightarrow> if r = 0 then None else Some r)"

definition or_null_str :: "string option \<Rightarrow> string option" where
  "or_null_str x = (case x of None \<Rightarrow> None | Some s \<Rightarrow> if s = [] then None else Some s)"

definition or_opt_str :: "string option \<Rightarrow> string \<Rightarrow> string" where
  "or_opt_str x d = (case x of None \<Rightarrow> d | Some s \<Rightarrow> if s = [] then d else s)"

subsection \<open>Transactions\<close>

record transaction_data =
  td_userId :: string
  td_amount :: rat
  td_currency :: string
  td_category :: string
  td_notes :: string
  td_type :: string
  td_date :: string

definition saveTransaction :: "transaction_data \<Rightarrow> db \<Rightarrow> (store_error + unit) \<times> db" where
  "saveTransaction data d =
     (case round_trip d of
        (True, d1) \<Rightarrow> (Inl StoreError, d1)
      | (False, d1) \<Rightarrow>
          (Inr (),
           d1\<lparr>transactions := transactions d1 @
                 [\<lparr>tx_id = next_id d1, tx_user_id = td_userId data,
                   tx_amount = numeric2 (td_amount data),
                   tx_currency = td_currency data, tx_category = td_category data,
                   tx_notes = td_notes data, tx_type = td_type data, tx_date = td_date data,
                   tx_created_at = next_id d1\<rparr>],
               next_id := Suc (next_id d1)\<rparr>))"

text \<open>
  \<^verbatim>\<open>getTransactions\<close>: the user's rows, latest date first and, within a date, latest
  creation first, cut at \<^verbatim>\<open>limit\<close> (100 when the caller gives none).
\<close>

definition getTransactions ::
  "string \<Rightarrow> nat option \<Rightarrow> db \<Rightarrow> (store_error + transaction_row list) \<times> db" where
  "getTransactions uid limit d =
     (case round_trip d of
        (True, d1) \<Rightarrow> (Inl StoreError, d1)
      | (False, d1) \<Rightarrow>
          (Inr (take (case limit of None \<Rightarrow> 100 | Some n \<Rightarrow> n)
                  (rev (sort_key (\<lambda>t. (tx_date t, tx_created_at t))
                     (filter (\<lambda>t. tx_user_id t = uid) (transactions d1))))),
           d1))"

definition deleteTransaction :: "nat \<Rightarrow> db \<Rightarrow> (store_error + unit) \<times> db" where
  "deleteTransaction transactionId d =
     (case round_trip d of
        (True, d1) \<Rightarrow> (Inl StoreError, d1)
      | (False, d1) \<Rightarrow>
          (Inr (),
           d1\<lparr>transactions := filter (\<lambda>t. tx_id t \<noteq> transactionId) (transactions d1)\<rparr>))"

subsection \<open>Loans\<close>

record loan_data =
  ld_userId :: string
  ld_lender_name :: string
  ld_loan_type :: string
  ld_principal_amount :: rat
  ld_interest_rate :: "rat option"
  ld_tenure_months :: "int option"
  ld_monthly_installment :: "rat option"
  ld_currency :: "string option"
  ld_date :: string
  ld_notes :: "string option"

definition saveLoan :: "loan_data \<Rightarrow> db \<Rightarrow> (store_error + loan_row) \<times> db" where
  "saveLoan data d =
     (case round_trip d of
        (True, d1) \<Rightarrow> (Inl StoreError, d1)
      | (False, d1) \<Rightarrow>
          (let loan = \<lparr>loan_id = next_id d1, loan_user_id = ld_userId data,
                       lender_name = ld_lender_name data, loan_type = ld_loan_type data,
                       principal_amount = numeric2 (ld_principal_amount data),
                       interest_rate = numeric2 (or_rat (ld_interest_rate data) 0),
                       tenure_months = or_null_int (ld_tenure_months data),
                       monthly_installment =
                         map_option numeric2 (or_null_rat (ld_monthly_installment data)),
                       total_paid = 0,
                       remaining_balance = numeric2 (ld_principal_amount data),
                       loan_currency = or_opt_str (ld_currency data) ''BDT'',
                       status = ''active'',
                       start_date = ld_date data,
                       loan_notes = or_null_str (ld_notes data),
                       loan_created_at = next_id d1\<rparr>
           in (Inr loan, d1\<lparr>loans := loans d1 @ [loan], next_id := Suc (next_id d1)\<rparr>)))"

definition getLoans :: "string \<Rightarrow> db \<Rightarrow> (store_error + loan_row list) \<times> db" where
  "getLoans uid d =
     (case round_trip d of
        (True, d1) \<Rightarrow> (Inl StoreError, d1)
      | (False, d1) \<Rightarrow>
          (Inr (rev (sort_key loan_created_at (filter (\<lambda>l. loan_user_id l = uid) (loans d1)))),
           d1))"

definition deleteLoan :: "nat \<Rightarrow> db \<Rightarrow> (store_error + unit) \<times> db" where
  "deleteLoan loanId d =
     (case round_trip d of
        (True, d1) \<Rightarrow> (Inl StoreError, d1)
      | (False, d1) \<Rightarrow>
          (Inr (), d1\<lparr>loans := filter (\<lambda>l. loan_id l \<noteq> loanId) (loans d1)\<rparr>))"

subsection \<open>Repayment reconciliation\<close>

definition lower_char :: "char \<Rightarrow> char" where
  "lower_char c =
     (let n = (of_char c :: nat) in if 65 \<le> n \<and> n \<le> 90 then char_of (n + 32) else c)"

definition lower :: "string \<Rightarrow> string" where
  "lower s = map lower_char s"

text \<open>
  The store's \<^verbatim>\<open>ILIKE\<close>, which the repository calls with the pattern
  \<^verbatim>\<open>`%${lenderName}%`\<close>. In a pattern \<^verbatim>\<open>%\<close> stands for any run of characters, \<^verbatim>\<open>_\<close>
  for any one character, and a backslash makes the next character stand for itself; the
  REST layer in front of the store reads \<^verbatim>\<open>*\<close> as \<^verbatim>\<open>%\<close>. The lender name is put into
  the pattern as it is, so these characters keep their meaning inside it. Letters are
  folded on both sides.
\<close>

fun like :: "string \<Rightarrow> string \<Rightarrow> bool" where
  "like [] t = (t = [])"
| "like (c # p) [] = ((c = CHR ''%'' \<or> c = CHR ''*'') \<and> like p [])"
| "like (c # p) (x # t) =
     (if c = CHR ''%'' \<or> c = CHR ''*'' then like p (x # t) \<or> like (c # p) t
      else if c = CHR ''_'' then like p t
      else if c = CHR 0x5C then (case p of [] \<Rightarrow> False | e # p' \<Rightarrow> x = e \<and> like p' t)
      else x = c \<and> like p t)"

declare like.simps [simp del]

definition ilike :: "string \<Rightarrow> string \<Rightarrow> bool" where
  "ilike s pattern = like (lower pattern) (lower s)"

text \<open>A name in which no character has a meaning of its own in a pattern.\<close>

definition plain :: "string \<Rightarrow> bool" where
  "plain n \<longleftrightarrow> list_all (\<lambda>c. c \<noteq> CHR ''%'' \<and> c \<noteq> CHR ''*'' \<and> c \<noteq> CHR ''_'' \<and> c \<noteq> CHR 0x5C) n"

text \<open>The candidate query of \<^verbatim>\<open>recordLoanRepayment\<close>: three filters on the loans table.\<close>

definition matching_loans :: "string \<Rightarrow> string \<Rightarrow> db \<Rightarrow> loan_row list" where
  "matching_loans uid lenderName d =
     filter (\<lambda>l. loan_user_id l = uid \<and> status l = ''active'' \<and>
                 ilike (lender_name l) (''%'' @ lenderName @ ''%'')) (loans d)"

text \<open>
  The update of \<^verbatim>\<open>recordLoanRepayment\<close>: the three columns of every row with the
  identifier (\<^verbatim>\<open>.update({...}).eq("id", loan.id)\<close>).
\<close>

definition update_loan :: "nat \<Rightarrow> rat \<Rightarrow> rat \<Rightarrow> string \<Rightarrow> loan_row list \<Rightarrow> loan_row list" where
  "update_loan i tp rb st ls =
     map (\<lambda>l. if loan_id l = i
               then l\<lparr>total_paid := tp, remaining_balance := rb, status := st\<rparr> else l) ls"

text \<open>
  \<^verbatim>\<open>x.toFixed(2)\<close> on an exact amount: the sign, then the magnitude to the nearest
  hundredth, the larger one on a tie.
\<close>

fun digits :: "nat \<Rightarrow> string" where
  "digits n =
     (if n < 10 then [''0123456789'' ! n] else digits (n div 10) @ [''0123456789'' ! (n mod 10)])"

declare digits.simps [simp del]

definition toFixed2 :: "rat \<Rightarrow> string" where
  "toFixed2 x =
     (let m = nat \<lfloor>\<bar>x\<bar> * 100 + 1 / 2\<rfloor>;
          body = digits (m div 100) @ ''.'' @ digits (m mod 100 div 10) @ digits (m mod 10)
      in if x < 0 then ''-'' @ body else body)"

record repayment_result =
  loan :: "loan_row option"
  message :: string

text \<open>
  \<^verbatim>\<open>recordLoanRepayment(userId, lenderName, amount, date, currency)\<close>. The arguments
  have the types of the columns they are compared with or written to, and
  \<^verbatim>\<open>Number(x)\<close> is the identity on a number. Three round trips: the candidate query,
  the update of the first candidate, and the insert of \<^verbatim>\<open>saveTransaction\<close>. The new
  values and the status are computed from the row the query returned; the update filters
  on the identifier alone and its columns round what it writes; nothing undoes the
  update when the insert fails. The loan in the result carries the values as computed.
\<close>

definition recordLoanRepayment ::
  "arith \<Rightarrow> string \<Rightarrow> string \<Rightarrow> rat \<Rightarrow> string \<Rightarrow> string \<Rightarrow> db \<Rightarrow>
   (store_error + repayment_result) \<times> db" where
  "recordLoanRepayment ar uid lenderName amt dt cur d =
     (case round_trip d of
        (True, d1) \<Rightarrow> (Inl StoreError, d1)
      | (False, d1) \<Rightarrow>
          (case matching_loans uid lenderName d1 of
             [] \<Rightarrow>
               (case saveTransaction
                       \<lparr>td_userId = uid, td_amount = amt, td_currency = or_str cur ''BDT'',
                        td_category = ''loan_repayment'',
                        td_notes = ''Loan repayment to '' @ lenderName @ '' (no matching loan found)'',
                        td_type = ''expense'', td_date = dt\<rparr> d1 of
                  (Inl e, d2) \<Rightarrow> (Inl e, d2)
                | (Inr _, d2) \<Rightarrow>
                    (Inr \<lparr>loan = None,
                          message = ''No active loan found for '' @ [CHR 0x22] @ lenderName @
                                    [CHR 0x22] @ ''. Recorded as expense.''\<rparr>, d2))
           | l # _ \<Rightarrow>
               (let newTotalPaid = js_plus ar (total_paid l) amt;
                    newRemaining = js_minus ar (remaining_balance l) amt;
                    newStatus = (if newRemaining \<le> 0 then ''paid_off'' else ''active'')
                in case round_trip d1 of
                     (True, d2) \<Rightarrow> (Inl StoreError, d2)
                   | (False, d2) \<Rightarrow>
                       (let d3 = d2\<lparr>loans := update_loan (loan_id l) (numeric2 newTotalPaid)
                                                 (numeric2 (max 0 newRemaining)) newStatus
                                                 (loans d2)\<rparr>
                        in case saveTransaction
                                  \<lparr>td_userId = uid, td_amount = amt, td_currency = or_str cur ''BDT'',
                                   td_category = ''loan_repayment'',
                                   td_notes = ''Loan repayment to '' @ lender_name l,
                                   td_type = ''expense'', td_date = dt\<rparr> d3 of
                             (Inl e, d4) \<Rightarrow> (Inl e, d4)
                           | (Inr _, d4) \<Rightarrow>
                               (Inr \<lparr>loan = Some (l\<lparr>total_paid := newTotalPaid,
                                                     remaining_balance := max 0 newRemaining,
                                                     status := newStatus\<rparr>),
                                     message =
                                       (if newStatus = ''paid_off''
                                        then ''Loan from '' @ lender_name l @ '' fully paid off!''
                                        else ''Repayment recorded. Remaining: '' @
                                             toFixed2 (max 0 newRemaining) @ '' '' @
                                             loan_currency l)\<rparr>, d4)))))"

text \<open>
  The function is asynchronous: between two of its round trips other requests reach the
  store. A reconciliation in flight is a task, which is about to make the candidate
  query, or holds the row the query returned and is about to update it, or is about to
  insert the transaction, or has returned. \<open>task_step\<close> is its next round trip.
\<close>

datatype repayment_task =
    Querying string string rat string string
  | Updating string rat string string loan_row
  | Saving transaction_data repayment_result
  | Returned "store_error + repayment_result"

fun task_step :: "arith \<Rightarrow> repayment_task \<Rightarrow> db \<Rightarrow> repayment_task \<times> db" where
  "task_step ar (Querying uid lenderName amt dt cur) d =
     (case round_trip d of
        (True, d1) \<Rightarrow> (Returned (Inl StoreError), d1)
      | (False, d1) \<Rightarrow>
          (case matching_loans uid lenderName d1 of
             [] \<Rightarrow>
               (Saving
                  \<lparr>td_userId = uid, td_amount = amt, td_currency = or_str cur ''BDT'',
                   td_category = ''loan_repayment'',
                   td_notes = ''Loan repayment to '' @ lenderName @ '' (no matching loan found)'',
                   td_type = ''expense'', td_date = dt\<rparr>
                  \<lparr>loan = None,
                   message = ''No active loan found for '' @ [CHR 0x22] @ lenderName @
                             [CHR 0x22] @ ''. Recorded as expense.''\<rparr>, d1)
           | l # _ \<Rightarrow> (Updating uid amt dt cur l, d1)))"
| "task_step ar (Updating uid amt dt cur l) d =
     (let newTotalPaid = js_plus ar (total_paid l) amt;
          newRemaining = js_minus ar (remaining_balance l) amt;
          newStatus = (if newRemaining \<le> 0 then ''paid_off'' else ''active'')
      in case round_trip d of
           (True, d1) \<Rightarrow> (Returned (Inl StoreError), d1)
         | (False, d1) \<Rightarrow>
             (Saving
                \<lparr>td_userId = uid, td_amount = amt, td_currency = or_str cur ''BDT'',
                 td_category = ''loan_repayment'',
                 td_notes = ''Loan repayment to '' @ lender_name l,
                 td_type = ''expense'', td_date = dt\<rparr>
                \<lparr>loan = Some (l\<lparr>total_paid := newTotalPaid,
                                  remaining_balance := max 0 newRemaining,
                                  status := newStatus\<rparr>),
                 message =
                   (if newStatus = ''paid_off''
                    then ''Loan from '' @ lender_name l @ '' fully paid off!''
                    else ''Repayment recorded. Remaining: '' @
                         toFixed2 (max 0 newRemaining) @ '' '' @ loan_currency l)\<rparr>,
              d1\<lparr>loans := update_loan (loan_id l) (numeric2 newTotalPaid)
                              (numeric2 (max 0 newRemaining)) newStatus (loans d1)\<rparr>))"
| "task_step ar (Saving data result) d =
     (case saveTransaction data d of
        (Inl e, d1) \<Rightarrow> (Returned (Inl e), d1)
      | (Inr _, d1) \<Rightarrow> (Returned (Inr result), d1))"
| "task_step ar (Returned r) d = (Returned r, d)"

text \<open>A task left to itself: \<open>n\<close> round trips in a row.\<close>

fun run_task :: "arith \<Rightarrow> nat \<Rightarrow> repayment_task \<Rightarrow> db \<Rightarrow> repayment_task \<times> db" where
  "run_task ar 0 t d = (t, d)"
| "run_task ar (Suc n) t d = (case task_step ar t d of (t', d') \<Rightarrow> run_task ar n t' d')"

text \<open>The loan a task has read and is about to write.\<close>

fun selected_loan :: "repayment_task \<Rightarrow> nat option" where
  "selected_loan (Updating uid amt dt cur l) = Some (loan_id l)"
| "selected_loan t = None"

subsection \<open>Summary and feedback\<close>

record summary_row =
  sr_amount :: rat
  sr_type :: string
  sr_category :: string
  sr_currency :: string

record category_total =
  expense :: rat
  income :: rat

record summary =
  totalExpense :: rat
  totalIncome :: rat
  byCategory :: "string \<rightharpoonup> category_total"
  summary_transactions :: "summary_row list"
  balance :: rat

text \<open>
  One pass of the \<^verbatim>\<open>forEach\<close> of \<^verbatim>\<open>getTransactionSummary\<close>. The category table is
  an object used as a dictionary; a category is read as one of its own keys.
\<close>

definition summary_step :: "arith \<Rightarrow> summary_row \<Rightarrow> summary \<Rightarrow> summary" where
  "summary_step ar t s =
     (let s1 = (if sr_type t = ''expense''
                then s\<lparr>totalExpense := js_plus ar (totalExpense s) (sr_amount t)\<rparr>
                else if sr_type t = ''income''
                then s\<lparr>totalIncome := js_plus ar (totalIncome s) (sr_amount t)\<rparr>
                else s);
          c = (case byCategory s1 (sr_category t) of
                 None \<Rightarrow> \<lparr>expense = 0, income = 0\<rparr>
               | Some c \<Rightarrow> c);
          c' = (if sr_type t = ''expense''
                then c\<lparr>expense := js_plus ar (expense c) (sr_amount t)\<rparr>
                else c\<lparr>income := js_plus ar (income c) (sr_amount t)\<rparr>)
      in s1\<lparr>byCategory := (byCategory s1)(sr_category t \<mapsto> c')\<rparr>)"

definition getTransactionSummary ::
  "arith \<Rightarrow> string \<Rightarrow> string option \<Rightarrow> string option \<Rightarrow> db \<Rightarrow>
   (store_error + summary) \<times> db" where
  "getTransactionSummary ar uid startDate endDate d =
     (case round_trip d of
        (True, d1) \<Rightarrow> (Inl StoreError, d1)
      | (False, d1) \<Rightarrow>
          (let q0 = filter (\<lambda>t. tx_user_id t = uid) (transactions d1);
               q1 = (case startDate of
                       None \<Rightarrow> q0
                     | Some s \<Rightarrow> if s = [] then q0 else filter (\<lambda>t. s \<le> tx_date t) q0);
               q2 = (case endDate of
                       None \<Rightarrow> q1
                     | Some e \<Rightarrow> if e = [] then q1 else filter (\<lambda>t. tx_date t \<le> e) q1);
               data = map (\<lambda>t. \<lparr>sr_amount = tx_amount t, sr_type = tx_type t,
                                    sr_category = tx_category t, sr_currency = tx_currency t\<rparr>) q2;
               s = fold (summary_step ar) data
                     \<lparr>totalExpense = 0, totalIncome = 0, byCategory = Map.empty,
                      summary_transactions = data, balance = 0\<rparr>
           in (Inr (s\<lparr>balance := js_minus ar (totalIncome s) (totalExpense s)\<rparr>), d1)))"

record feedback_data =
  fd_userId :: string
  fd_userName :: "string option"
  fd_userEmail :: "string option"
  fd_rating :: int
  fd_comment :: "string option"

definition saveFeedback :: "feedback_data \<Rightarrow> db \<Rightarrow> (store_error + unit) \<times> db" where
  "saveFeedback data d =
     (case round_trip d of
        (True, d1) \<Rightarrow> (Inl StoreError, d1)
      | (False, d1) \<Rightarrow>
          (Inr (),
           d1\<lparr>feedback := feedback d1 @
                 [\<lparr>fb_id = next_id d1, fb_user_id = fd_userId data,
                   fb_user_name = or_null_str (fd_userName data),
                   fb_user_email = or_null_str (fd_userEmail data),
                   fb_rating = fd_rating data,
                   fb_comment = or_null_str (fd_comment data)\<rparr>],
               next_id := Suc (next_id d1)\<rparr>))"

subsection \<open>Histories of the store\<close>

text \<open>
  The exported functions are the only way the server reaches the store. All but
  \<^verbatim>\<open>recordLoanRepayment\<close> make one round trip; a call of one of them is a
  \<open>store_op\<close>.
\<close>

datatype store_op =
    SaveTransaction transaction_data
  | GetTransactions string "nat option"
  | DeleteTransaction nat
  | SaveLoan loan_data
  | GetLoans string
  | DeleteLoan nat
  | GetTransactionSummary string "string option" "string option"
  | SaveFeedback feedback_data

fun run_op :: "arith \<Rightarrow> store_op \<Rightarrow> db \<Rightarrow> db" where
  "run_op ar (SaveTransaction data) d = snd (saveTransaction data d)"
| "run_op ar (GetTransactions uid limit) d = snd (getTransactions uid limit d)"
| "run_op ar (DeleteTransaction i) d = snd (deleteTransaction i d)"
| "run_op ar (SaveLoan data) d = snd (saveLoan data d)"
| "run_op ar (GetLoans uid) d = snd (getLoans uid d)"
| "run_op ar (DeleteLoan i) d = snd (deleteLoan i d)"
| "run_op ar (GetTransactionSummary uid startDate endDate) d =
     snd (getTransactionSummary ar uid startDate endDate d)"
| "run_op ar (SaveFeedback data) d = snd (saveFeedback data d)"

text \<open>
  The server handles requests concurrently. A history is a sequence of events: a request
  starts a reconciliation, a reconciliation in flight makes its next round trip, or one
  of the other functions is called. The round trips of different reconciliations, and
  the other calls, come in any order.
\<close>

record system =
  sys_db :: db
  sys_tasks :: "repayment_task list"

datatype event =
    Begin string string rat string string
  | Advance nat
  | Call store_op

fun run_event :: "arith \<Rightarrow> event \<Rightarrow> system \<Rightarrow> system" where
  "run_event ar (Begin uid lenderName amt dt cur) s =
     s\<lparr>sys_tasks := sys_tasks s @ [Querying uid lenderName amt dt cur]\<rparr>"
| "run_event ar (Advance n) s =
     (if n < length (sys_tasks s)
      then (case task_step ar (sys_tasks s ! n) (sys_db s) of
              (t, d) \<Rightarrow> s\<lparr>sys_db := d, sys_tasks := (sys_tasks s)[n := t]\<rparr>)
      else s)"
| "run_event ar (Call op) s = s\<lparr>sys_db := run_op ar op (sys_db s)\<rparr>"

fun run_events :: "arith \<Rightarrow> event list \<Rightarrow> system \<Rightarrow> system" where
  "run_events ar [] s = s"
| "run_events ar (e # es) s = run_events ar es (run_event ar e s)"

text \<open>
  The primary keys of the schema: identifiers are unique within a table, and every
  identifier in use was drawn from the counter.
\<close>

definition primary_keys :: "db \<Rightarrow> bool" where
  "primary_keys d \<longleftrightarrow>
     distinct (map loan_id (loans d)) \<and> distinct (map tx_id (transactions d)) \<and>
     list_all (\<lambda>l. loan_id l < next_id d) (loans d) \<and>
     list_all (\<lambda>t. tx_id t < next_id d) (transactions d)"

text \<open>
  What one round trip of the single-trip functions can do to the store: the store
  answers (and the schedule moves on), a row is inserted under a fresh identifier (a
  loan as active, its balances in whole cents), or rows are deleted by identifier.
\<close>

inductive store_step :: "db \<Rightarrow> db \<Rightarrow> bool" where
  answered: "store_step d (d\<lparr>failures := fs\<rparr>)"
| transaction_inserted:
    "tx_id t = next_id d \<Longrightarrow>
     store_step d (d\<lparr>transactions := transactions d @ [t], next_id := Suc (next_id d)\<rparr>)"
| transaction_deleted:
    "store_step d (d\<lparr>transactions := filter (\<lambda>t. tx_id t \<noteq> i) (transactions d)\<rparr>)"
| loan_inserted:
    "loan_id l = next_id d \<Longrightarrow> status l = ''active'' \<Longrightarrow>
     whole_cents (total_paid l) \<Longrightarrow> whole_cents (remaining_balance l) \<Longrightarrow>
     store_step d (d\<lparr>loans := loans d @ [l], next_id := Suc (next_id d)\<rparr>)"
| loan_deleted:
    "store_step d (d\<lparr>loans := filter (\<lambda>l. loan_id l \<noteq> i) (loans d)\<rparr>)"
| feedback_inserted:
    "store_step d (d\<lparr>feedback := feedback d @ [f], next_id := Suc (next_id d)\<rparr>)"

section \<open>The extraction contract (services/openai.js)\<close>

subsection \<open>JavaScript values\<close>

text \<open>
  The model's reply is parsed by \<^verbatim>\<open>JSON.parse\<close>; the fields the code reads can hold any
  JSON value, and a field that is missing reads as \<^verbatim>\<open>undefined\<close>. Numbers are
  rationals, as in the store. An object is the list of its members in source order;
  \<^verbatim>\<open>JSON.parse\<close> keeps the last member of a repeated key.
\<close>

datatype jsval =
    JUndefined
  | JNull
  | JBool bool
  | JNum rat
  | JStr string
  | JArr "jsval list"
  | JObj "(string \<times> jsval) list"

fun truthy :: "jsval \<Rightarrow> bool" where
  "truthy JUndefined = False"
| "truthy JNull = False"
| "truthy (JBool b) = b"
| "truthy (JNum r) = (r \<noteq> 0)"
| "truthy (JStr s) = (s \<noteq> [])"
| "truthy (JArr xs) = True"
| "truthy (JObj kvs) = True"

text \<open>\<^verbatim>\<open>a || b\<close>.\<close>

definition js_or :: "jsval \<Rightarrow> jsval \<Rightarrow> jsval" where
  "js_or a b = (if truthy a then a else b)"

text \<open>
  \<^verbatim>\<open>v.k\<close> for a value that is neither \<^verbatim>\<open>null\<close> nor \<^verbatim>\<open>undefined\<close> and a key that is
  none of the built-in properties of strings and arrays (the code reads no such key).
\<close>

fun field :: "jsval \<Rightarrow> string \<Rightarrow> jsval" where
  "field (JObj kvs) k = (case map_of (rev kvs) k of None \<Rightarrow> JUndefined | Some v \<Rightarrow> v)"
| "field v k = JUndefined"

text \<open>
  The string a template literal puts in place of \<^verbatim>\<open>${v}\<close>. How a number prints
  (\<^verbatim>\<open>Number.prototype.toString\<close>) is a parameter.
\<close>

fun join_comma :: "string list \<Rightarrow> string" where
  "join_comma [] = []"
| "join_comma [s] = s"
| "join_comma (s # t # ss) = s @ '','' @ join_comma (t # ss)"

fun ToString :: "(rat \<Rightarrow> string) \<Rightarrow> jsval \<Rightarrow> string" where
  "ToString fmt JUndefined = ''undefined''"
| "ToString fmt JNull = ''null''"
| "ToString fmt (JBool b) = (if b then ''true'' else ''false'')"
| "ToString fmt (JNum r) = fmt r"
| "ToString fmt (JStr s) = s"
| "ToString fmt (JArr xs) =
     join_comma (map (\<lambda>x. if x = JUndefined \<or> x = JNull then [] else ToString fmt x) xs)"
| "ToString fmt (JObj kvs) = ''[object Object]''"

subsection \<open>Normalisation and defaulting\<close>

text \<open>
  \<^verbatim>\<open>extractExpenseData(text, userId)\<close>, from the reply on. The reply of the chat call
  and the clock are inputs: \<open>completion\<close> is \<open>Inl msg\<close> when the call or
  \<^verbatim>\<open>JSON.parse\<close> threw, else the parsed value; \<open>defaultDate\<close> is
  \<^verbatim>\<open>new Date().toISOString().split("T")[0]\<close>. Reading \<^verbatim>\<open>parsedData.intent\<close> throws on
  \<^verbatim>\<open>null\<close>. Every exception is caught and rethrown with the prefix. The result is
  the object literal of the branch taken.
\<close>

definition extractExpenseData ::
  "jsval \<Rightarrow> jsval \<Rightarrow> string \<Rightarrow> string + jsval \<Rightarrow> string + jsval" where
  "extractExpenseData inputText userId defaultDate completion =
     (case completion of
        Inl msg \<Rightarrow> Inl (''Failed to extract expense data: '' @ msg)
      | Inr parsedData \<Rightarrow>
          if parsedData = JNull \<or> parsedData = JUndefined
          then Inl (''Failed to extract expense data: '' @
                    ''Cannot read properties of null (reading 'intent')'')
          else
            (let intent = js_or (field parsedData ''intent'') (JStr ''transaction'')
             in if intent = JStr ''new_loan'' then
                  Inr (JObj
                    [(''intent'', JStr ''new_loan''),
                     (''lender_name'', js_or (field parsedData ''lender_name'') (JStr ''Unknown'')),
                     (''loan_type'',
                        if field parsedData ''loan_type'' = JStr ''personal''
                        then JStr ''personal'' else JStr ''bank''),
                     (''principal_amount'', js_or (field parsedData ''principal_amount'') (JNum 0)),
                     (''interest_rate'', js_or (field parsedData ''interest_rate'') (JNum 0)),
                     (''tenure_months'', js_or (field parsedData ''tenure_months'') JNull),
                     (''monthly_installment'',
                        js_or (field parsedData ''monthly_installment'') JNull),
                     (''currency'', js_or (field parsedData ''currency'') (JStr ''BDT'')),
                     (''date'', js_or (field parsedData ''date'') (JStr defaultDate)),
                     (''notes'', js_or (field parsedData ''notes'') inputText)])
                else if intent = JStr ''loan_repayment'' then
                  Inr (JObj
                    [(''intent'', JStr ''loan_repayment''),
                     (''lender_name'', js_or (field parsedData ''lender_name'') (JStr ''Unknown'')),
                     (''amount'', js_or (field parsedData ''amount'') (JNum 0)),
                     (''currency'', js_or (field parsedData ''currency'') (JStr ''BDT'')),
                     (''date'', js_or (field parsedData ''date'') (JStr defaultDate)),
                     (''notes'', js_or (field parsedData ''notes'') inputText)])
                else
                  Inr (JObj
                    [(''intent'', JStr ''transaction''),
                     (''amount'', js_or (field parsedData ''amount'') (JNum 0)),
                     (''currency'', js_or (field parsedData ''currency'') (JStr ''BDT'')),
                     (''category'', js_or (field parsedData ''category'') (JStr ''other'')),
                     (''notes'', js_or (field parsedData ''notes'') inputText),
                     (''type'',
                        if field parsedData ''type'' = JStr ''income''
                        then JStr ''income'' else JStr ''expense''),
                     (''date'', js_or (field parsedData ''date'') (JStr defaultDate))])))"

text \<open>
  A calendar date as the \<^verbatim>\<open>DATE\<close> columns and the prompt write it, \<^verbatim>\<open>YYYY-MM-DD\<close>:
  digits in the eight places, a month from 1 to 12 and a day that the month has.
\<close>

definition digit_val :: "char \<Rightarrow> nat option" where
  "digit_val c =
     (let n = (of_char c :: nat) in if 48 \<le> n \<and> n \<le> 57 then Some (n - 48) else None)"

definition days_in_month :: "nat \<Rightarrow> nat \<Rightarrow> nat" where
  "days_in_month y m =
     (if m = 2 then (if y mod 4 = 0 \<and> (y mod 100 \<noteq> 0 \<or> y mod 400 = 0) then 29 else 28)
      else if m = 4 \<or> m = 6 \<or> m = 9 \<or> m = 11 then 30
      else 31)"

definition valid_calendar_date :: "string \<Rightarrow> bool" where
  "valid_calendar_date s =
     (case map digit_val s of
        [Some y1, Some y2, Some y3, Some y4, None, Some m1, Some m2, None, Some d1, Some d2] \<Rightarrow>
          s ! 4 = CHR ''-'' \<and> s ! 7 = CHR ''-'' \<and>
          (let y = 1000 * y1 + 100 * y2 + 10 * y3 + y4; m = 10 * m1 + m2; d = 10 * d1 + d2
           in 1 \<le> m \<and> m \<le> 12 \<and> 1 \<le> d \<and> d \<le> days_in_month y m)
      | _ \<Rightarrow> False)"

section \<open>The response formatter and the request handler (server.js)\<close>

subsection \<open>Messages\<close>

definition emoji_expense :: string where
  "emoji_expense = [CHR 0xF0, CHR 0x9F, CHR 0x92, CHR 0xB8]"

definition emoji_income :: string where
  "emoji_income = [CHR 0xF0, CHR 0x9F, CHR 0x92, CHR 0xB0]"

definition emoji_bank :: string where
  "emoji_bank = [CHR 0xF0, CHR 0x9F, CHR 0x8F, CHR 0xA6]"

definition emoji_party :: string where
  "emoji_party = [CHR 0xF0, CHR 0x9F, CHR 0x8E, CHR 0x89]"

definition generateResponseMessage :: "(rat \<Rightarrow> string) \<Rightarrow> jsval \<Rightarrow> string" where
  "generateResponseMessage fmt data =
     (if \<not> truthy (field data ''amount'') \<or> \<not> truthy (field data ''type'')
      then ''I couldn't extract the transaction details. Please provide the amount and specify if it's an expense or income.''
      else
        (let emoji = (if field data ''type'' = JStr ''expense'' then emoji_expense else emoji_income);
             action = (if field data ''type'' = JStr ''expense''
                       then ''recorded expense'' else ''recorded income'')
         in emoji @ '' Successfully '' @ action @ '': '' @
            ToString fmt (js_or (field data ''currency'') (JStr ''BDT'')) @ '' '' @
            ToString fmt (field data ''amount'') @ '' for '' @
            ToString fmt (js_or (field data ''category'') (JStr ''other'')) @
            (if truthy (field data ''notes'')
             then '' ('' @ ToString fmt (field data ''notes'') @ '')'' else []) @
            '' on '' @ ToString fmt (js_or (field data ''date'') (JStr ''today''))))"

definition generateLoanResponseMessage :: "(rat \<Rightarrow> string) \<Rightarrow> jsval \<Rightarrow> string" where
  "generateLoanResponseMessage fmt data =
     (let type = (if field data ''loan_type'' = JStr ''personal''
                  then ''personal loan'' else ''bank loan'');
          msg0 = emoji_bank @ '' Loan recorded: '' @
                 ToString fmt (js_or (field data ''currency'') (JStr ''BDT'')) @ '' '' @
                 ToString fmt (field data ''principal_amount'') @ '' '' @ type @ '' from '' @
                 ToString fmt (field data ''lender_name'');
          msg1 = (if truthy (field data ''interest_rate'')
                  then msg0 @ '' at '' @ ToString fmt (field data ''interest_rate'') @ ''% interest''
                  else msg0);
          msg2 = (if truthy (field data ''tenure_months'')
                  then msg1 @ '' for '' @ ToString fmt (field data ''tenure_months'') @ '' months''
                  else msg1)
      in msg2 @ '' on '' @ ToString fmt (js_or (field data ''date'') (JStr ''today'')))"

definition generateRepaymentResponseMessage ::
  "(rat \<Rightarrow> string) \<Rightarrow> jsval \<Rightarrow> repayment_result \<Rightarrow> string" where
  "generateRepaymentResponseMessage fmt data result =
     (case loan result of
        Some l \<Rightarrow>
          (let statusMsg = (if status l = ''paid_off''
                            then emoji_party @ '' This loan is now fully paid off!''
                            else ''Remaining balance: '' @ loan_currency l @ '' '' @
                                 toFixed2 (remaining_balance l))
           in emoji_income @ '' Repayment recorded: '' @
              ToString fmt (js_or (field data ''currency'') (JStr ''BDT'')) @ '' '' @
              ToString fmt (field data ''amount'') @ '' to '' @
              ToString fmt (field data ''lender_name'') @ ''. '' @ statusMsg)
      | None \<Rightarrow>
          emoji_income @ '' Repayment of '' @
          ToString fmt (js_or (field data ''currency'') (JStr ''BDT'')) @ '' '' @
          ToString fmt (field data ''amount'') @ '' to '' @
          ToString fmt (field data ''lender_name'') @
          '' recorded as expense (no matching active loan found).'')"

subsection \<open>The handler of \<^verbatim>\<open>POST /api/process\<close>\<close>

text \<open>
  The handler passes JavaScript values to the store functions. Its model records the calls
  it makes, in order, with their arguments; what the store does with a call is the first
  part of this theory. The environment decides whether a call throws and what a
  reconciliation resolves to.
\<close>

datatype store_call =
    CallSaveTransaction jsval
  | CallSaveLoan jsval
  | CallRecordLoanRepayment jsval jsval jsval jsval jsval

record environment =
  transcription :: "string + string"
  completion :: "string + jsval"
  extraction_date :: string
  handler_date :: string
  store_throws :: "store_call \<Rightarrow> string option"
  reconciliation :: repayment_result

text \<open>The members an object spread \<^verbatim>\<open>{...v}\<close> copies.\<close>

fun members :: "jsval \<Rightarrow> (string \<times> jsval) list" where
  "members (JObj kvs) = kvs"
| "members v = []"

text \<open>
  The part of the handler after the extraction: the calls made and either the message
  of the exception that ended the request or the response message.
\<close>

definition dispatch ::
  "(rat \<Rightarrow> string) \<Rightarrow> environment \<Rightarrow> jsval \<Rightarrow> jsval \<Rightarrow> jsval \<Rightarrow> store_call list \<times> (string + string)" where
  "dispatch fmt env userId inputText extractedData =
     (if field extractedData ''intent'' = JStr ''new_loan'' then
        (if truthy (field extractedData ''principal_amount'') then
           (let c1 = CallSaveLoan (JObj ((''userId'', userId) # members extractedData));
                c2 = CallSaveTransaction (JObj
                       [(''userId'', userId),
                        (''amount'', field extractedData ''principal_amount''),
                        (''currency'', js_or (field extractedData ''currency'') (JStr ''BDT'')),
                        (''category'', JStr ''loan''),
                        (''notes'', JStr (''Loan from '' @
                                          ToString fmt (field extractedData ''lender_name''))),
                        (''type'', JStr ''income''),
                        (''date'', js_or (field extractedData ''date'')
                                     (JStr (handler_date env)))])
            in case store_throws env c1 of
                 Some e \<Rightarrow> ([c1], Inl e)
               | None \<Rightarrow>
                   (case store_throws env c2 of
                      Some e \<Rightarrow> ([c1, c2], Inl e)
                    | None \<Rightarrow> ([c1, c2], Inr (generateLoanResponseMessage fmt extractedData))))
         else ([], Inr ''I couldn't extract the loan details. Please provide the loan amount and lender name.''))
      else if field extractedData ''intent'' = JStr ''loan_repayment'' then
        (if truthy (field extractedData ''amount'') \<and> truthy (field extractedData ''lender_name'')
         then
           (let c = CallRecordLoanRepayment userId
                      (field extractedData ''lender_name'')
                      (field extractedData ''amount'')
                      (js_or (field extractedData ''date'') (JStr (handler_date env)))
                      (js_or (field extractedData ''currency'') (JStr ''BDT''))
            in case store_throws env c of
                 Some e \<Rightarrow> ([c], Inl e)
               | None \<Rightarrow>
                   ([c], Inr (generateRepaymentResponseMessage fmt extractedData
                                (reconciliation env))))
         else ([], Inr ''I couldn't extract the repayment details. Please provide the amount and which loan it's for.''))
      else
        (if truthy (field extractedData ''amount'') \<and> truthy (field extractedData ''type'')
         then
           (let c = CallSaveTransaction (JObj
                      [(''userId'', userId),
                       (''amount'', field extractedData ''amount''),
                       (''currency'', js_or (field extractedData ''currency'') (JStr ''BDT'')),
                       (''category'', js_or (field extractedData ''category'') (JStr ''other'')),
                       (''notes'', js_or (field extractedData ''notes'') inputText),
                       (''type'', field extractedData ''type''),
                       (''date'', js_or (field extractedData ''date'')
                                    (JStr (handler_date env)))])
            in case store_throws env c of
                 Some e \<Rightarrow> ([c], Inl e)
               | None \<Rightarrow> ([c], Inr (generateResponseMessage fmt extractedData)))
         else ([], Inr (generateResponseMessage fmt extractedData))))"

record request =
  mode :: jsval
  body_text :: jsval
  userId :: jsval
  has_file :: bool

datatype http_response =
    Status400 string
  | Status500 string string
  | Status200 string jsval

definition process ::
  "(rat \<Rightarrow> string) \<Rightarrow> environment \<Rightarrow> request \<Rightarrow> store_call list \<times> http_response" where
  "process fmt env req =
     (if \<not> truthy (userId req) then ([], Status400 ''userId is required'')
      else
        (let input =
               (if mode req = JStr ''voice'' \<and> has_file req then
                  (case transcription env of
                     Inl e \<Rightarrow> Inl (Status500 ''Failed to process request'' e)
                   | Inr t \<Rightarrow> Inr (JStr t))
                else if mode req = JStr ''text'' \<and> truthy (body_text req) then
                  Inr (body_text req)
                else Inl (Status400 ''Invalid mode or missing data''))
         in case input of
              Inl r \<Rightarrow> ([], r)
            | Inr inputText \<Rightarrow>
                (case extractExpenseData inputText (userId req) (extraction_date env)
                        (completion env) of
                   Inl e \<Rightarrow> ([], Status500 ''Failed to process request'' e)
                 | Inr extractedData \<Rightarrow>
                     (case dispatch fmt env (userId req) inputText extractedData of
                        (calls, Inl e) \<Rightarrow> (calls, Status500 ''Failed to process request'' e)
                      | (calls, Inr response) \<Rightarrow> (calls, Status200 response extractedData)))))"

text \<open>The calls that create or change a loan.\<close>

fun loan_call :: "store_call \<Rightarrow> bool" where
  "loan_call (CallSaveTransaction data) = False"
| "loan_call (CallSaveLoan data) = True"
| "loan_call (CallRecordLoanRepayment u l a d c) = True"

text \<open>
  How \<^verbatim>\<open>Number.prototype.toString\<close> prints a whole number (of magnitude below
  \<open>10\<^sup>2\<^sup>1\<close>); the examples use it for the number format.
\<close>

definition whole_number :: "rat \<Rightarrow> string" where
  "whole_number r = (if r < 0 then ''-'' else []) @ digits (nat \<lfloor>\<bar>r\<bar>\<rfloor>)"

fun is_nonempty_string :: "jsval \<Rightarrow> bool" where
  "is_nonempty_string (JStr s) = (s \<noteq> [])"
| "is_nonempty_string v = False"

section \<open>A sample ledger\<close>

text \<open>
  The loan of the spec's second end-to-end scenario (50000 from BRAC Bank), a loan of the
  same user that is already paid off, and a transaction of another user.
\<close>

definition brac_loan :: loan_row where
  "brac_loan =
     \<lparr>loan_id = 0, loan_user_id = ''alice'', lender_name = ''BRAC Bank'', loan_type = ''bank'',
      principal_amount = 50000, interest_rate = 12, tenure_months = Some 24,
      monthly_installment = None, total_paid = 0, remaining_balance = 50000,
      loan_currency = ''BDT'', status = ''active'', start_date = ''2025-11-22'',
      loan_notes = Some ''Loan from BRAC Bank'', loan_created_at = 0\<rparr>"

definition rahim_loan :: loan_row where
  "rahim_loan =
     \<lparr>loan_id = 1, loan_user_id = ''alice'', lender_name = ''Rahim'', loan_type = ''personal'',
      principal_amount = 5000, interest_rate = 0, tenure_months = None,
      monthly_installment = None, total_paid = 5000, remaining_balance = 0,
      loan_currency = ''BDT'', status = ''paid_off'', start_date = ''2025-10-01'',
      loan_notes = None, loan_created_at = 1\<rparr>"

definition bob_transaction :: transaction_row where
  "bob_transaction =
     \<lparr>tx_id = 2, tx_user_id = ''bob'', tx_amount = 200, tx_currency = ''BDT'',
      tx_category = ''shopping'', tx_notes = ''shopping'', tx_type = ''expense'',
      tx_date = ''2025-11-22'', tx_created_at = 2\<rparr>"

definition sample_db :: db where
  "sample_db =
     \<lparr>transactions = [bob_transaction], loans = [brac_loan, rahim_loan], feedback = [],
      next_id = 3, failures = []\<rparr>"

text \<open>The sample ledger with no reconciliation in flight.\<close>

definition sample_system :: system where
  "sample_system = \<lparr>sys_db = sample_db, sys_tasks = []\<rparr>"

text \<open>
  The sample ledger while a repayment of 2000 to BRAC Bank is between its query and its
  update.
\<close>

definition busy_system :: system where
  "busy_system =
     \<lparr>sys_db = sample_db,
      sys_tasks = [Updating ''alice'' 2000 ''2025-11-23'' ''BDT'' brac_loan]\<rparr>"

text \<open>
  An environment in which no store call throws, on the anchor date of the spec's
  scenarios, and replies of the model: the spec's first scenario, a reply whose date is
  the phrase of the prompt's last example, a reply whose amount is spelled out, and a
  repayment whose lender is a number.
\<close>

definition sample_env :: environment where
  "sample_env =
     \<lparr>transcription = Inr ''Spent 200 on shopping today'',
      completion = Inr (JObj [(''intent'', JStr ''transaction''), (''amount'', JNum 200)]),
      extraction_date = ''2025-11-22'', handler_date = ''2025-11-22'',
      store_throws = (\<lambda>c. None),
      reconciliation = \<lparr>loan = None, message = []\<rparr>\<rparr>"

definition sample_request :: request where
  "sample_request =
     \<lparr>mode = JStr ''text'', body_text = JStr ''hello'', userId = JStr ''alice'',
      has_file = False\<rparr>"

definition shopping_reply :: jsval where
  "shopping_reply =
     JObj [(''intent'', JStr ''transaction''), (''amount'', JNum 200),
           (''category'', JStr ''shopping''), (''notes'', JStr ''shopping''),
           (''type'', JStr ''expense'')]"

definition yesterday_reply :: jsval where
  "yesterday_reply =
     JObj [(''intent'', JStr ''transaction''), (''amount'', JNum 300),
           (''currency'', JStr ''BDT''), (''category'', JStr ''other''),
           (''notes'', JStr ''Spent 300 yesterday''), (''type'', JStr ''expense''),
           (''date'', JStr ''calculate yesterday's date based on 2025-11-22'')]"

definition spelled_out_reply :: jsval where
  "spelled_out_reply =
     JObj [(''intent'', JStr ''transaction''), (''amount'', JStr ''two hundred''),
           (''type'', JStr ''expense'')]"

definition numbered_lender_reply :: jsval where
  "numbered_lender_reply =
     JObj [(''intent'', JStr ''loan_repayment''), (''lender_name'', JNum 5),
           (''amount'', JNum 2000)]"

definition unknown_lender_reply :: jsval where
  "unknown_lender_reply =
     JObj [(''intent'', JStr ''loan_repayment''), (''amount'', JNum 2000)]"

section \<open>Properties of the store\<close>

subsection \<open>Round trips and what they leave alone\<close>

lemma round_trip_fields:
  "round_trip d = (f, d1) \<Longrightarrow>
     loans d1 = loans d \<and> transactions d1 = transactions d \<and> feedback d1 = feedback d \<and>
     next_id d1 = next_id d"
  by (auto simp: round_trip_def split: list.splits)

lemma matching_loans_cong:
  "loans d1 = loans d \<Longrightarrow> matching_loans uid n d1 = matching_loans uid n d"
  by (simp add: matching_loans_def)

lemma saveTransaction_loans: "saveTransaction data d = (r, d') \<Longrightarrow> loans d' = loans d"
  by (auto simp: saveTransaction_def dest: round_trip_fields split: prod.splits bool.splits)

lemma update_loan_hit:
  assumes "l' \<in> set (update_loan i tp rb st ls)" and "loan_id l' = i"
  shows "total_paid l' = tp \<and> remaining_balance l' = rb \<and> status l' = st"
proof -
  from assms(1) obtain l where l: "l \<in> set ls"
      "l' = (if loan_id l = i then l\<lparr>total_paid := tp, remaining_balance := rb, status := st\<rparr> else l)"
    unfolding update_loan_def set_map by blast
  show ?thesis
  proof (cases "loan_id l = i")
    case True
    with l show ?thesis by simp
  next
    case False
    with l assms(2) show ?thesis by simp
  qed
qed

lemma update_loan_miss:
  assumes "l' \<in> set (update_loan i tp rb st ls)" and "loan_id l' \<noteq> i"
  shows "l' \<in> set ls"
proof -
  from assms(1) obtain l where l: "l \<in> set ls"
      "l' = (if loan_id l = i then l\<lparr>total_paid := tp, remaining_balance := rb, status := st\<rparr> else l)"
    unfolding update_loan_def set_map by blast
  show ?thesis
  proof (cases "loan_id l = i")
    case True
    with l assms(2) show ?thesis by simp
  next
    case False
    with l show ?thesis by simp
  qed
qed

lemma update_loan_ids: "map loan_id (update_loan i tp rb st ls) = map loan_id ls"
  by (induction ls) (auto simp: update_loan_def)

text \<open>With no failure scheduled, a reconciliation returns a result.\<close>

lemma recordLoanRepayment_no_failures:
  assumes "failures d = []"
  shows "\<not> isl (fst (recordLoanRepayment ar uid nm A dt cur d))"
proof (cases "matching_loans uid nm d")
  case Nil
  then show ?thesis using assms
    by (simp add: recordLoanRepayment_def round_trip_def saveTransaction_def)
next
  case (Cons l rest)
  then show ?thesis using assms
    by (simp add: recordLoanRepayment_def round_trip_def saveTransaction_def Let_def)
qed

lemma sample_db_failures: "failures sample_db = []"
  by (simp add: sample_db_def)

subsection \<open>Rounding to cents\<close>

text \<open>A column holds whole cents, and a value within half a cent of one is rounded to it.\<close>

lemma numeric2_whole_cents: "whole_cents (numeric2 x)"
  by (simp add: numeric2_def whole_cents_def)

lemma whole_cents_zero: "whole_cents 0"
  by (simp add: whole_cents_def)

lemma numeric2_near:
  assumes s: "whole_cents s" and x: "\<bar>x - s\<bar> < 1 / 200"
  shows "numeric2 x = s"
proof -
  obtain k :: int where k: "s * 100 = of_int k"
    using s unfolding whole_cents_def by metis
  have s': "s = of_int k / 100" using k by simp
  have b: "of_int k - 1 / 2 < x * 100" "x * 100 < of_int k + 1 / 2"
  proof -
    from x have "x - of_int k / 100 < 1 / 200" "- (x - of_int k / 100) < 1 / 200"
      unfolding s' abs_less_iff by simp_all
    then show "of_int k - 1 / 2 < x * 100" "x * 100 < of_int k + 1 / 2" by linarith+
  qed
  show ?thesis
  proof (cases "0 \<le> x")
    case True
    have "\<lfloor>x * 100 + 1 / 2\<rfloor> = k" using b by (intro floor_unique) simp_all
    with True show ?thesis by (simp add: numeric2_def s')
  next
    case False
    have kn: "k \<le> 0"
    proof (rule ccontr)
      assume "\<not> k \<le> 0"
      then have "(1::rat) \<le> of_int k" by simp
      with b(1) False show False by simp
    qed
    have "\<lfloor>- x * 100 + 1 / 2\<rfloor> = - k"
    proof (cases "k = 0")
      case True
      with b False show ?thesis by (intro floor_unique) simp_all
    next
      case False
      with b show ?thesis by (intro floor_unique) simp_all
    qed
    with False show ?thesis by (simp add: numeric2_def s')
  qed
qed

lemma whole_cents_int:
  "whole_cents x \<longleftrightarrow> (\<exists>k::int. x = of_int k / 100)"
proof
  assume "whole_cents x"
  then obtain k :: int where "x * 100 = of_int k" unfolding whole_cents_def by metis
  then have "x = of_int k / 100" by simp
  then show "\<exists>k::int. x = of_int k / 100" ..
next
  assume "\<exists>k::int. x = of_int k / 100"
  then obtain k :: int where "x = of_int k / 100" ..
  then have e: "x * 100 = of_int k" by simp
  show "whole_cents x" unfolding whole_cents_def e by simp
qed

lemma whole_cents_add: "whole_cents x \<Longrightarrow> whole_cents y \<Longrightarrow> whole_cents (x + y)"
proof -
  assume "whole_cents x" "whole_cents y"
  then obtain j k :: int where "x = of_int j / 100" "y = of_int k / 100"
    unfolding whole_cents_int by blast
  then have "x + y = of_int (j + k) / 100" by (simp add: add_divide_distrib)
  then show ?thesis unfolding whole_cents_int ..
qed

lemma whole_cents_diff: "whole_cents x \<Longrightarrow> whole_cents y \<Longrightarrow> whole_cents (x - y)"
proof -
  assume "whole_cents x" "whole_cents y"
  then obtain j k :: int where "x = of_int j / 100" "y = of_int k / 100"
    unfolding whole_cents_int by blast
  then have "x - y = of_int (j - k) / 100" by (simp add: diff_divide_distrib)
  then show ?thesis unfolding whole_cents_int ..
qed

lemma whole_cents_positive:
  assumes "whole_cents x" and "0 < x"
  shows "1 / 100 \<le> x"
proof -
  from assms(1) obtain k :: int where k: "x = of_int k / 100"
    unfolding whole_cents_int by blast
  with assms(2) have "0 < k" by simp
  then have "(1::rat) \<le> of_int k" by simp
  then show ?thesis unfolding k by simp
qed

lemma max0_close: "\<bar>max 0 a - max 0 b\<bar> \<le> \<bar>a - (b::rat)\<bar>"
  by (simp add: max_def abs_if)

text \<open>
  On whole cents, with accurate arithmetic, the repayment's three values come out as in
  exact arithmetic: what the columns store is the exact sum and the exact clamped
  difference, and the sign test on the computed difference decides as on the exact one.
\<close>

lemma repayment_values:
  assumes T: "whole_cents T" and R: "whole_cents R" and A: "whole_cents A"
    and accT: "accurate ar T A" and accR: "accurate ar R A"
  shows "numeric2 (js_plus ar T A) = T + A"
    and "numeric2 (max 0 (js_minus ar R A)) = max 0 (R - A)"
    and "js_minus ar R A \<le> 0 \<longleftrightarrow> R - A \<le> 0"
proof -
  have p: "\<bar>js_plus ar T A - (T + A)\<bar> < 1 / 200" using accT by (simp add: accurate_def)
  have m: "\<bar>js_minus ar R A - (R - A)\<bar> < 1 / 200" using accR by (simp add: accurate_def)
  have z: "js_minus ar A A = 0" using accR by (simp add: accurate_def)
  show "numeric2 (js_plus ar T A) = T + A"
    using whole_cents_add[OF T A] p by (rule numeric2_near)
  have wd: "whole_cents (R - A)" using R A by (rule whole_cents_diff)
  show sign: "js_minus ar R A \<le> 0 \<longleftrightarrow> R - A \<le> 0"
  proof (cases "R = A")
    case True
    with z show ?thesis by simp
  next
    case False
    show ?thesis
    proof (cases "0 < R - A")
      case True
      with wd have "1 / 100 \<le> R - A" by (rule whole_cents_positive)
      with m True show ?thesis unfolding abs_less_iff by linarith
    next
      case neg: False
      with False have "0 < A - R" by simp
      moreover have "whole_cents (A - R)" using A R by (rule whole_cents_diff)
      ultimately have "1 / 100 \<le> A - R" by (rule whole_cents_positive[rotated])
      with m neg show ?thesis unfolding abs_less_iff by linarith
    qed
  qed
  have "whole_cents (max 0 (R - A))" using wd by (simp add: max_def whole_cents_def)
  moreover have "\<bar>max 0 (js_minus ar R A) - max 0 (R - A)\<bar> < 1 / 200"
    using max0_close[of "js_minus ar R A" "R - A"] m by simp
  ultimately show "numeric2 (max 0 (js_minus ar R A)) = max 0 (R - A)"
    by (rule numeric2_near)
qed

lemma exact_accurate: "accurate exact x y"
  by (simp add: accurate_def exact_def)

subsection \<open>A repayment that finds its loan\<close>

lemma recordLoanRepayment_match:
  assumes m: "matching_loans uid nm d = l # rest"
    and r: "fst (recordLoanRepayment ar uid nm A dt cur d) = Inr res"
  shows "loans (snd (recordLoanRepayment ar uid nm A dt cur d)) =
           update_loan (loan_id l) (numeric2 (js_plus ar (total_paid l) A))
             (numeric2 (max 0 (js_minus ar (remaining_balance l) A)))
             (if js_minus ar (remaining_balance l) A \<le> 0 then ''paid_off'' else ''active'')
             (loans d)"
    and "loan res = Some (l\<lparr>total_paid := js_plus ar (total_paid l) A,
            remaining_balance := max 0 (js_minus ar (remaining_balance l) A),
            status := (if js_minus ar (remaining_balance l) A \<le> 0
                       then ''paid_off'' else ''active'')\<rparr>)"
proof -
  define tp where "tp = js_plus ar (total_paid l) A"
  define rb where "rb = js_minus ar (remaining_balance l) A"
  let ?st = "if rb \<le> 0 then ''paid_off'' else ''active''"
  obtain f1 d1 where rt1: "round_trip d = (f1, d1)" by (cases "round_trip d")
  obtain f2 d2 where rt2: "round_trip d1 = (f2, d2)" by (cases "round_trip d1")
  have l1: "loans d1 = loans d" using round_trip_fields[OF rt1] by simp
  have l2: "loans d2 = loans d" using round_trip_fields[OF rt2] l1 by simp
  have m1: "matching_loans uid nm d1 = l # rest" using m matching_loans_cong[OF l1] by simp
  define d3 where "d3 = d2\<lparr>loans := update_loan (loan_id l) (numeric2 tp)
                          (numeric2 (max 0 rb)) ?st (loans d2)\<rparr>"
  define data where "data = \<lparr>td_userId = uid, td_amount = A, td_currency = or_str cur ''BDT'',
                          td_category = ''loan_repayment'',
                          td_notes = ''Loan repayment to '' @ lender_name l,
                          td_type = ''expense'', td_date = dt\<rparr>"
  obtain r4 d4 where st: "saveTransaction data d3 = (r4, d4)" by (cases "saveTransaction data d3")
  have f1: "\<not> f1" using r rt1 by (auto simp: recordLoanRepayment_def)
  have f2: "\<not> f2" using r rt1 f1 m1 rt2 by (auto simp: recordLoanRepayment_def Let_def)
  have unfold: "recordLoanRepayment ar uid nm A dt cur d =
      (case r4 of Inl e \<Rightarrow> (Inl e, d4)
       | Inr u \<Rightarrow> (Inr \<lparr>loan = Some (l\<lparr>total_paid := tp, remaining_balance := max 0 rb,
                                         status := ?st\<rparr>),
                        message = (if ?st = ''paid_off''
                                   then ''Loan from '' @ lender_name l @ '' fully paid off!''
                                   else ''Repayment recorded. Remaining: '' @
                                        toFixed2 (max 0 rb) @ '' '' @ loan_currency l)\<rparr>, d4))"
    using rt1 f1 m1 rt2 f2 st[unfolded d3_def data_def tp_def rb_def]
    by (cases r4) (simp_all add: recordLoanRepayment_def Let_def tp_def rb_def)
  have l4: "loans d4 = loans d3" using saveTransaction_loans[OF st] .
  have "loans (snd (recordLoanRepayment ar uid nm A dt cur d)) =
           update_loan (loan_id l) (numeric2 tp) (numeric2 (max 0 rb)) ?st (loans d)"
    unfolding unfold using l4 l2 by (cases r4) (simp_all add: d3_def)
  then show "loans (snd (recordLoanRepayment ar uid nm A dt cur d)) =
           update_loan (loan_id l) (numeric2 (js_plus ar (total_paid l) A))
             (numeric2 (max 0 (js_minus ar (remaining_balance l) A)))
             (if js_minus ar (remaining_balance l) A \<le> 0 then ''paid_off'' else ''active'')
             (loans d)"
    unfolding tp_def rb_def .
  have "loan res = Some (l\<lparr>total_paid := tp, remaining_balance := max 0 rb, status := ?st\<rparr>)"
    using r unfolding unfold by (cases r4) auto
  then show "loan res = Some (l\<lparr>total_paid := js_plus ar (total_paid l) A,
            remaining_balance := max 0 (js_minus ar (remaining_balance l) A),
            status := (if js_minus ar (remaining_balance l) A \<le> 0
                       then ''paid_off'' else ''active'')\<rparr>)"
    unfolding tp_def rb_def .
qed

text \<open>
  C1, as stated, at an amount that is not a whole number of cents. On the sample ledger
  the BRAC Bank loan has nothing paid and 50000 remaining. A repayment of 49999.99609375
  (a double; the sum and the difference below are doubles too, so the arithmetic of
  doubles is exact here) computes a total paid of 49999.99609375 and a remaining balance
  of 0.00390625, which is positive, so the status is \<open>active\<close>. The columns round:
  the stored loan has total paid 50000.00, which is not \<open>T + A\<close>, and remaining balance
  0.00, which is not \<open>max 0 (R - A)\<close>, and it is active with nothing remaining.
\<close>

theorem sub_cent_repayment_is_rounded:
  "matching_loans ''alice'' ''brac'' sample_db = [brac_loan] \<and>
   \<not> isl (fst (recordLoanRepayment exact ''alice'' ''brac'' (12799999 / 256) ''2025-11-23''
                 ''BDT'' sample_db)) \<and>
   loans (snd (recordLoanRepayment exact ''alice'' ''brac'' (12799999 / 256) ''2025-11-23''
                 ''BDT'' sample_db)) =
     [brac_loan\<lparr>total_paid := 50000, remaining_balance := 0, status := ''active''\<rparr>,
      rahim_loan] \<and>
   total_paid brac_loan + 12799999 / 256 \<noteq> 50000 \<and>
   max 0 (remaining_balance brac_loan - 12799999 / 256) \<noteq> 0"
proof -
  let ?r = "recordLoanRepayment exact ''alice'' ''brac'' (12799999 / 256) ''2025-11-23''
              ''BDT'' sample_db"
  have h1: "matching_loans ''alice'' ''brac'' sample_db = brac_loan # []"
    by code_simp
  have h2: "\<not> isl (fst ?r)"
    by (rule recordLoanRepayment_no_failures[OF sample_db_failures])
  then obtain res where h3: "fst ?r = Inr res"
    by (cases "fst ?r") simp_all
  have tp: "js_plus exact (total_paid brac_loan) (12799999 / 256) = 12799999 / 256"
    by (simp add: exact_def brac_loan_def)
  have rb: "js_minus exact (remaining_balance brac_loan) (12799999 / 256) = 1 / 256"
    by (simp add: exact_def brac_loan_def)
  have n1: "numeric2 (12799999 / 256) = 50000" by code_simp
  have n2: "numeric2 (max 0 (1 / 256)) = 0" by code_simp
  have "loans (snd ?r) = update_loan (loan_id brac_loan) 50000 0 ''active'' (loans sample_db)"
    unfolding recordLoanRepayment_match(1)[OF h1 h3] tp rb n1 n2 by simp
  also have "\<dots> = [brac_loan\<lparr>total_paid := 50000, remaining_balance := 0,
                               status := ''active''\<rparr>, rahim_loan]"
    by (simp add: update_loan_def sample_db_def brac_loan_def rahim_loan_def)
  finally have h4: "loans (snd ?r) =
      [brac_loan\<lparr>total_paid := 50000, remaining_balance := 0, status := ''active''\<rparr>,
       rahim_loan]" .
  have h5: "total_paid brac_loan + 12799999 / 256 \<noteq> 50000"
    "max 0 (remaining_balance brac_loan - 12799999 / 256) \<noteq> 0"
    by (simp_all add: brac_loan_def)
  show ?thesis using h1 h2 h4 h5 by blast
qed

text \<open>
  C1, amended. The stored balances are whole cents, being columns of two decimals. When the
  repayment's amount is a whole number of cents too, and the arithmetic is accurate on the
  operands, the claim holds as stated: when the reconciliation finds a matching active
  loan \<open>l\<close> (the first row the candidate query returns) and completes, the stored loan
  with that identifier has \<open>total_paid = T + A\<close>, \<open>remaining_balance = max 0 (R - A)\<close>,
  and status \<open>paid_off\<close> exactly when the clamped balance is 0, \<open>active\<close> otherwise.
  For \<open>A \<le> R\<close> the balance is \<open>R - A\<close> and the loan stays active iff \<open>R - A > 0\<close>;
  for \<open>A > R\<close> the balance is 0 and the loan is paid off.
\<close>

theorem repayment_updates_matched_loan:
  assumes "matching_loans uid nm d = l # rest"
    and "fst (recordLoanRepayment ar uid nm A dt cur d) = Inr res"
    and "whole_cents (total_paid l)" and "whole_cents (remaining_balance l)"
    and "whole_cents A"
    and "accurate ar (total_paid l) A" and "accurate ar (remaining_balance l) A"
  shows "(\<exists>l' \<in> set (loans (snd (recordLoanRepayment ar uid nm A dt cur d))).
            loan_id l' = loan_id l) \<and>
         (\<forall>l' \<in> set (loans (snd (recordLoanRepayment ar uid nm A dt cur d))).
            loan_id l' = loan_id l \<longrightarrow>
            total_paid l' = total_paid l + A \<and>
            remaining_balance l' = max 0 (remaining_balance l - A) \<and>
            (status l' = ''paid_off'' \<longleftrightarrow> max 0 (remaining_balance l - A) = 0) \<and>
            (status l' = ''active'' \<longleftrightarrow> max 0 (remaining_balance l - A) \<noteq> 0) \<and>
            (A \<le> remaining_balance l \<longrightarrow>
               remaining_balance l' = remaining_balance l - A \<and>
               (status l' = ''active'' \<longleftrightarrow> remaining_balance l - A > 0)) \<and>
            (A > remaining_balance l \<longrightarrow>
               remaining_balance l' = 0 \<and> status l' = ''paid_off''))"
proof -
  let ?d' = "snd (recordLoanRepayment ar uid nm A dt cur d)"
  let ?st = "if remaining_balance l - A \<le> 0 then ''paid_off'' else ''active''"
  note vals = repayment_values[OF assms(3-7)]
  have ls: "loans ?d' = update_loan (loan_id l) (total_paid l + A)
              (max 0 (remaining_balance l - A)) ?st (loans d)"
    using recordLoanRepayment_match(1)[OF assms(1,2)] unfolding vals .
  have "l \<in> set (matching_loans uid nm d)" using assms(1) by simp
  then have "l \<in> set (loans d)" by (simp add: matching_loans_def)
  then have "loan_id l \<in> set (map loan_id (loans ?d'))"
    unfolding ls update_loan_ids by simp
  then have ex: "\<exists>l' \<in> set (loans ?d'). loan_id l' = loan_id l" by auto
  have all: "total_paid l' = total_paid l + A \<and>
            remaining_balance l' = max 0 (remaining_balance l - A) \<and>
            (status l' = ''paid_off'' \<longleftrightarrow> max 0 (remaining_balance l - A) = 0) \<and>
            (status l' = ''active'' \<longleftrightarrow> max 0 (remaining_balance l - A) \<noteq> 0) \<and>
            (A \<le> remaining_balance l \<longrightarrow>
               remaining_balance l' = remaining_balance l - A \<and>
               (status l' = ''active'' \<longleftrightarrow> remaining_balance l - A > 0)) \<and>
            (A > remaining_balance l \<longrightarrow>
               remaining_balance l' = 0 \<and> status l' = ''paid_off'')"
    if "l' \<in> set (loans ?d')" "loan_id l' = loan_id l" for l'
  proof -
    from that have "total_paid l' = total_paid l + A \<and>
        remaining_balance l' = max 0 (remaining_balance l - A) \<and> status l' = ?st"
      unfolding ls by (rule update_loan_hit)
    then show ?thesis by (auto simp: max_def)
  qed
  show ?thesis using ex all by blast
qed

text \<open>
  On the sample ledger: 2000 repaid to "brac" finds the BRAC Bank loan and leaves it
  with 2000 paid, 48000 remaining, active. The operands and results are whole numbers,
  on which the arithmetic of doubles is exact.
\<close>

theorem repayment_updates_matched_loan_witness:
  "matching_loans ''alice'' ''brac'' sample_db = [brac_loan] \<and>
   \<not> isl (fst (recordLoanRepayment exact ''alice'' ''brac'' 2000 ''2025-11-23'' ''BDT''
                 sample_db)) \<and>
   whole_cents (total_paid brac_loan) \<and> whole_cents (remaining_balance brac_loan) \<and>
   whole_cents 2000 \<and>
   accurate exact (total_paid brac_loan) 2000 \<and>
   accurate exact (remaining_balance brac_loan) 2000 \<and>
   (\<exists>l' \<in> set (loans (snd (recordLoanRepayment exact ''alice'' ''brac'' 2000 ''2025-11-23''
                             ''BDT'' sample_db))).
      loan_id l' = 0 \<and> total_paid l' = 2000 \<and> remaining_balance l' = 48000 \<and>
      status l' = ''active'')"
proof -
  let ?r = "recordLoanRepayment exact ''alice'' ''brac'' 2000 ''2025-11-23'' ''BDT'' sample_db"
  have h1: "matching_loans ''alice'' ''brac'' sample_db = brac_loan # []"
    by code_simp
  have h2: "\<not> isl (fst ?r)"
    by (rule recordLoanRepayment_no_failures[OF sample_db_failures])
  then obtain res where h3: "fst ?r = Inr res"
    by (cases "fst ?r") simp_all
  have c: "whole_cents (total_paid brac_loan)" "whole_cents (remaining_balance brac_loan)"
    "whole_cents 2000"
    by (simp_all add: brac_loan_def whole_cents_def)
  have a: "accurate exact (total_paid brac_loan) 2000"
    "accurate exact (remaining_balance brac_loan) 2000"
    by (rule exact_accurate)+
  have vals: "loan_id brac_loan = 0" "total_paid brac_loan + 2000 = 2000"
    "max 0 (remaining_balance brac_loan - 2000) = 48000"
    by (simp_all add: brac_loan_def)
  from repayment_updates_matched_loan[OF h1 h3 c a]
  obtain l' where l': "l' \<in> set (loans (snd ?r))" "loan_id l' = loan_id brac_loan"
    and "total_paid l' = total_paid brac_loan + 2000"
    and "remaining_balance l' = max 0 (remaining_balance brac_loan - 2000)"
    and "(status l' = ''active'') = (max 0 (remaining_balance brac_loan - 2000) \<noteq> 0)"
    by blast
  then have "loan_id l' = 0 \<and> total_paid l' = 2000 \<and> remaining_balance l' = 48000 \<and>
      status l' = ''active''"
    unfolding vals by simp
  with l'(1) h1 h2 c a show ?thesis by blast
qed

subsection \<open>The balance identity\<close>

lemma update_loan_hit_key:
  assumes dist: "distinct (map loan_id ls)" and l: "l \<in> set ls"
    and l': "l' \<in> set (update_loan (loan_id l) tp rb st ls)" and same: "loan_id l' = loan_id l"
  shows "l' = l\<lparr>total_paid := tp, remaining_balance := rb, status := st\<rparr>"
proof -
  from l' obtain l0 where l0: "l0 \<in> set ls"
      "l' = (if loan_id l0 = loan_id l
             then l0\<lparr>total_paid := tp, remaining_balance := rb, status := st\<rparr> else l0)"
    unfolding update_loan_def set_map by blast
  have "loan_id l0 = loan_id l"
  proof (rule ccontr)
    assume "loan_id l0 \<noteq> loan_id l"
    with l0 same show False by simp
  qed
  moreover have "inj_on loan_id (set ls)" using dist by (simp add: distinct_map)
  ultimately have "l0 = l" using l0(1) l by (auto dest: inj_onD)
  with l0(2) show ?thesis by simp
qed

text \<open>
  C5, as stated, at amounts that are not whole numbers of cents. On the sample ledger the
  BRAC Bank loan satisfies the identity: 0 paid, 50000 remaining, principal 50000. All the
  numbers below are doubles, so the arithmetic of doubles is exact on them. A repayment of
  0.125, below the remaining balance, computes 0.125 paid and 49999.875 remaining; both
  are halves of a cent and the columns round both away from zero, to 0.13 and 49999.88,
  whose sum is not the principal. A repayment of 49999.9990234375 computes a remaining
  balance of 0.0009765625, positive, so the status is \<open>active\<close>, and the column
  stores 0.00: the remaining balance is 0 and the loan is not paid off.
\<close>

theorem sub_cent_repayment_breaks_identity:
  "total_paid brac_loan + remaining_balance brac_loan = principal_amount brac_loan \<and>
   1 / 8 \<le> remaining_balance brac_loan \<and>
   matching_loans ''alice'' ''brac'' sample_db = [brac_loan] \<and>
   \<not> isl (fst (recordLoanRepayment exact ''alice'' ''brac'' (1 / 8) ''2025-11-23'' ''BDT''
                 sample_db)) \<and>
   loans (snd (recordLoanRepayment exact ''alice'' ''brac'' (1 / 8) ''2025-11-23'' ''BDT''
                 sample_db)) =
     [brac_loan\<lparr>total_paid := 13 / 100, remaining_balance := 4999988 / 100,
                 status := ''active''\<rparr>, rahim_loan] \<and>
   13 / 100 + 4999988 / 100 \<noteq> principal_amount brac_loan \<and>
   \<not> isl (fst (recordLoanRepayment exact ''alice'' ''brac'' (51199999 / 1024) ''2025-11-23''
                 ''BDT'' sample_db)) \<and>
   loans (snd (recordLoanRepayment exact ''alice'' ''brac'' (51199999 / 1024) ''2025-11-23''
                 ''BDT'' sample_db)) =
     [brac_loan\<lparr>total_paid := 50000, remaining_balance := 0, status := ''active''\<rparr>,
      rahim_loan]"
proof -
  let ?r = "recordLoanRepayment exact ''alice'' ''brac'' (1 / 8) ''2025-11-23'' ''BDT''
              sample_db"
  let ?s = "recordLoanRepayment exact ''alice'' ''brac'' (51199999 / 1024) ''2025-11-23''
              ''BDT'' sample_db"
  have h0: "total_paid brac_loan + remaining_balance brac_loan = principal_amount brac_loan"
    "1 / 8 \<le> remaining_balance brac_loan"
    "13 / 100 + 4999988 / 100 \<noteq> principal_amount brac_loan"
    by (simp_all add: brac_loan_def)
  have h1: "matching_loans ''alice'' ''brac'' sample_db = brac_loan # []"
    by code_simp
  have r2: "\<not> isl (fst ?r)"
    by (rule recordLoanRepayment_no_failures[OF sample_db_failures])
  then obtain res where r3: "fst ?r = Inr res"
    by (cases "fst ?r") simp_all
  have rtp: "js_plus exact (total_paid brac_loan) (1 / 8) = 1 / 8"
    by (simp add: exact_def brac_loan_def)
  have rrb: "js_minus exact (remaining_balance brac_loan) (1 / 8) = 399999 / 8"
    by (simp add: exact_def brac_loan_def)
  have rn1: "numeric2 (1 / 8) = 13 / 100" by code_simp
  have rn2: "numeric2 (max 0 (399999 / 8)) = 4999988 / 100" by code_simp
  have "loans (snd ?r) =
          update_loan (loan_id brac_loan) (13 / 100) (4999988 / 100) ''active'' (loans sample_db)"
    unfolding recordLoanRepayment_match(1)[OF h1 r3] rtp rrb rn1 rn2 by simp
  also have "\<dots> = [brac_loan\<lparr>total_paid := 13 / 100, remaining_balance := 4999988 / 100,
                               status := ''active''\<rparr>, rahim_loan]"
    by (simp add: update_loan_def sample_db_def brac_loan_def rahim_loan_def)
  finally have r4: "loans (snd ?r) =
      [brac_loan\<lparr>total_paid := 13 / 100, remaining_balance := 4999988 / 100,
                  status := ''active''\<rparr>, rahim_loan]" .
  have s2: "\<not> isl (fst ?s)"
    by (rule recordLoanRepayment_no_failures[OF sample_db_failures])
  then obtain res' where s3: "fst ?s = Inr res'"
    by (cases "fst ?s") simp_all
  have stp: "js_plus exact (total_paid brac_loan) (51199999 / 1024) = 51199999 / 1024"
    by (simp add: exact_def brac_loan_def)
  have srb: "js_minus exact (remaining_balance brac_loan) (51199999 / 1024) = 1 / 1024"
    by (simp add: exact_def brac_loan_def)
  have sn1: "numeric2 (51199999 / 1024) = 50000" by code_simp
  have sn2: "numeric2 (max 0 (1 / 1024)) = 0" by code_simp
  have "loans (snd ?s) = update_loan (loan_id brac_loan) 50000 0 ''active'' (loans sample_db)"
    unfolding recordLoanRepayment_match(1)[OF h1 s3] stp srb sn1 sn2 by simp
  also have "\<dots> = [brac_loan\<lparr>total_paid := 50000, remaining_balance := 0,
                               status := ''active''\<rparr>, rahim_loan]"
    by (simp add: update_loan_def sample_db_def brac_loan_def rahim_loan_def)
  finally have s4: "loans (snd ?s) =
      [brac_loan\<lparr>total_paid := 50000, remaining_balance := 0, status := ''active''\<rparr>,
       rahim_loan]" .
  show ?thesis using h0 h1 r2 r4 s2 s4 by blast
qed

text \<open>
  C5, amended. With the primary key on loans, whole cents and accurate arithmetic, a
  completed repayment leaves the matched loan's principal as it was; if
  \<open>total_paid + remaining_balance = principal_amount\<close> held before and
  \<open>A \<le> remaining_balance\<close>, it holds after; and after any repayment the loan's status is
  \<open>paid_off\<close> if and only if its remaining balance is 0.
\<close>

theorem repayment_preserves_ledger_identity:
  assumes keys: "primary_keys d"
    and m: "matching_loans uid nm d = l # rest"
    and r: "fst (recordLoanRepayment ar uid nm A dt cur d) = Inr res"
    and cents: "whole_cents (total_paid l)" "whole_cents (remaining_balance l)" "whole_cents A"
    and acc: "accurate ar (total_paid l) A" "accurate ar (remaining_balance l) A"
  shows "(\<exists>l' \<in> set (loans (snd (recordLoanRepayment ar uid nm A dt cur d))).
            loan_id l' = loan_id l) \<and>
         (\<forall>l' \<in> set (loans (snd (recordLoanRepayment ar uid nm A dt cur d))).
            loan_id l' = loan_id l \<longrightarrow>
            principal_amount l' = principal_amount l \<and>
            (total_paid l + remaining_balance l = principal_amount l \<and>
               A \<le> remaining_balance l \<longrightarrow>
               total_paid l' + remaining_balance l' = principal_amount l') \<and>
            (status l' = ''paid_off'' \<longleftrightarrow> remaining_balance l' = 0))"
proof -
  let ?d' = "snd (recordLoanRepayment ar uid nm A dt cur d)"
  let ?st = "if remaining_balance l - A \<le> 0 then ''paid_off'' else ''active''"
  let ?l = "l\<lparr>total_paid := total_paid l + A,
                remaining_balance := max 0 (remaining_balance l - A), status := ?st\<rparr>"
  note vals = repayment_values[OF cents acc]
  have ls: "loans ?d' = update_loan (loan_id l) (total_paid l + A)
              (max 0 (remaining_balance l - A)) ?st (loans d)"
    using recordLoanRepayment_match(1)[OF m r] unfolding vals .
  have dist: "distinct (map loan_id (loans d))" using keys by (simp add: primary_keys_def)
  have "l \<in> set (matching_loans uid nm d)" using m by simp
  then have mem: "l \<in> set (loans d)" by (simp add: matching_loans_def)
  then have "loan_id l \<in> set (map loan_id (loans ?d'))"
    unfolding ls update_loan_ids by simp
  then have ex: "\<exists>l' \<in> set (loans ?d'). loan_id l' = loan_id l" by auto
  have all: "principal_amount l' = principal_amount l \<and>
            (total_paid l + remaining_balance l = principal_amount l \<and>
               A \<le> remaining_balance l \<longrightarrow>
               total_paid l' + remaining_balance l' = principal_amount l') \<and>
            (status l' = ''paid_off'' \<longleftrightarrow> remaining_balance l' = 0)"
    if "l' \<in> set (loans ?d')" "loan_id l' = loan_id l" for l'
  proof -
    have eq: "l' = ?l" using that unfolding ls by (rule update_loan_hit_key[OF dist mem])
    show ?thesis unfolding eq by (simp add: max_def)
  qed
  show ?thesis using ex all by blast
qed

lemma sample_db_keys: "primary_keys sample_db"
  by (simp add: primary_keys_def sample_db_def brac_loan_def rahim_loan_def bob_transaction_def)

text \<open>
  The spec's third scenario: 50000 repaid against the BRAC Bank loan of 50000. The identity
  held before, the amount does not exceed the balance, and the loan ends paid off at 0.
\<close>

theorem repayment_preserves_ledger_identity_witness:
  "primary_keys sample_db \<and>
   matching_loans ''alice'' ''BRAC Bank'' sample_db = [brac_loan] \<and>
   \<not> isl (fst (recordLoanRepayment exact ''alice'' ''BRAC Bank'' 50000 ''2025-11-23'' ''BDT''
                 sample_db)) \<and>
   whole_cents (total_paid brac_loan) \<and> whole_cents (remaining_balance brac_loan) \<and>
   whole_cents 50000 \<and>
   accurate exact (total_paid brac_loan) 50000 \<and>
   accurate exact (remaining_balance brac_loan) 50000 \<and>
   total_paid brac_loan + remaining_balance brac_loan = principal_amount brac_loan \<and>
   50000 \<le> remaining_balance brac_loan \<and>
   (\<exists>l' \<in> set (loans (snd (recordLoanRepayment exact ''alice'' ''BRAC Bank'' 50000
                             ''2025-11-23'' ''BDT'' sample_db))).
      loan_id l' = 0 \<and> total_paid l' + remaining_balance l' = 50000 \<and>
      status l' = ''paid_off'' \<and> remaining_balance l' = 0)"
proof -
  let ?r = "recordLoanRepayment exact ''alice'' ''BRAC Bank'' 50000 ''2025-11-23'' ''BDT''
              sample_db"
  have h1: "matching_loans ''alice'' ''BRAC Bank'' sample_db = brac_loan # []"
    by code_simp
  have h2: "\<not> isl (fst ?r)"
    by (rule recordLoanRepayment_no_failures[OF sample_db_failures])
  then obtain res where h3: "fst ?r = Inr res"
    by (cases "fst ?r") simp_all
  have c: "whole_cents (total_paid brac_loan)" "whole_cents (remaining_balance brac_loan)"
    "whole_cents 50000"
    by (simp_all add: brac_loan_def whole_cents_def)
  have a: "accurate exact (total_paid brac_loan) 50000"
    "accurate exact (remaining_balance brac_loan) 50000"
    by (rule exact_accurate)+
  have vals: "loan_id brac_loan = 0" "principal_amount brac_loan = 50000"
    "total_paid brac_loan + remaining_balance brac_loan = principal_amount brac_loan"
    "50000 \<le> remaining_balance brac_loan"
    by (simp_all add: brac_loan_def)
  have rb: "numeric2 (max 0 (js_minus exact (remaining_balance brac_loan) 50000)) = 0"
    unfolding repayment_values(2)[OF c a(1) a(2)] by (simp add: brac_loan_def)
  have c1: "\<forall>l' \<in> set (loans (snd ?r)). loan_id l' = loan_id brac_loan \<longrightarrow>
              remaining_balance l' = 0"
    unfolding recordLoanRepayment_match(1)[OF h1 h3] rb by (blast dest: update_loan_hit)
  from repayment_preserves_ledger_identity[OF sample_db_keys h1 h3 c a] vals(3,4)
  obtain l' where l': "l' \<in> set (loans (snd ?r))" "loan_id l' = loan_id brac_loan"
    and "total_paid l' + remaining_balance l' = principal_amount l'"
    and "principal_amount l' = principal_amount brac_loan"
    and "(status l' = ''paid_off'') = (remaining_balance l' = 0)"
    by blast
  moreover have "remaining_balance l' = 0" using c1 l' by simp
  ultimately have "loan_id l' = 0 \<and> total_paid l' + remaining_balance l' = 50000 \<and>
      status l' = ''paid_off'' \<and> remaining_balance l' = 0"
    using vals by simp
  with l'(1) h1 h2 sample_db_keys vals c a show ?thesis by blast
qed

subsection \<open>Patterns\<close>

text \<open>\<^verbatim>\<open>%\<close> at the head of a pattern skips any prefix of the text.\<close>

lemma like_percent:
  "like (CHR ''%'' # p) t \<longleftrightarrow> (\<exists>t1 t2. t = t1 @ t2 \<and> like p t2)"
proof (induction t)
  case Nil
  show ?case by (simp add: like.simps)
next
  case (Cons x t)
  have "like (CHR ''%'' # p) (x # t) \<longleftrightarrow> like p (x # t) \<or> like (CHR ''%'' # p) t"
    by (simp add: like.simps)
  also have "\<dots> \<longleftrightarrow> like p (x # t) \<or> (\<exists>t1 t2. t = t1 @ t2 \<and> like p t2)"
    unfolding Cons.IH ..
  also have "\<dots> \<longleftrightarrow> (\<exists>t1 t2. x # t = t1 @ t2 \<and> like p t2)"
  proof
    assume "like p (x # t) \<or> (\<exists>t1 t2. t = t1 @ t2 \<and> like p t2)"
    then show "\<exists>t1 t2. x # t = t1 @ t2 \<and> like p t2"
    proof
      assume "like p (x # t)"
      then have "x # t = [] @ (x # t) \<and> like p (x # t)" by simp
      then show ?thesis by blast
    next
      assume "\<exists>t1 t2. t = t1 @ t2 \<and> like p t2"
      then obtain t1 t2 where "t = t1 @ t2" "like p t2" by blast
      then have "x # t = (x # t1) @ t2 \<and> like p t2" by simp
      then show ?thesis by blast
    qed
  next
    assume "\<exists>t1 t2. x # t = t1 @ t2 \<and> like p t2"
    then obtain t1 t2 where s: "x # t = t1 @ t2" and l: "like p t2" by blast
    show "like p (x # t) \<or> (\<exists>t1 t2. t = t1 @ t2 \<and> like p t2)"
    proof (cases t1)
      case Nil
      with s l show ?thesis by simp
    next
      case (Cons y ys)
      with s have "t = ys @ t2" by simp
      with l show ?thesis by blast
    qed
  qed
  finally show ?case .
qed

text \<open>A plain stretch of a pattern matches itself and nothing else.\<close>

lemma like_plain:
  "plain n \<Longrightarrow> like (n @ p) t \<longleftrightarrow> (\<exists>t'. t = n @ t' \<and> like p t')"
proof (induction n arbitrary: t)
  case Nil
  show ?case by simp
next
  case (Cons c n)
  from Cons.prems have c: "c \<noteq> CHR ''%''" "c \<noteq> CHR ''*''" "c \<noteq> CHR ''_''" "c \<noteq> CHR 0x5C"
    and n: "plain n"
    by (simp_all add: plain_def)
  show ?case
  proof (cases t)
    case Nil
    with c show ?thesis by (simp add: like.simps)
  next
    case (Cons x t')
    have "like ((c # n) @ p) (x # t') \<longleftrightarrow> x = c \<and> like (n @ p) t'"
      using c by (simp add: like.simps)
    also have "\<dots> \<longleftrightarrow> x = c \<and> (\<exists>t''. t' = n @ t'' \<and> like p t'')"
      unfolding Cons.IH[OF n] ..
    also have "\<dots> \<longleftrightarrow> (\<exists>t''. x # t' = (c # n) @ t'' \<and> like p t'')"
      by auto
    finally show ?thesis unfolding Cons .
  qed
qed

lemma like_contains:
  assumes "plain n"
  shows "like (''%'' @ n @ ''%'') t \<longleftrightarrow> sublist n t"
proof -
  have e: "like ''%'' t'" for t'
  proof -
    have "t' = t' @ [] \<and> like [] []" by (simp add: like.simps)
    then show ?thesis unfolding like_percent by blast
  qed
  have "like (''%'' @ n @ ''%'') t \<longleftrightarrow> (\<exists>t1 t2. t = t1 @ t2 \<and> like (n @ ''%'') t2)"
    using like_percent[of "n @ ''%''" t] by simp
  also have "\<dots> \<longleftrightarrow> (\<exists>t1 t2. t = t1 @ t2 \<and> (\<exists>t'. t2 = n @ t' \<and> like ''%'' t'))"
    unfolding like_plain[OF assms] ..
  also have "\<dots> \<longleftrightarrow> (\<exists>t1 t'. t = t1 @ n @ t')"
    using e by auto
  also have "\<dots> \<longleftrightarrow> sublist n t" unfolding sublist_def ..
  finally show ?thesis .
qed

text \<open>Folding letters neither makes nor removes a pattern character.\<close>

lemma lower_char_plain:
  assumes "c \<noteq> CHR ''%''" "c \<noteq> CHR ''*''" "c \<noteq> CHR ''_''" "c \<noteq> CHR 0x5C"
  shows "lower_char c \<noteq> CHR ''%'' \<and> lower_char c \<noteq> CHR ''*'' \<and> lower_char c \<noteq> CHR ''_'' \<and>
         lower_char c \<noteq> CHR 0x5C"
proof (cases "65 \<le> (of_char c :: nat) \<and> (of_char c :: nat) \<le> 90")
  case True
  define m where "m = (of_char c :: nat) + 32"
  have m: "97 \<le> m" "m \<le> 122" using True by (simp_all add: m_def)
  have lc: "lower_char c = char_of m" using True by (simp add: lower_char_def m_def)
  have "(of_char (lower_char c) :: nat) = m" unfolding lc using m by simp
  with m have "(of_char (lower_char c) :: nat) \<noteq> 37" "(of_char (lower_char c) :: nat) \<noteq> 42"
    "(of_char (lower_char c) :: nat) \<noteq> 95" "(of_char (lower_char c) :: nat) \<noteq> 92"
    by simp_all
  then show ?thesis by auto
next
  case False
  then have "lower_char c = c" by (auto simp: lower_char_def Let_def)
  with assms show ?thesis by simp
qed

lemma lower_plain: "plain n \<Longrightarrow> plain (lower n)"
  by (induction n) (simp_all add: plain_def lower_def lower_char_plain)

lemma lower_pattern: "lower (''%'' @ n @ ''%'') = ''%'' @ lower n @ ''%''"
proof -
  have "lower_char CHR ''%'' = CHR ''%''" by (simp add: lower_char_def)
  then show ?thesis by (simp add: lower_def)
qed

text \<open>
  For a plain name the candidate query is what the comment on it says: the user's active
  loans whose lender name contains the name, letters folded.
\<close>

lemma matching_loans_plain:
  assumes "plain nm"
  shows "matching_loans uid nm d =
           filter (\<lambda>l. loan_user_id l = uid \<and> status l = ''active'' \<and>
                       sublist (lower nm) (lower (lender_name l))) (loans d)"
  unfolding matching_loans_def ilike_def lower_pattern like_contains[OF lower_plain[OF assms]] ..

subsection \<open>A repayment that finds no loan\<close>

lemma recordLoanRepayment_no_match:
  assumes m: "matching_loans uid nm d = []"
  shows "loans (snd (recordLoanRepayment ar uid nm A dt cur d)) = loans d"
    and "fst (recordLoanRepayment ar uid nm A dt cur d) = Inr res \<Longrightarrow>
           loan res = None \<and>
           transactions (snd (recordLoanRepayment ar uid nm A dt cur d)) =
             transactions d @
               [\<lparr>tx_id = next_id d, tx_user_id = uid, tx_amount = numeric2 A,
                 tx_currency = or_str cur ''BDT'', tx_category = ''loan_repayment'',
                 tx_notes = ''Loan repayment to '' @ nm @ '' (no matching loan found)'',
                 tx_type = ''expense'', tx_date = dt, tx_created_at = next_id d\<rparr>]"
proof -
  obtain f1 d1 where rt1: "round_trip d = (f1, d1)" by (cases "round_trip d")
  have fr1: "loans d1 = loans d" "transactions d1 = transactions d" "next_id d1 = next_id d"
    using round_trip_fields[OF rt1] by simp_all
  have m1: "matching_loans uid nm d1 = []" using m matching_loans_cong[OF fr1(1)] by simp
  obtain f2 d2 where rt2: "round_trip d1 = (f2, d2)" by (cases "round_trip d1")
  have fr2: "loans d2 = loans d" "transactions d2 = transactions d" "next_id d2 = next_id d"
    using round_trip_fields[OF rt2] fr1 by simp_all
  show "loans (snd (recordLoanRepayment ar uid nm A dt cur d)) = loans d"
    using rt1 m1 rt2 fr1 fr2
    by (cases f1; cases f2) (simp_all add: recordLoanRepayment_def saveTransaction_def)
  show "loan res = None \<and>
           transactions (snd (recordLoanRepayment ar uid nm A dt cur d)) =
             transactions d @
               [\<lparr>tx_id = next_id d, tx_user_id = uid, tx_amount = numeric2 A,
                 tx_currency = or_str cur ''BDT'', tx_category = ''loan_repayment'',
                 tx_notes = ''Loan repayment to '' @ nm @ '' (no matching loan found)'',
                 tx_type = ''expense'', tx_date = dt, tx_created_at = next_id d\<rparr>]"
    if "fst (recordLoanRepayment ar uid nm A dt cur d) = Inr res"
    using that rt1 m1 rt2 fr1 fr2
    by (cases f1; cases f2) (auto simp: recordLoanRepayment_def saveTransaction_def)
qed

lemma notes_mention_no_match:
  "sublist ''no matching loan found'' (''Loan repayment to '' @ nm @ '' (no matching loan found)'')"
proof -
  have "''Loan repayment to '' @ nm @ '' (no matching loan found)'' =
        (''Loan repayment to '' @ nm @ '' ('') @ ''no matching loan found'' @ '')''"
    by simp
  then show ?thesis unfolding sublist_def by blast
qed

text \<open>A reconciliation that found a loan returns it, so the two outcomes differ.\<close>

lemma reconciled_result_has_loan:
  "matching_loans uid nm d = l # rest \<Longrightarrow>
   fst (recordLoanRepayment ar uid nm A dt cur d) = Inr res \<Longrightarrow> loan res \<noteq> None"
  by (simp add: recordLoanRepayment_match(2))

text \<open>
  When the lender name is plain and no active loan of the user has a lender name that
  contains it (letters folded), a completed reconciliation leaves the loans table as it
  was, appends exactly one transaction (an expense of the amount, category
  \<open>loan_repayment\<close>, its notes containing "no matching loan found"), and returns a
  result whose loan is null.
\<close>

lemma plain_unmatched_repayment_is_expense:
  assumes pl: "plain nm"
    and nomatch: "\<forall>l \<in> set (loans d). loan_user_id l = uid \<and> status l = ''active'' \<longrightarrow>
             \<not> sublist (lower nm) (lower (lender_name l))"
    and r: "fst (recordLoanRepayment ar uid nm A dt cur d) = Inr res"
  shows "loans (snd (recordLoanRepayment ar uid nm A dt cur d)) = loans d \<and>
         (\<exists>t. transactions (snd (recordLoanRepayment ar uid nm A dt cur d)) = transactions d @ [t] \<and>
              tx_user_id t = uid \<and> tx_amount t = numeric2 A \<and> tx_date t = dt \<and>
              tx_type t = ''expense'' \<and> tx_category t = ''loan_repayment'' \<and>
              sublist ''no matching loan found'' (tx_notes t)) \<and>
         loan res = None"
proof -
  have m: "matching_loans uid nm d = []"
    unfolding matching_loans_plain[OF pl] filter_empty_conv using nomatch by blast
  note nm = recordLoanRepayment_no_match[OF m]
  have "\<exists>t. transactions (snd (recordLoanRepayment ar uid nm A dt cur d)) = transactions d @ [t] \<and>
              tx_user_id t = uid \<and> tx_amount t = numeric2 A \<and> tx_date t = dt \<and>
              tx_type t = ''expense'' \<and> tx_category t = ''loan_repayment'' \<and>
              sublist ''no matching loan found'' (tx_notes t)"
    using nm(2)[OF r] notes_mention_no_match[of nm] by simp
  then show ?thesis using nm(1) nm(2)[OF r] by blast
qed

text \<open>
  C7. The claim is about every lender name, and the comment on the candidate query says
  the same: a loan "matching lender name (case-insensitive)", the name wrapped in
  \<^verbatim>\<open>%\<close>. But the name goes into the pattern as it is. On the sample ledger alice's
  active loan is from "BRAC Bank", which does not contain "B_AC" in any letter case; the
  candidate query for "B_AC" returns it all the same, \<^verbatim>\<open>_\<close> standing for the "R". The
  repayment of 2000 is booked against that loan and the result carries the loan.
\<close>

theorem pattern_character_in_lender_name_matches:
  "loans sample_db = [brac_loan, rahim_loan] \<and> status rahim_loan = ''paid_off'' \<and>
   \<not> sublist (lower ''B_AC'') (lower (lender_name brac_loan)) \<and>
   matching_loans ''alice'' ''B_AC'' sample_db = [brac_loan] \<and>
   loans (snd (recordLoanRepayment exact ''alice'' ''B_AC'' 2000 ''2025-11-23'' ''BDT''
                 sample_db)) =
     [brac_loan\<lparr>total_paid := 2000, remaining_balance := 48000\<rparr>, rahim_loan] \<and>
   map_sum id loan (fst (recordLoanRepayment exact ''alice'' ''B_AC'' 2000 ''2025-11-23''
                           ''BDT'' sample_db)) =
     Inr (Some (brac_loan\<lparr>total_paid := 2000, remaining_balance := 48000\<rparr>))"
proof -
  let ?r = "recordLoanRepayment exact ''alice'' ''B_AC'' 2000 ''2025-11-23'' ''BDT'' sample_db"
  have h0: "loans sample_db = [brac_loan, rahim_loan]" "status rahim_loan = ''paid_off''"
    by (simp_all add: sample_db_def rahim_loan_def)
  have hs: "\<not> sublist (lower ''B_AC'') (lower (lender_name brac_loan))"
    by code_simp
  have h1: "matching_loans ''alice'' ''B_AC'' sample_db = brac_loan # []"
    by code_simp
  have h2: "\<not> isl (fst ?r)"
    by (rule recordLoanRepayment_no_failures[OF sample_db_failures])
  then obtain res where h3: "fst ?r = Inr res"
    by (cases "fst ?r") simp_all
  have tp: "js_plus exact (total_paid brac_loan) 2000 = 2000"
    by (simp add: exact_def brac_loan_def)
  have rb: "js_minus exact (remaining_balance brac_loan) 2000 = 48000"
    by (simp add: exact_def brac_loan_def)
  have n1: "numeric2 2000 = 2000" by code_simp
  have n2: "numeric2 (max 0 48000) = 48000" by code_simp
  have "loans (snd ?r) = update_loan (loan_id brac_loan) 2000 48000 ''active'' (loans sample_db)"
    unfolding recordLoanRepayment_match(1)[OF h1 h3] tp rb n1 n2 by simp
  also have "\<dots> = [brac_loan\<lparr>total_paid := 2000, remaining_balance := 48000\<rparr>, rahim_loan]"
    by (simp add: update_loan_def sample_db_def brac_loan_def rahim_loan_def)
  finally have h4: "loans (snd ?r) =
      [brac_loan\<lparr>total_paid := 2000, remaining_balance := 48000\<rparr>, rahim_loan]" .
  have "loan res = Some (brac_loan\<lparr>total_paid := 2000, remaining_balance := 48000\<rparr>)"
    unfolding recordLoanRepayment_match(2)[OF h1 h3] tp rb by (simp add: brac_loan_def)
  then have h5: "map_sum id loan (fst ?r) =
      Inr (Some (brac_loan\<lparr>total_paid := 2000, remaining_balance := 48000\<rparr>))"
    unfolding h3 by simp
  show ?thesis using h0 hs h1 h4 h5 by blast
qed

subsection \<open>Every single-trip function is a sequence of store steps\<close>

lemma round_trip_step: "round_trip d = (f, d1) \<Longrightarrow> store_step d d1"
proof (cases "failures d")
  case Nil
  assume "round_trip d = (f, d1)"
  with Nil have "d1 = d\<lparr>failures := []\<rparr>" by (simp add: round_trip_def)
  then show ?thesis by (simp add: store_step.answered)
next
  case (Cons x xs)
  assume "round_trip d = (f, d1)"
  with Cons have "d1 = d\<lparr>failures := xs\<rparr>" by (simp add: round_trip_def)
  then show ?thesis by (simp add: store_step.answered)
qed

lemma saveTransaction_steps: "store_step\<^sup>*\<^sup>* d (snd (saveTransaction data d))"
proof -
  obtain f d1 where rt: "round_trip d = (f, d1)" by (cases "round_trip d")
  have s1: "store_step d d1" using rt by (rule round_trip_step)
  show ?thesis
  proof (cases f)
    case True
    with rt s1 show ?thesis by (simp add: saveTransaction_def)
  next
    case False
    have "store_step d1 (snd (saveTransaction data d))"
      using rt False by (simp add: saveTransaction_def store_step.transaction_inserted)
    with s1 show ?thesis by simp
  qed
qed

lemma getTransactions_steps: "store_step\<^sup>*\<^sup>* d (snd (getTransactions uid limit d))"
proof -
  obtain f d1 where rt: "round_trip d = (f, d1)" by (cases "round_trip d")
  have "snd (getTransactions uid limit d) = d1"
    using rt by (cases f) (simp_all add: getTransactions_def)
  with round_trip_step[OF rt] show ?thesis by simp
qed

lemma getLoans_steps: "store_step\<^sup>*\<^sup>* d (snd (getLoans uid d))"
proof -
  obtain f d1 where rt: "round_trip d = (f, d1)" by (cases "round_trip d")
  have "snd (getLoans uid d) = d1"
    using rt by (cases f) (simp_all add: getLoans_def)
  with round_trip_step[OF rt] show ?thesis by simp
qed

lemma getTransactionSummary_steps:
  "store_step\<^sup>*\<^sup>* d (snd (getTransactionSummary ar uid startDate endDate d))"
proof -
  obtain f d1 where rt: "round_trip d = (f, d1)" by (cases "round_trip d")
  have "snd (getTransactionSummary ar uid startDate endDate d) = d1"
    using rt by (cases f) (simp_all add: getTransactionSummary_def Let_def)
  with round_trip_step[OF rt] show ?thesis by simp
qed

lemma deleteTransaction_steps: "store_step\<^sup>*\<^sup>* d (snd (deleteTransaction i d))"
proof -
  obtain f d1 where rt: "round_trip d = (f, d1)" by (cases "round_trip d")
  have s1: "store_step d d1" using rt by (rule round_trip_step)
  show ?thesis
  proof (cases f)
    case True
    with rt s1 show ?thesis by (simp add: deleteTransaction_def)
  next
    case False
    have "store_step d1 (snd (deleteTransaction i d))"
      using rt False by (simp add: deleteTransaction_def store_step.transaction_deleted)
    with s1 show ?thesis by simp
  qed
qed

lemma deleteLoan_steps: "store_step\<^sup>*\<^sup>* d (snd (deleteLoan i d))"
proof -
  obtain f d1 where rt: "round_trip d = (f, d1)" by (cases "round_trip d")
  have s1: "store_step d d1" using rt by (rule round_trip_step)
  show ?thesis
  proof (cases f)
    case True
    with rt s1 show ?thesis by (simp add: deleteLoan_def)
  next
    case False
    have "store_step d1 (snd (deleteLoan i d))"
      using rt False by (simp add: deleteLoan_def store_step.loan_deleted)
    with s1 show ?thesis by simp
  qed
qed

lemma saveLoan_steps: "store_step\<^sup>*\<^sup>* d (snd (saveLoan data d))"
proof -
  obtain f d1 where rt: "round_trip d = (f, d1)" by (cases "round_trip d")
  have s1: "store_step d d1" using rt by (rule round_trip_step)
  show ?thesis
  proof (cases f)
    case True
    with rt s1 show ?thesis by (simp add: saveLoan_def)
  next
    case False
    define l where "l = \<lparr>loan_id = next_id d1, loan_user_id = ld_userId data,
        lender_name = ld_lender_name data, loan_type = ld_loan_type data,
        principal_amount = numeric2 (ld_principal_amount data),
        interest_rate = numeric2 (or_rat (ld_interest_rate data) 0),
        tenure_months = or_null_int (ld_tenure_months data),
        monthly_installment = map_option numeric2 (or_null_rat (ld_monthly_installment data)),
        total_paid = 0,
        remaining_balance = numeric2 (ld_principal_amount data),
        loan_currency = or_opt_str (ld_currency data) ''BDT'',
        status = ''active'',
        start_date = ld_date data,
        loan_notes = or_null_str (ld_notes data),
        loan_created_at = next_id d1\<rparr>"
    have "store_step d1 (d1\<lparr>loans := loans d1 @ [l], next_id := Suc (next_id d1)\<rparr>)"
      by (rule store_step.loan_inserted)
         (simp_all add: l_def numeric2_whole_cents whole_cents_zero)
    moreover have "snd (saveLoan data d) =
        d1\<lparr>loans := loans d1 @ [l], next_id := Suc (next_id d1)\<rparr>"
      using rt False by (simp add: saveLoan_def Let_def l_def)
    ultimately have "store_step d1 (snd (saveLoan data d))" by simp
    with s1 show ?thesis by simp
  qed
qed

lemma saveFeedback_steps: "store_step\<^sup>*\<^sup>* d (snd (saveFeedback data d))"
proof -
  obtain f d1 where rt: "round_trip d = (f, d1)" by (cases "round_trip d")
  have s1: "store_step d d1" using rt by (rule round_trip_step)
  show ?thesis
  proof (cases f)
    case True
    with rt s1 show ?thesis by (simp add: saveFeedback_def)
  next
    case False
    have "store_step d1 (snd (saveFeedback data d))"
      using rt False by (simp add: saveFeedback_def store_step.feedback_inserted)
    with s1 show ?thesis by simp
  qed
qed

lemma run_op_steps: "store_step\<^sup>*\<^sup>* d (run_op ar op d)"
  by (cases op)
     (simp_all add: saveTransaction_steps getTransactions_steps deleteTransaction_steps
        saveLoan_steps getLoans_steps deleteLoan_steps getTransactionSummary_steps
        saveFeedback_steps)

subsection \<open>A reconciliation as a task\<close>

text \<open>
  Left to itself, a task makes the round trips of \<^verbatim>\<open>recordLoanRepayment\<close> and returns
  what it returns.
\<close>

lemma run_task_returned: "run_task ar n (Returned r) d = (Returned r, d)"
  by (induction n) simp_all

lemma recordLoanRepayment_as_task:
  "run_task ar 3 (Querying uid nm A dt cur) d =
     (Returned (fst (recordLoanRepayment ar uid nm A dt cur d)),
      snd (recordLoanRepayment ar uid nm A dt cur d))"
proof -
  obtain f1 d1 where rt1: "round_trip d = (f1, d1)" by (cases "round_trip d")
  show ?thesis
  proof (cases f1)
    case True
    with rt1 show ?thesis
      by (simp add: numeral_3_eq_3 recordLoanRepayment_def run_task_returned)
  next
    case f1: False
    show ?thesis
    proof (cases "matching_loans uid nm d1")
      case Nil
      define data where "data = \<lparr>td_userId = uid, td_amount = A,
          td_currency = or_str cur ''BDT'', td_category = ''loan_repayment'',
          td_notes = ''Loan repayment to '' @ nm @ '' (no matching loan found)'',
          td_type = ''expense'', td_date = dt\<rparr>"
      obtain r2 d2 where st: "saveTransaction data d1 = (r2, d2)"
        by (cases "saveTransaction data d1")
      show ?thesis using rt1 f1 Nil st[unfolded data_def]
        by (cases r2) (simp_all add: numeral_3_eq_3 recordLoanRepayment_def run_task_returned)
    next
      case (Cons l rest)
      obtain f2 d2 where rt2: "round_trip d1 = (f2, d2)" by (cases "round_trip d1")
      show ?thesis
      proof (cases f2)
        case True
        with rt1 f1 Cons rt2 show ?thesis
          by (simp add: numeral_3_eq_3 recordLoanRepayment_def Let_def run_task_returned)
      next
        case f2: False
        define tp where "tp = js_plus ar (total_paid l) A"
        define rb where "rb = js_minus ar (remaining_balance l) A"
        define d3 where "d3 = d2\<lparr>loans := update_loan (loan_id l) (numeric2 tp)
            (numeric2 (max 0 rb)) (if rb \<le> 0 then ''paid_off'' else ''active'') (loans d2)\<rparr>"
        define data where "data = \<lparr>td_userId = uid, td_amount = A,
            td_currency = or_str cur ''BDT'', td_category = ''loan_repayment'',
            td_notes = ''Loan repayment to '' @ lender_name l,
            td_type = ''expense'', td_date = dt\<rparr>"
        obtain r4 d4 where st: "saveTransaction data d3 = (r4, d4)"
          by (cases "saveTransaction data d3")
        show ?thesis using rt1 f1 Cons rt2 f2 st[unfolded data_def d3_def tp_def rb_def]
          by (cases r4) (simp_all add: numeral_3_eq_3 recordLoanRepayment_def Let_def)
      qed
    qed
  qed
qed

text \<open>The round trips of a task, case by case.\<close>

lemma task_step_query_failed:
  "round_trip d = (True, d1) \<Longrightarrow>
   task_step ar (Querying uid nm A dt cur) d = (Returned (Inl StoreError), d1)"
  by simp

lemma task_step_query_none:
  "round_trip d = (False, d1) \<Longrightarrow> matching_loans uid nm d1 = [] \<Longrightarrow>
   snd (task_step ar (Querying uid nm A dt cur) d) = d1 \<and>
   selected_loan (fst (task_step ar (Querying uid nm A dt cur) d)) = None"
  by simp

lemma task_step_query_some:
  "round_trip d = (False, d1) \<Longrightarrow> matching_loans uid nm d1 = l # rest \<Longrightarrow>
   task_step ar (Querying uid nm A dt cur) d = (Updating uid A dt cur l, d1)"
  by simp

lemma task_step_update_failed:
  "round_trip d = (True, d1) \<Longrightarrow>
   task_step ar (Updating uid A dt cur l) d = (Returned (Inl StoreError), d1)"
  by (simp add: Let_def)

lemma task_step_update_done:
  "round_trip d = (False, d1) \<Longrightarrow>
   snd (task_step ar (Updating uid A dt cur l) d) =
     d1\<lparr>loans := update_loan (loan_id l) (numeric2 (js_plus ar (total_paid l) A))
           (numeric2 (max 0 (js_minus ar (remaining_balance l) A)))
           (if js_minus ar (remaining_balance l) A \<le> 0 then ''paid_off'' else ''active'')
           (loans d1)\<rparr> \<and>
   selected_loan (fst (task_step ar (Updating uid A dt cur l) d)) = None"
  by (simp add: Let_def)

lemma task_step_save:
  "snd (task_step ar (Saving data result) d) = snd (saveTransaction data d) \<and>
   selected_loan (fst (task_step ar (Saving data result) d)) = None"
  by (cases "saveTransaction data d"; cases "fst (saveTransaction data d)") simp_all

text \<open>
  Whatever reached the store between a task's query and its update, the update writes
  the values computed from the row the task holds: on whole cents, with accurate
  arithmetic, the sum, the clamped difference and the status that goes with it.
\<close>

lemma update_round_trip_writes:
  assumes rt: "round_trip d = (False, d1)"
    and cents: "whole_cents (total_paid l)" "whole_cents (remaining_balance l)" "whole_cents A"
    and acc: "accurate ar (total_paid l) A" "accurate ar (remaining_balance l) A"
    and l': "l' \<in> set (loans (snd (task_step ar (Updating uid A dt cur l) d)))"
      "loan_id l' = loan_id l"
  shows "total_paid l' = total_paid l + A \<and>
         remaining_balance l' = max 0 (remaining_balance l - A) \<and>
         (status l' = ''paid_off'' \<longleftrightarrow> max 0 (remaining_balance l - A) = 0) \<and>
         (status l' = ''active'' \<longleftrightarrow> max 0 (remaining_balance l - A) \<noteq> 0)"
proof -
  let ?st = "if remaining_balance l - A \<le> 0 then ''paid_off'' else ''active''"
  note vals = repayment_values[OF cents acc]
  from task_step_update_done[OF rt, of ar uid A dt cur l]
  have "loans (snd (task_step ar (Updating uid A dt cur l) d)) =
          update_loan (loan_id l) (total_paid l + A) (max 0 (remaining_balance l - A)) ?st
            (loans d1)"
    unfolding vals by simp
  with l' have "total_paid l' = total_paid l + A \<and>
      remaining_balance l' = max 0 (remaining_balance l - A) \<and> status l' = ?st"
    by (simp add: update_loan_hit)
  then show ?thesis by (auto simp: max_def)
qed

text \<open>The round trips of a task on a store that answers.\<close>

lemma task_step_query:
  assumes "failures d = []" and "matching_loans uid nm d = l # rest"
  shows "task_step ar (Querying uid nm A dt cur) d = (Updating uid A dt cur l, d)"
  using assms by (simp add: round_trip_def)

lemma task_step_update:
  assumes "failures d = []"
  shows "snd (task_step ar (Updating uid A dt cur l) d) =
           d\<lparr>loans := update_loan (loan_id l) (numeric2 (js_plus ar (total_paid l) A))
                (numeric2 (max 0 (js_minus ar (remaining_balance l) A)))
                (if js_minus ar (remaining_balance l) A \<le> 0 then ''paid_off'' else ''active'')
                (loans d)\<rparr>"
  using assms by (simp add: round_trip_def Let_def)

lemma run_event_advance:
  "n < length (sys_tasks s) \<Longrightarrow>
   run_event ar (Advance n) s =
     s\<lparr>sys_db := snd (task_step ar (sys_tasks s ! n) (sys_db s)),
       sys_tasks := (sys_tasks s)[n := fst (task_step ar (sys_tasks s ! n) (sys_db s))]\<rparr>"
  by (simp add: case_prod_beta)

subsection \<open>Invariants of the store\<close>

lemma store_step_keys: "store_step d d' \<Longrightarrow> primary_keys d \<Longrightarrow> primary_keys d'"
proof (induction rule: store_step.induct)
  case (answered d fs)
  then show ?case by (simp add: primary_keys_def)
next
  case (transaction_inserted t d)
  then show ?case
    by (auto simp: primary_keys_def list_all_iff less_Suc_eq)
next
  case (transaction_deleted d i)
  then show ?case by (auto simp: primary_keys_def list_all_iff distinct_map_filter)
next
  case (loan_inserted l d)
  then show ?case
    by (auto simp: primary_keys_def list_all_iff less_Suc_eq)
next
  case (loan_deleted d i)
  then show ?case by (auto simp: primary_keys_def list_all_iff distinct_map_filter)
next
  case (feedback_inserted d f)
  then show ?case by (auto simp: primary_keys_def list_all_iff less_Suc_eq)
qed

lemma store_steps_keys: "store_step\<^sup>*\<^sup>* d d' \<Longrightarrow> primary_keys d \<Longrightarrow> primary_keys d'"
  by (induction rule: rtranclp_induct) (auto intro: store_step_keys)

text \<open>The identifier \<open>i\<close> is in use and every loan row under it is paid off.\<close>

lemma store_step_paid_off:
  assumes "store_step d d'"
    and "i < next_id d \<and> (\<forall>l \<in> set (loans d). loan_id l = i \<longrightarrow> status l = ''paid_off'')"
  shows "i < next_id d' \<and> (\<forall>l \<in> set (loans d'). loan_id l = i \<longrightarrow> status l = ''paid_off'')"
  using assms by (induction rule: store_step.induct) auto

lemma store_steps_paid_off:
  assumes "store_step\<^sup>*\<^sup>* d d'"
    and "i < next_id d \<and> (\<forall>l \<in> set (loans d). loan_id l = i \<longrightarrow> status l = ''paid_off'')"
  shows "i < next_id d' \<and> (\<forall>l \<in> set (loans d'). loan_id l = i \<longrightarrow> status l = ''paid_off'')"
  using assms
proof (induction rule: rtranclp_induct)
  case base
  then show ?case by simp
next
  case (step y z)
  then show ?case using store_step_paid_off[of y z i] by blast
qed

text \<open>
  A round trip of a task that has not selected the loan \<open>i\<close> keeps it paid off, and the
  task does not select it: the query returns active rows only, and the update writes to
  the rows of the loan the task holds.
\<close>

lemma task_step_paid_off:
  assumes st: "task_step ar t d = (t', d')"
    and inv: "i < next_id d \<and> (\<forall>l \<in> set (loans d). loan_id l = i \<longrightarrow> status l = ''paid_off'')"
    and sel: "selected_loan t \<noteq> Some i"
  shows "i < next_id d' \<and> (\<forall>l \<in> set (loans d'). loan_id l = i \<longrightarrow> status l = ''paid_off'') \<and>
         selected_loan t' \<noteq> Some i"
proof -
  have t': "t' = fst (task_step ar t d)" and d': "d' = snd (task_step ar t d)"
    using st by simp_all
  show ?thesis
  proof (cases t)
    case (Querying uid nm A dt cur)
    obtain f1 d1 where rt1: "round_trip d = (f1, d1)" by (cases "round_trip d")
    have fr: "loans d1 = loans d" "next_id d1 = next_id d"
      using round_trip_fields[OF rt1] by simp_all
    show ?thesis
    proof (cases f1)
      case True
      with rt1 have "round_trip d = (True, d1)" by simp
      from task_step_query_failed[OF this] have "t' = Returned (Inl StoreError)" "d' = d1"
        unfolding t' d' Querying by simp_all
      with inv fr show ?thesis by simp
    next
      case False
      with rt1 have rt: "round_trip d = (False, d1)" by simp
      show ?thesis
      proof (cases "matching_loans uid nm d1")
        case Nil
        from task_step_query_none[OF rt Nil] have "selected_loan t' = None" "d' = d1"
          unfolding t' d' Querying by simp_all
        with inv fr show ?thesis by simp
      next
        case (Cons l rest)
        from task_step_query_some[OF rt Cons] have "t' = Updating uid A dt cur l" "d' = d1"
          unfolding t' d' Querying by simp_all
        moreover have "l \<in> set (matching_loans uid nm d1)" using Cons by simp
        then have "l \<in> set (loans d)" "status l = ''active''"
          using fr by (simp_all add: matching_loans_def)
        with inv have "loan_id l \<noteq> i" by auto
        ultimately show ?thesis using inv fr by simp
      qed
    qed
  next
    case (Updating uid A dt cur l)
    with sel have ne: "loan_id l \<noteq> i" by simp
    obtain f1 d1 where rt1: "round_trip d = (f1, d1)" by (cases "round_trip d")
    have fr: "loans d1 = loans d" "next_id d1 = next_id d"
      using round_trip_fields[OF rt1] by simp_all
    show ?thesis
    proof (cases f1)
      case True
      with rt1 have "round_trip d = (True, d1)" by simp
      from task_step_update_failed[OF this] have "t' = Returned (Inl StoreError)" "d' = d1"
        unfolding t' d' Updating by simp_all
      with inv fr show ?thesis by simp
    next
      case False
      with rt1 have rt: "round_trip d = (False, d1)" by simp
      define tp where "tp = numeric2 (js_plus ar (total_paid l) A)"
      define rb where "rb = numeric2 (max 0 (js_minus ar (remaining_balance l) A))"
      define s where "s = (if js_minus ar (remaining_balance l) A \<le> 0
                           then ''paid_off'' else ''active'')"
      from task_step_update_done[OF rt, of ar uid A dt cur l]
      have sel': "selected_loan t' = None"
        and db: "d' = d1\<lparr>loans := update_loan (loan_id l) tp rb s (loans d1)\<rparr>"
        unfolding t' d' Updating tp_def rb_def s_def by simp_all
      have "status l' = ''paid_off''" if "l' \<in> set (loans d')" "loan_id l' = i" for l'
      proof -
        from that(1) have "l' \<in> set (update_loan (loan_id l) tp rb s (loans d1))"
          unfolding db by simp
        moreover from that(2) ne have "loan_id l' \<noteq> loan_id l" by simp
        ultimately have "l' \<in> set (loans d1)" by (rule update_loan_miss)
        with that(2) inv fr show ?thesis by simp
      qed
      moreover have "next_id d' = next_id d" unfolding db using fr by simp
      ultimately show ?thesis using inv sel' by simp
    qed
  next
    case (Saving data result)
    from task_step_save[of ar data result d]
    have db: "d' = snd (saveTransaction data d)" and sel': "selected_loan t' = None"
      unfolding t' d' Saving by simp_all
    have "store_step\<^sup>*\<^sup>* d d'" unfolding db by (rule saveTransaction_steps)
    from store_steps_paid_off[OF this inv] sel' show ?thesis by simp
  next
    case (Returned r)
    then have "t' = Returned r" "d' = d" unfolding t' d' by simp_all
    with inv show ?thesis by simp
  qed
qed

lemma task_step_keys:
  assumes st: "task_step ar t d = (t', d')" and keys: "primary_keys d"
  shows "primary_keys d'"
proof -
  have d': "d' = snd (task_step ar t d)" using st by simp
  show ?thesis
  proof (cases t)
    case (Querying uid nm A dt cur)
    obtain f1 d1 where rt1: "round_trip d = (f1, d1)" by (cases "round_trip d")
    have k1: "primary_keys d1" using store_step_keys[OF round_trip_step[OF rt1] keys] .
    have "d' = d1"
    proof (cases f1)
      case True
      with rt1 have "round_trip d = (True, d1)" by simp
      from task_step_query_failed[OF this] show ?thesis unfolding d' Querying by simp
    next
      case False
      with rt1 have rt: "round_trip d = (False, d1)" by simp
      show ?thesis
      proof (cases "matching_loans uid nm d1")
        case Nil
        from task_step_query_none[OF rt Nil] show ?thesis unfolding d' Querying by simp
      next
        case (Cons l rest)
        from task_step_query_some[OF rt Cons] show ?thesis unfolding d' Querying by simp
      qed
    qed
    with k1 show ?thesis by simp
  next
    case (Updating uid A dt cur l)
    obtain f1 d1 where rt1: "round_trip d = (f1, d1)" by (cases "round_trip d")
    have k1: "primary_keys d1" using store_step_keys[OF round_trip_step[OF rt1] keys] .
    show ?thesis
    proof (cases f1)
      case True
      with rt1 have "round_trip d = (True, d1)" by simp
      from task_step_update_failed[OF this] have "d' = d1" unfolding d' Updating by simp
      with k1 show ?thesis by simp
    next
      case False
      with rt1 have rt: "round_trip d = (False, d1)" by simp
      define tp where "tp = numeric2 (js_plus ar (total_paid l) A)"
      define rb where "rb = numeric2 (max 0 (js_minus ar (remaining_balance l) A))"
      define s where "s = (if js_minus ar (remaining_balance l) A \<le> 0
                           then ''paid_off'' else ''active'')"
      from task_step_update_done[OF rt, of ar uid A dt cur l]
      have db: "d' = d1\<lparr>loans := update_loan (loan_id l) tp rb s (loans d1)\<rparr>"
        unfolding d' Updating tp_def rb_def s_def by simp
      have "(\<forall>x \<in> set (update_loan (loan_id l) tp rb s (loans d1)). loan_id x < next_id d1) =
            (\<forall>j \<in> set (map loan_id (update_loan (loan_id l) tp rb s (loans d1))). j < next_id d1)"
        by simp
      also have "\<dots> = (\<forall>x \<in> set (loans d1). loan_id x < next_id d1)"
        unfolding update_loan_ids by simp
      finally show ?thesis using k1 unfolding db
        by (simp add: primary_keys_def list_all_iff update_loan_ids)
    qed
  next
    case (Saving data result)
    from task_step_save[of ar data result d]
    have db: "d' = snd (saveTransaction data d)" unfolding d' Saving by simp
    have "store_step\<^sup>*\<^sup>* d d'" unfolding db by (rule saveTransaction_steps)
    then show ?thesis using keys by (rule store_steps_keys)
  next
    case (Returned r)
    then have "d' = d" unfolding d' by simp
    with keys show ?thesis by simp
  qed
qed

text \<open>The primary keys hold throughout every history.\<close>

lemma run_event_keys:
  assumes "primary_keys (sys_db s)"
  shows "primary_keys (sys_db (run_event ar e s))"
proof (cases e)
  case (Begin uid nm A dt cur)
  with assms show ?thesis by simp
next
  case (Advance n)
  show ?thesis
  proof (cases "n < length (sys_tasks s)")
    case True
    obtain t' d' where st: "task_step ar (sys_tasks s ! n) (sys_db s) = (t', d')"
      by (cases "task_step ar (sys_tasks s ! n) (sys_db s)")
    with Advance True task_step_keys[OF st assms] show ?thesis by simp
  next
    case False
    with Advance assms show ?thesis by simp
  qed
next
  case (Call op)
  with store_steps_keys[OF run_op_steps assms] show ?thesis by simp
qed

lemma run_events_keys:
  "primary_keys (sys_db s) \<Longrightarrow> primary_keys (sys_db (run_events ar es s))"
  by (induction es arbitrary: s) (simp_all add: run_event_keys)

text \<open>
  The loan \<open>i\<close> is settled: its identifier is in use, every row under it is paid off,
  and no task in flight has selected it. Every event keeps it settled.
\<close>

lemma run_event_settled:
  assumes "i < next_id (sys_db s) \<and>
           (\<forall>l \<in> set (loans (sys_db s)). loan_id l = i \<longrightarrow> status l = ''paid_off'') \<and>
           (\<forall>t \<in> set (sys_tasks s). selected_loan t \<noteq> Some i)"
  shows "i < next_id (sys_db (run_event ar e s)) \<and>
         (\<forall>l \<in> set (loans (sys_db (run_event ar e s))). loan_id l = i \<longrightarrow> status l = ''paid_off'') \<and>
         (\<forall>t \<in> set (sys_tasks (run_event ar e s)). selected_loan t \<noteq> Some i)"
proof (cases e)
  case (Begin uid nm A dt cur)
  with assms show ?thesis by auto
next
  case (Advance n)
  show ?thesis
  proof (cases "n < length (sys_tasks s)")
    case True
    obtain t' d' where st: "task_step ar (sys_tasks s ! n) (sys_db s) = (t', d')"
      by (cases "task_step ar (sys_tasks s ! n) (sys_db s)")
    have inv: "i < next_id (sys_db s) \<and>
        (\<forall>l \<in> set (loans (sys_db s)). loan_id l = i \<longrightarrow> status l = ''paid_off'')"
      using assms by simp
    have "sys_tasks s ! n \<in> set (sys_tasks s)" using True by simp
    then have sel: "selected_loan (sys_tasks s ! n) \<noteq> Some i" using assms by blast
    note after = task_step_paid_off[OF st inv sel]
    have run: "run_event ar e s = s\<lparr>sys_db := d', sys_tasks := (sys_tasks s)[n := t']\<rparr>"
      using Advance True st by simp
    have "selected_loan t \<noteq> Some i" if "t \<in> set ((sys_tasks s)[n := t'])" for t
    proof -
      from that have "t = t' \<or> t \<in> set (sys_tasks s)"
        using set_update_subset_insert[of "sys_tasks s" n t'] by auto
      with after assms show ?thesis by blast
    qed
    with after show ?thesis unfolding run by simp
  next
    case False
    with Advance assms show ?thesis by simp
  qed
next
  case (Call op)
  have inv: "i < next_id (sys_db s) \<and>
      (\<forall>l \<in> set (loans (sys_db s)). loan_id l = i \<longrightarrow> status l = ''paid_off'')"
    using assms by simp
  from store_steps_paid_off[OF run_op_steps inv, of ar op] Call assms
  show ?thesis by simp
qed

lemma run_events_settled:
  assumes "i < next_id (sys_db s) \<and>
           (\<forall>l \<in> set (loans (sys_db s)). loan_id l = i \<longrightarrow> status l = ''paid_off'') \<and>
           (\<forall>t \<in> set (sys_tasks s). selected_loan t \<noteq> Some i)"
  shows "i < next_id (sys_db (run_events ar es s)) \<and>
         (\<forall>l \<in> set (loans (sys_db (run_events ar es s))). loan_id l = i \<longrightarrow> status l = ''paid_off'') \<and>
         (\<forall>t \<in> set (sys_tasks (run_events ar es s)). selected_loan t \<noteq> Some i)"
  using assms
proof (induction es arbitrary: s)
  case Nil
  then show ?case by simp
next
  case (Cons e es)
  from run_event_settled[OF Cons.prems, of ar e]
  have "i < next_id (sys_db (run_events ar es (run_event ar e s))) \<and>
        (\<forall>l \<in> set (loans (sys_db (run_events ar es (run_event ar e s)))).
            loan_id l = i \<longrightarrow> status l = ''paid_off'') \<and>
        (\<forall>t \<in> set (sys_tasks (run_events ar es (run_event ar e s))). selected_loan t \<noteq> Some i)"
    by (rule Cons.IH)
  then show ?case by simp
qed

text \<open>
  The balances in the loans table are whole cents throughout every history: every write
  to them goes through a column of two decimals.
\<close>

lemma store_step_cents:
  assumes "store_step d d'"
    and "\<forall>l \<in> set (loans d). whole_cents (total_paid l) \<and> whole_cents (remaining_balance l)"
  shows "\<forall>l \<in> set (loans d'). whole_cents (total_paid l) \<and> whole_cents (remaining_balance l)"
  using assms by (induction rule: store_step.induct) auto

lemma store_steps_cents:
  assumes "store_step\<^sup>*\<^sup>* d d'"
    and "\<forall>l \<in> set (loans d). whole_cents (total_paid l) \<and> whole_cents (remaining_balance l)"
  shows "\<forall>l \<in> set (loans d'). whole_cents (total_paid l) \<and> whole_cents (remaining_balance l)"
  using assms
proof (induction rule: rtranclp_induct)
  case base
  then show ?case by simp
next
  case (step y z)
  then show ?case using store_step_cents[of y z] by blast
qed

lemma update_loan_cents:
  assumes "\<forall>l \<in> set ls. whole_cents (total_paid l) \<and> whole_cents (remaining_balance l)"
    and "l' \<in> set (update_loan i (numeric2 tp) (numeric2 rb) st ls)"
  shows "whole_cents (total_paid l') \<and> whole_cents (remaining_balance l')"
proof (cases "loan_id l' = i")
  case True
  with assms(2) have "total_paid l' = numeric2 tp \<and> remaining_balance l' = numeric2 rb"
    by (blast dest: update_loan_hit)
  then show ?thesis by (simp add: numeric2_whole_cents)
next
  case False
  with assms(2) have "l' \<in> set ls" by (rule update_loan_miss)
  with assms(1) show ?thesis by blast
qed

lemma task_step_cents:
  assumes st: "task_step ar t d = (t', d')"
    and c: "\<forall>l \<in> set (loans d). whole_cents (total_paid l) \<and> whole_cents (remaining_balance l)"
  shows "\<forall>l \<in> set (loans d'). whole_cents (total_paid l) \<and> whole_cents (remaining_balance l)"
proof -
  have d': "d' = snd (task_step ar t d)" using st by simp
  show ?thesis
  proof (cases t)
    case (Querying uid nm A dt cur)
    obtain f1 d1 where rt1: "round_trip d = (f1, d1)" by (cases "round_trip d")
    have "d' = d1"
    proof (cases f1)
      case True
      with rt1 have "round_trip d = (True, d1)" by simp
      from task_step_query_failed[OF this] show ?thesis unfolding d' Querying by simp
    next
      case False
      with rt1 have rt: "round_trip d = (False, d1)" by simp
      show ?thesis
      proof (cases "matching_loans uid nm d1")
        case Nil
        from task_step_query_none[OF rt Nil] show ?thesis unfolding d' Querying by simp
      next
        case (Cons l rest)
        from task_step_query_some[OF rt Cons] show ?thesis unfolding d' Querying by simp
      qed
    qed
    with round_trip_fields[OF rt1] c show ?thesis by simp
  next
    case (Updating uid A dt cur l)
    obtain f1 d1 where rt1: "round_trip d = (f1, d1)" by (cases "round_trip d")
    have fr: "loans d1 = loans d" using round_trip_fields[OF rt1] by simp
    show ?thesis
    proof (cases f1)
      case True
      with rt1 have "round_trip d = (True, d1)" by simp
      from task_step_update_failed[OF this] have "d' = d1" unfolding d' Updating by simp
      with fr c show ?thesis by simp
    next
      case False
      with rt1 have rt: "round_trip d = (False, d1)" by simp
      define s where "s = (if js_minus ar (remaining_balance l) A \<le> 0
                           then ''paid_off'' else ''active'')"
      from task_step_update_done[OF rt, of ar uid A dt cur l]
      have db: "d' = d1\<lparr>loans := update_loan (loan_id l) (numeric2 (js_plus ar (total_paid l) A))
                  (numeric2 (max 0 (js_minus ar (remaining_balance l) A))) s (loans d1)\<rparr>"
        unfolding d' Updating s_def by simp
      show ?thesis unfolding db using c fr by (auto dest: update_loan_cents[rotated])
    qed
  next
    case (Saving data result)
    from task_step_save[of ar data result d]
    have "d' = snd (saveTransaction data d)" unfolding d' Saving by simp
    moreover obtain r1 d1 where s1: "saveTransaction data d = (r1, d1)"
      by (cases "saveTransaction data d")
    ultimately have "loans d' = loans d" using saveTransaction_loans[OF s1] by simp
    with c show ?thesis by simp
  next
    case (Returned r)
    then have "d' = d" unfolding d' by simp
    with c show ?thesis by simp
  qed
qed

lemma run_event_cents:
  assumes "\<forall>l \<in> set (loans (sys_db s)).
             whole_cents (total_paid l) \<and> whole_cents (remaining_balance l)"
  shows "\<forall>l \<in> set (loans (sys_db (run_event ar e s))).
           whole_cents (total_paid l) \<and> whole_cents (remaining_balance l)"
proof (cases e)
  case (Begin uid nm A dt cur)
  with assms show ?thesis by simp
next
  case (Advance n)
  show ?thesis
  proof (cases "n < length (sys_tasks s)")
    case True
    obtain t' d' where st: "task_step ar (sys_tasks s ! n) (sys_db s) = (t', d')"
      by (cases "task_step ar (sys_tasks s ! n) (sys_db s)")
    with Advance True task_step_cents[OF st assms] show ?thesis by simp
  next
    case False
    with Advance assms show ?thesis by simp
  qed
next
  case (Call op)
  with store_steps_cents[OF run_op_steps assms] show ?thesis by simp
qed

lemma run_events_cents:
  "\<forall>l \<in> set (loans (sys_db s)). whole_cents (total_paid l) \<and> whole_cents (remaining_balance l) \<Longrightarrow>
   \<forall>l \<in> set (loans (sys_db (run_events ar es s))).
     whole_cents (total_paid l) \<and> whole_cents (remaining_balance l)"
proof (induction es arbitrary: s)
  case Nil
  then show ?case by simp
next
  case (Cons e es)
  from Cons.IH[OF run_event_cents[OF Cons.prems, of ar e]] show ?case by simp
qed

subsection \<open>Paid-off loans\<close>

text \<open>
  C6, as stated, under two repayments in flight at once. On the sample ledger two requests
  repay the BRAC Bank loan, 50000 and 10000. Both make their candidate query before either
  writes, so both hold the row with 50000 remaining. The first update pays the loan off.
  The second update, computed from the row as it was read and filtered on the identifier
  alone, writes 10000 paid, 40000 remaining and \<open>active\<close> over it: a paid-off loan is
  active again, and the next candidate query returns it.
\<close>

theorem interleaved_repayment_reactivates_loan:
  "loans (sys_db (run_events exact
      [Begin ''alice'' ''brac'' 50000 ''2025-11-23'' ''BDT'',
       Begin ''alice'' ''brac'' 10000 ''2025-11-23'' ''BDT'',
       Advance 0, Advance 1, Advance 0] sample_system)) =
     [brac_loan\<lparr>total_paid := 50000, remaining_balance := 0, status := ''paid_off''\<rparr>,
      rahim_loan] \<and>
   loans (sys_db (run_events exact
      [Begin ''alice'' ''brac'' 50000 ''2025-11-23'' ''BDT'',
       Begin ''alice'' ''brac'' 10000 ''2025-11-23'' ''BDT'',
       Advance 0, Advance 1, Advance 0, Advance 1] sample_system)) =
     [brac_loan\<lparr>total_paid := 10000, remaining_balance := 40000, status := ''active''\<rparr>,
      rahim_loan] \<and>
   matching_loans ''alice'' ''brac'' (sys_db (run_events exact
      [Begin ''alice'' ''brac'' 50000 ''2025-11-23'' ''BDT'',
       Begin ''alice'' ''brac'' 10000 ''2025-11-23'' ''BDT'',
       Advance 0, Advance 1, Advance 0, Advance 1] sample_system)) =
     [brac_loan\<lparr>total_paid := 10000, remaining_balance := 40000, status := ''active''\<rparr>]"
proof -
  define q1 where "q1 = Querying ''alice'' ''brac'' 50000 ''2025-11-23'' ''BDT''"
  define q2 where "q2 = Querying ''alice'' ''brac'' 10000 ''2025-11-23'' ''BDT''"
  define u1 where "u1 = Updating ''alice'' 50000 ''2025-11-23'' ''BDT'' brac_loan"
  define u2 where "u2 = Updating ''alice'' 10000 ''2025-11-23'' ''BDT'' brac_loan"
  define paid where
    "paid = brac_loan\<lparr>total_paid := 50000, remaining_balance := 0, status := ''paid_off''\<rparr>"
  define reopened where
    "reopened = brac_loan\<lparr>total_paid := 10000, remaining_balance := 40000, status := ''active''\<rparr>"
  define d5 where "d5 = sample_db\<lparr>loans := [paid, rahim_loan]\<rparr>"
  define d6 where "d6 = sample_db\<lparr>loans := [reopened, rahim_loan]\<rparr>"
  define t5 where "t5 = fst (task_step exact u1 sample_db)"
  define t6 where "t6 = fst (task_step exact u2 d5)"
  have m: "matching_loans ''alice'' ''brac'' sample_db = brac_loan # []" by code_simp
  have f5: "failures d5 = []" by (simp add: d5_def sample_db_def)
  have s2: "run_event exact (Begin ''alice'' ''brac'' 10000 ''2025-11-23'' ''BDT'')
      (run_event exact (Begin ''alice'' ''brac'' 50000 ''2025-11-23'' ''BDT'') sample_system) =
      \<lparr>sys_db = sample_db, sys_tasks = [q1, q2]\<rparr>"
    by (simp add: sample_system_def q1_def q2_def)
  have s3: "run_event exact (Advance 0) \<lparr>sys_db = sample_db, sys_tasks = [q1, q2]\<rparr> =
      \<lparr>sys_db = sample_db, sys_tasks = [u1, q2]\<rparr>"
    using task_step_query[OF sample_db_failures m, of exact 50000 "''2025-11-23''" "''BDT''"]
    by (simp add: run_event_advance q1_def u1_def)
  have s4: "run_event exact (Advance 1) \<lparr>sys_db = sample_db, sys_tasks = [u1, q2]\<rparr> =
      \<lparr>sys_db = sample_db, sys_tasks = [u1, u2]\<rparr>"
    using task_step_query[OF sample_db_failures m, of exact 10000 "''2025-11-23''" "''BDT''"]
    by (simp add: run_event_advance q2_def u2_def)
  have n: "numeric2 50000 = 50000" "numeric2 0 = 0" "numeric2 10000 = 10000"
    "numeric2 40000 = 40000"
    by code_simp+
  have w5: "snd (task_step exact u1 sample_db) = d5"
    unfolding u1_def task_step_update[OF sample_db_failures]
    by (simp add: exact_def brac_loan_def n d5_def paid_def update_loan_def sample_db_def
        rahim_loan_def)
  have w6: "snd (task_step exact u2 d5) = d6"
    unfolding u2_def task_step_update[OF f5]
    by (simp add: exact_def brac_loan_def n d5_def d6_def paid_def reopened_def update_loan_def
        sample_db_def rahim_loan_def)
  have s5: "run_event exact (Advance 0) \<lparr>sys_db = sample_db, sys_tasks = [u1, u2]\<rparr> =
      \<lparr>sys_db = d5, sys_tasks = [t5, u2]\<rparr>"
    by (simp add: case_prod_beta w5 t5_def)
  have s6: "run_event exact (Advance 1) \<lparr>sys_db = d5, sys_tasks = [t5, u2]\<rparr> =
      \<lparr>sys_db = d6, sys_tasks = [t5, t6]\<rparr>"
    by (simp add: case_prod_beta w6 t6_def)
  have r5: "run_events exact
      [Begin ''alice'' ''brac'' 50000 ''2025-11-23'' ''BDT'',
       Begin ''alice'' ''brac'' 10000 ''2025-11-23'' ''BDT'',
       Advance 0, Advance 1, Advance 0] sample_system = \<lparr>sys_db = d5, sys_tasks = [t5, u2]\<rparr>"
    by (simp only: run_events.simps s2 s3 s4 s5)
  have r6: "run_events exact
      [Begin ''alice'' ''brac'' 50000 ''2025-11-23'' ''BDT'',
       Begin ''alice'' ''brac'' 10000 ''2025-11-23'' ''BDT'',
       Advance 0, Advance 1, Advance 0, Advance 1] sample_system =
      \<lparr>sys_db = d6, sys_tasks = [t5, t6]\<rparr>"
    by (simp only: run_events.simps s2 s3 s4 s5 s6)
  have l: "lender_name reopened = lender_name brac_loan" "loan_user_id reopened = loan_user_id brac_loan"
    "status reopened = status brac_loan" "loans sample_db = [brac_loan, rahim_loan]"
    by (simp_all add: reopened_def brac_loan_def sample_db_def)
  have m0: "matching_loans ''alice'' ''brac'' sample_db =
      filter (\<lambda>l. loan_user_id l = ''alice'' \<and> status l = ''active'' \<and>
                  ilike (lender_name l) (''%'' @ ''brac'' @ ''%'')) [brac_loan, rahim_loan]"
    unfolding matching_loans_def l ..
  have keep: "loan_user_id brac_loan = ''alice'' \<and> status brac_loan = ''active'' \<and>
      ilike (lender_name brac_loan) (''%'' @ ''brac'' @ ''%'')"
    and drop: "\<not> (loan_user_id rahim_loan = ''alice'' \<and> status rahim_loan = ''active'' \<and>
      ilike (lender_name rahim_loan) (''%'' @ ''brac'' @ ''%''))"
    by code_simp+
  have m6: "matching_loans ''alice'' ''brac'' d6 = [reopened]"
    unfolding matching_loans_def d6_def using keep drop by (simp add: l)
  show ?thesis unfolding r5 r6 using m6 by (simp add: d5_def d6_def paid_def reopened_def)
qed

text \<open>
  C6, amended. From a store whose identifiers are unique, take a loan that is paid off
  and that no reconciliation in flight has selected (none is between its candidate query,
  which returned this loan, and its update). After any history, whatever the order of the
  round trips in it, every loan row under its identifier is still paid off (nothing
  turns it back to active), the candidate query of the reconciler, for any user and
  lender name, returns only active loans and never that loan, and no reconciliation in
  flight has selected it.
\<close>

theorem paid_off_is_final:
  assumes keys: "primary_keys (sys_db s)" and mem: "l \<in> set (loans (sys_db s))"
    and po: "status l = ''paid_off''"
    and idle: "\<forall>t \<in> set (sys_tasks s). selected_loan t \<noteq> Some (loan_id l)"
  shows "(\<forall>l' \<in> set (loans (sys_db (run_events ar es s))).
            loan_id l' = loan_id l \<longrightarrow> status l' = ''paid_off'') \<and>
         (\<forall>uid nm. \<forall>m \<in> set (matching_loans uid nm (sys_db (run_events ar es s))).
            status m = ''active'' \<and> loan_id m \<noteq> loan_id l) \<and>
         (\<forall>t \<in> set (sys_tasks (run_events ar es s)). selected_loan t \<noteq> Some (loan_id l))"
proof -
  let ?d' = "sys_db (run_events ar es s)"
  have dist: "inj_on loan_id (set (loans (sys_db s)))" using keys
    by (simp add: primary_keys_def distinct_map)
  have i: "loan_id l < next_id (sys_db s)"
    using keys mem by (simp add: primary_keys_def list_all_iff)
  have rows: "\<forall>x \<in> set (loans (sys_db s)). loan_id x = loan_id l \<longrightarrow> status x = ''paid_off''"
  proof (intro ballI impI)
    fix x assume "x \<in> set (loans (sys_db s))" "loan_id x = loan_id l"
    with dist mem have "x = l" by (auto dest: inj_onD)
    with po show "status x = ''paid_off''" by simp
  qed
  from i rows idle have start: "loan_id l < next_id (sys_db s) \<and>
      (\<forall>x \<in> set (loans (sys_db s)). loan_id x = loan_id l \<longrightarrow> status x = ''paid_off'') \<and>
      (\<forall>t \<in> set (sys_tasks s). selected_loan t \<noteq> Some (loan_id l))"
    by blast
  note after = run_events_settled[OF start, of ar es]
  have fin: "\<forall>l' \<in> set (loans ?d'). loan_id l' = loan_id l \<longrightarrow> status l' = ''paid_off''"
    using after by blast
  have sel: "\<forall>t \<in> set (sys_tasks (run_events ar es s)). selected_loan t \<noteq> Some (loan_id l)"
    using after by blast
  have "status m = ''active'' \<and> loan_id m \<noteq> loan_id l"
    if "m \<in> set (matching_loans uid nm ?d')" for uid nm m
  proof -
    from that have m: "m \<in> set (loans ?d')" "status m = ''active''"
      by (simp_all add: matching_loans_def)
    have "loan_id m \<noteq> loan_id l"
    proof
      assume "loan_id m = loan_id l"
      with fin m(1) have "status m = ''paid_off''" by blast
      with m(2) show False by simp
    qed
    with m(2) show ?thesis by simp
  qed
  with fin sel show ?thesis by blast
qed

text \<open>
  The paid-off Rahim loan of the sample ledger, while a repayment to BRAC Bank is between
  its query and its update: through a repayment to "Rahim" that starts and makes its
  query, the update of the one in flight, the deletion of the other loan, the rest of the
  repayment to "Rahim", and a listing.
\<close>

theorem paid_off_is_final_witness:
  "primary_keys (sys_db busy_system) \<and> rahim_loan \<in> set (loans (sys_db busy_system)) \<and>
   status rahim_loan = ''paid_off'' \<and>
   list_all (\<lambda>t. selected_loan t \<noteq> Some (loan_id rahim_loan)) (sys_tasks busy_system) \<and>
   filter (\<lambda>l'. loan_id l' = 1 \<and> status l' \<noteq> ''paid_off'')
     (loans (sys_db (run_events exact
        [Begin ''alice'' ''Rahim'' 100 ''2025-11-24'' ''BDT'', Advance 1, Advance 0,
         Call (DeleteLoan 0), Advance 1, Advance 1, Call (GetLoans ''alice'')]
        busy_system))) = [] \<and>
   filter (\<lambda>m. loan_id m = 1)
     (matching_loans ''alice'' ''Rahim''
        (sys_db (run_events exact
           [Begin ''alice'' ''Rahim'' 100 ''2025-11-24'' ''BDT'', Advance 1, Advance 0,
            Call (DeleteLoan 0), Advance 1, Advance 1, Call (GetLoans ''alice'')]
           busy_system))) = []"
proof -
  let ?es = "[Begin ''alice'' ''Rahim'' 100 ''2025-11-24'' ''BDT'', Advance 1, Advance 0,
              Call (DeleteLoan 0), Advance 1, Advance 1, Call (GetLoans ''alice'')]"
  have keys: "primary_keys (sys_db busy_system)"
    using sample_db_keys by (simp add: busy_system_def)
  have mem: "rahim_loan \<in> set (loans (sys_db busy_system))"
    by (simp add: busy_system_def sample_db_def)
  have po: "status rahim_loan = ''paid_off''" by (simp add: rahim_loan_def)
  have i: "loan_id rahim_loan = 1" by (simp add: rahim_loan_def)
  have idle: "list_all (\<lambda>t. selected_loan t \<noteq> Some (loan_id rahim_loan)) (sys_tasks busy_system)"
    by (simp add: busy_system_def rahim_loan_def brac_loan_def)
  then have idle': "\<forall>t \<in> set (sys_tasks busy_system). selected_loan t \<noteq> Some (loan_id rahim_loan)"
    unfolding list_all_iff .
  note fin = paid_off_is_final[OF keys mem po idle', of exact ?es, unfolded i]
  have a: "filter (\<lambda>l'. loan_id l' = 1 \<and> status l' \<noteq> ''paid_off'')
             (loans (sys_db (run_events exact ?es busy_system))) = []"
    unfolding filter_empty_conv using fin by blast
  have b: "filter (\<lambda>m. loan_id m = 1)
             (matching_loans ''alice'' ''Rahim'' (sys_db (run_events exact ?es busy_system))) = []"
    unfolding filter_empty_conv using fin by blast
  show ?thesis using keys mem po idle a b by blast
qed

subsection \<open>Ownership at the store boundary\<close>

text \<open>
  The reads are scoped to the user they are given: \<^verbatim>\<open>.eq("user_id", userId)\<close>.
\<close>

lemma getTransactions_scoped:
  "fst (getTransactions uid limit d) = Inr rows \<Longrightarrow> list_all (\<lambda>t. tx_user_id t = uid) rows"
proof -
  assume r: "fst (getTransactions uid limit d) = Inr rows"
  obtain f d1 where rt: "round_trip d = (f, d1)" by (cases "round_trip d")
  from r rt have "rows = take (case limit of None \<Rightarrow> 100 | Some n \<Rightarrow> n)
      (rev (sort_key (\<lambda>t. (tx_date t, tx_created_at t))
         (filter (\<lambda>t. tx_user_id t = uid) (transactions d1))))"
    by (cases f) (simp_all add: getTransactions_def)
  then show ?thesis by (auto simp: list_all_iff dest: in_set_takeD)
qed

lemma getLoans_scoped:
  "fst (getLoans uid d) = Inr rows \<Longrightarrow> list_all (\<lambda>l. loan_user_id l = uid) rows"
proof -
  assume r: "fst (getLoans uid d) = Inr rows"
  obtain f d1 where rt: "round_trip d = (f, d1)" by (cases "round_trip d")
  from r rt have "rows = rev (sort_key loan_created_at
      (filter (\<lambda>l. loan_user_id l = uid) (loans d1)))"
    by (cases f) (simp_all add: getLoans_def)
  then show ?thesis by (auto simp: list_all_iff)
qed

text \<open>
  The deletions are not: \<^verbatim>\<open>deleteTransaction(transactionId)\<close> and
  \<^verbatim>\<open>deleteLoan(loanId)\<close> take no user and filter on the identifier alone.
\<close>

lemma deleteTransaction_effect:
  "failures d = [] \<Longrightarrow>
   transactions (snd (deleteTransaction i d)) = filter (\<lambda>t. tx_id t \<noteq> i) (transactions d)"
  by (simp add: deleteTransaction_def round_trip_def)

lemma deleteLoan_effect:
  "failures d = [] \<Longrightarrow>
   loans (snd (deleteLoan i d)) = filter (\<lambda>l. loan_id l \<noteq> i) (loans d)"
  by (simp add: deleteLoan_def round_trip_def)

text \<open>
  C2. The claim says no call can delete another user's row. On the sample ledger the
  only transaction is bob's and the BRAC Bank loan is alice's; the two deletions, which
  no user identifies themselves to, remove them.
\<close>

theorem delete_by_id_ignores_owner:
  "tx_user_id bob_transaction = ''bob'' \<and> bob_transaction \<in> set (transactions sample_db) \<and>
   fst (deleteTransaction (tx_id bob_transaction) sample_db) = Inr () \<and>
   transactions (snd (deleteTransaction (tx_id bob_transaction) sample_db)) = [] \<and>
   loan_user_id brac_loan = ''alice'' \<and> brac_loan \<in> set (loans sample_db) \<and>
   fst (deleteLoan (loan_id brac_loan) sample_db) = Inr () \<and>
   loans (snd (deleteLoan (loan_id brac_loan) sample_db)) = [rahim_loan]"
  by (simp add: deleteTransaction_def deleteLoan_def round_trip_def sample_db_def
      bob_transaction_def brac_loan_def rahim_loan_def)

section \<open>Properties of the extraction and the handler\<close>

subsection \<open>The three branches\<close>

lemma js_or_truthy: "truthy b \<Longrightarrow> truthy (js_or a b)"
  by (simp add: js_or_def)

lemma intent_new_loan:
  "js_or v (JStr ''transaction'') = JStr ''new_loan'' \<longleftrightarrow> v = JStr ''new_loan''"
  by (auto simp: js_or_def)

lemma intent_loan_repayment:
  "js_or v (JStr ''transaction'') = JStr ''loan_repayment'' \<longleftrightarrow> v = JStr ''loan_repayment''"
  by (auto simp: js_or_def)

lemma extract_transaction:
  assumes "p \<noteq> JNull" "p \<noteq> JUndefined"
    and "field p ''intent'' \<noteq> JStr ''new_loan''" "field p ''intent'' \<noteq> JStr ''loan_repayment''"
  shows "extractExpenseData t u dd (Inr p) =
     Inr (JObj
       [(''intent'', JStr ''transaction''),
        (''amount'', js_or (field p ''amount'') (JNum 0)),
        (''currency'', js_or (field p ''currency'') (JStr ''BDT'')),
        (''category'', js_or (field p ''category'') (JStr ''other'')),
        (''notes'', js_or (field p ''notes'') t),
        (''type'', if field p ''type'' = JStr ''income'' then JStr ''income'' else JStr ''expense''),
        (''date'', js_or (field p ''date'') (JStr dd))])"
  using assms by (simp add: extractExpenseData_def intent_new_loan intent_loan_repayment)

lemma extract_loan_repayment:
  assumes "field p ''intent'' = JStr ''loan_repayment''"
  shows "extractExpenseData t u dd (Inr p) =
     Inr (JObj
       [(''intent'', JStr ''loan_repayment''),
        (''lender_name'', js_or (field p ''lender_name'') (JStr ''Unknown'')),
        (''amount'', js_or (field p ''amount'') (JNum 0)),
        (''currency'', js_or (field p ''currency'') (JStr ''BDT'')),
        (''date'', js_or (field p ''date'') (JStr dd)),
        (''notes'', js_or (field p ''notes'') t)])"
proof -
  have "p \<noteq> JNull" "p \<noteq> JUndefined" using assms by auto
  then show ?thesis using assms
    by (simp add: extractExpenseData_def intent_new_loan intent_loan_repayment)
qed

lemma extract_new_loan:
  assumes "field p ''intent'' = JStr ''new_loan''"
  shows "extractExpenseData t u dd (Inr p) =
     Inr (JObj
       [(''intent'', JStr ''new_loan''),
        (''lender_name'', js_or (field p ''lender_name'') (JStr ''Unknown'')),
        (''loan_type'',
           if field p ''loan_type'' = JStr ''personal'' then JStr ''personal'' else JStr ''bank''),
        (''principal_amount'', js_or (field p ''principal_amount'') (JNum 0)),
        (''interest_rate'', js_or (field p ''interest_rate'') (JNum 0)),
        (''tenure_months'', js_or (field p ''tenure_months'') JNull),
        (''monthly_installment'', js_or (field p ''monthly_installment'') JNull),
        (''currency'', js_or (field p ''currency'') (JStr ''BDT'')),
        (''date'', js_or (field p ''date'') (JStr dd)),
        (''notes'', js_or (field p ''notes'') t)])"
proof -
  have "p \<noteq> JNull" "p \<noteq> JUndefined" using assms by auto
  then show ?thesis using assms
    by (simp add: extractExpenseData_def intent_new_loan intent_loan_repayment)
qed

text \<open>Whatever the branch, the result is an object with these two members.\<close>

lemma extract_currency_date:
  assumes "p \<noteq> JNull" "p \<noteq> JUndefined"
  shows "\<exists>x. extractExpenseData t u dd (Inr p) = Inr x \<and>
             field x ''currency'' = js_or (field p ''currency'') (JStr ''BDT'') \<and>
             field x ''date'' = js_or (field p ''date'') (JStr dd)"
proof -
  consider (loan) "field p ''intent'' = JStr ''new_loan''"
    | (repay) "field p ''intent'' = JStr ''loan_repayment''"
    | (tx) "field p ''intent'' \<noteq> JStr ''new_loan''" "field p ''intent'' \<noteq> JStr ''loan_repayment''"
    by blast
  then show ?thesis
  proof cases
    case loan
    show ?thesis unfolding extract_new_loan[OF loan] by simp
  next
    case repay
    show ?thesis unfolding extract_loan_repayment[OF repay] by simp
  next
    case tx
    show ?thesis unfolding extract_transaction[OF assms tx] by simp
  qed
qed

subsection \<open>Currency and date\<close>

text \<open>
  C3, as stated, fails: the claim has an unparseable date replaced by the anchor date.
  The reply below carries, as its date, the phrase the prompt itself gives as the date of
  its last example; it is no calendar date, and it is returned as it came.
\<close>

theorem unparseable_date_passes_through:
  "extractExpenseData (JStr ''Spent 300 yesterday'') (JStr ''alice'') ''2025-11-22''
     (Inr yesterday_reply) =
   Inr (JObj [(''intent'', JStr ''transaction''), (''amount'', JNum 300),
              (''currency'', JStr ''BDT''), (''category'', JStr ''other''),
              (''notes'', JStr ''Spent 300 yesterday''), (''type'', JStr ''expense''),
              (''date'', JStr ''calculate yesterday's date based on 2025-11-22'')]) \<and>
   \<not> valid_calendar_date ''calculate yesterday's date based on 2025-11-22'' \<and>
   valid_calendar_date ''2025-11-22''"
proof -
  have "\<not> valid_calendar_date ''calculate yesterday's date based on 2025-11-22''"
    by code_simp
  moreover have "valid_calendar_date ''2025-11-22''"
    by code_simp
  moreover have "extractExpenseData (JStr ''Spent 300 yesterday'') (JStr ''alice'') ''2025-11-22''
     (Inr yesterday_reply) =
   Inr (JObj [(''intent'', JStr ''transaction''), (''amount'', JNum 300),
              (''currency'', JStr ''BDT''), (''category'', JStr ''other''),
              (''notes'', JStr ''Spent 300 yesterday''), (''type'', JStr ''expense''),
              (''date'', JStr ''calculate yesterday's date based on 2025-11-22'')])"
    by (simp add: extractExpenseData_def yesterday_reply_def js_or_def)
  ultimately show ?thesis by blast
qed

lemma js_or_nonempty_string:
  "is_nonempty_string b \<Longrightarrow> (\<exists>s. a = JStr s) \<or> \<not> truthy a \<Longrightarrow> is_nonempty_string (js_or a b)"
  by (cases a) (auto simp: js_or_def)

text \<open>
  C3, amended. For every reply other than \<^verbatim>\<open>null\<close>, whichever the intent: the
  currency of the result is truthy (so never the empty string): \<open>BDT\<close> when the raw
  currency is absent or falsy, the raw value otherwise, hence a non-empty string
  whenever the raw currency is a string or absent. The date is the anchor date when the
  raw date is absent or falsy, and the raw value, unchanged, otherwise; so, the anchor
  being a calendar date, the result's date is one when the raw date is absent or is
  itself one.
\<close>

theorem currency_and_date_defaulting:
  assumes "p \<noteq> JNull" "p \<noteq> JUndefined"
  shows "\<exists>x. extractExpenseData t u dd (Inr p) = Inr x \<and>
     truthy (field x ''currency'') \<and>
     (\<not> truthy (field p ''currency'') \<longrightarrow> field x ''currency'' = JStr ''BDT'') \<and>
     (truthy (field p ''currency'') \<longrightarrow> field x ''currency'' = field p ''currency'') \<and>
     ((\<exists>s. field p ''currency'' = JStr s) \<or> \<not> truthy (field p ''currency'') \<longrightarrow>
        is_nonempty_string (field x ''currency'')) \<and>
     (\<not> truthy (field p ''date'') \<longrightarrow> field x ''date'' = JStr dd) \<and>
     (truthy (field p ''date'') \<longrightarrow> field x ''date'' = field p ''date'') \<and>
     (valid_calendar_date dd \<and>
      (\<not> truthy (field p ''date'') \<or> (\<exists>s. field p ''date'' = JStr s \<and> valid_calendar_date s)) \<longrightarrow>
        (\<exists>s. field x ''date'' = JStr s \<and> valid_calendar_date s))"
proof -
  from extract_currency_date[OF assms, of t u dd]
  obtain x where x: "extractExpenseData t u dd (Inr p) = Inr x"
    "field x ''currency'' = js_or (field p ''currency'') (JStr ''BDT'')"
    "field x ''date'' = js_or (field p ''date'') (JStr dd)"
    by blast
  have c1: "truthy (field x ''currency'')" unfolding x(2) by (simp add: js_or_truthy)
  have c2: "(\<exists>s. field p ''currency'' = JStr s) \<or> \<not> truthy (field p ''currency'') \<longrightarrow>
        is_nonempty_string (field x ''currency'')"
    unfolding x(2) by (simp add: js_or_nonempty_string)
  have c3: "valid_calendar_date dd \<and>
      (\<not> truthy (field p ''date'') \<or> (\<exists>s. field p ''date'' = JStr s \<and> valid_calendar_date s)) \<longrightarrow>
        (\<exists>s. field x ''date'' = JStr s \<and> valid_calendar_date s)"
    unfolding x(3) by (auto simp: js_or_def)
  have c4: "\<not> truthy (field p ''currency'') \<longrightarrow> field x ''currency'' = JStr ''BDT''"
    unfolding x(2) by (simp add: js_or_def)
  have c5: "truthy (field p ''currency'') \<longrightarrow> field x ''currency'' = field p ''currency''"
    unfolding x(2) by (simp add: js_or_def)
  have c6: "\<not> truthy (field p ''date'') \<longrightarrow> field x ''date'' = JStr dd"
    unfolding x(3) by (simp add: js_or_def)
  have c7: "truthy (field p ''date'') \<longrightarrow> field x ''date'' = field p ''date''"
    unfolding x(3) by (simp add: js_or_def)
  show ?thesis
    using x(1) c1 c2 c3 c4 c5 c6 c7 by blast
qed

text \<open>The spec's first scenario: the reply names neither currency nor date.\<close>

theorem currency_and_date_defaulting_witness:
  "shopping_reply \<noteq> JNull \<and> shopping_reply \<noteq> JUndefined \<and>
   \<not> truthy (field shopping_reply ''currency'') \<and> \<not> truthy (field shopping_reply ''date'') \<and>
   valid_calendar_date ''2025-11-22'' \<and>
   (\<exists>x. extractExpenseData (JStr ''Spent 200 on shopping today'') (JStr ''alice'') ''2025-11-22''
          (Inr shopping_reply) = Inr x \<and>
        field x ''currency'' = JStr ''BDT'' \<and> is_nonempty_string (field x ''currency'') \<and>
        field x ''date'' = JStr ''2025-11-22'')"
proof -
  have h: "shopping_reply \<noteq> JNull" "shopping_reply \<noteq> JUndefined"
    "\<not> truthy (field shopping_reply ''currency'')" "\<not> truthy (field shopping_reply ''date'')"
    by (simp_all add: shopping_reply_def)
  have v: "valid_calendar_date ''2025-11-22''" by code_simp
  from currency_and_date_defaulting[OF h(1,2), of "JStr ''Spent 200 on shopping today''"
      "JStr ''alice''" "''2025-11-22''"] h(3,4) v
  show ?thesis using h(1,2) by blast
qed

lemma transaction_dispatch_calls:
  assumes "field x ''intent'' \<noteq> JStr ''new_loan''" "field x ''intent'' \<noteq> JStr ''loan_repayment''"
  shows "fst (dispatch fmt env uid t x) =
     (if truthy (field x ''amount'') \<and> truthy (field x ''type'')
      then [CallSaveTransaction (JObj
              [(''userId'', uid),
               (''amount'', field x ''amount''),
               (''currency'', js_or (field x ''currency'') (JStr ''BDT'')),
               (''category'', js_or (field x ''category'') (JStr ''other'')),
               (''notes'', js_or (field x ''notes'') t),
               (''type'', field x ''type''),
               (''date'', js_or (field x ''date'') (JStr (handler_date env)))])]
      else [])"
  using assms by (simp add: dispatch_def Let_def split: option.split)

text \<open>
  C8. For every reply other than \<^verbatim>\<open>null\<close> whose \<^verbatim>\<open>intent\<close> is not the string
  \<open>new_loan\<close> and not the string \<open>loan_repayment\<close> (a missing intent reads as
  \<^verbatim>\<open>undefined\<close>; every other string is such a value), the result is the
  transaction-intent object, and the handler makes no call that creates or changes a
  loan.
\<close>

theorem unrecognised_intent_is_transaction:
  assumes "p \<noteq> JNull" "p \<noteq> JUndefined"
    and "field p ''intent'' \<noteq> JStr ''new_loan''"
    and "field p ''intent'' \<noteq> JStr ''loan_repayment''"
  shows "\<exists>x. extractExpenseData t u dd (Inr p) = Inr x \<and>
             field x ''intent'' = JStr ''transaction'' \<and>
             \<not> list_ex loan_call (fst (dispatch fmt env uid t x))"
proof -
  let ?x = "JObj
       [(''intent'', JStr ''transaction''),
        (''amount'', js_or (field p ''amount'') (JNum 0)),
        (''currency'', js_or (field p ''currency'') (JStr ''BDT'')),
        (''category'', js_or (field p ''category'') (JStr ''other'')),
        (''notes'', js_or (field p ''notes'') t),
        (''type'', if field p ''type'' = JStr ''income'' then JStr ''income'' else JStr ''expense''),
        (''date'', js_or (field p ''date'') (JStr dd))]"
  have x: "extractExpenseData t u dd (Inr p) = Inr ?x" using assms by (rule extract_transaction)
  have i: "field ?x ''intent'' = JStr ''transaction''" by simp
  then have "field ?x ''intent'' \<noteq> JStr ''new_loan''" "field ?x ''intent'' \<noteq> JStr ''loan_repayment''"
    by simp_all
  then have "\<not> list_ex loan_call (fst (dispatch fmt env uid t ?x))"
    unfolding transaction_dispatch_calls[OF \<open>field ?x ''intent'' \<noteq> JStr ''new_loan''\<close>
        \<open>field ?x ''intent'' \<noteq> JStr ''loan_repayment''\<close>]
    by simp
  with x i show ?thesis by blast
qed

text \<open>A reply without intent, and one whose intent is the string "loan".\<close>

theorem unrecognised_intent_is_transaction_witness:
  "field (JObj [(''amount'', JNum 200), (''type'', JStr ''expense'')]) ''intent'' = JUndefined \<and>
   field (JObj [(''intent'', JStr ''loan''), (''amount'', JNum 200)]) ''intent'' = JStr ''loan'' \<and>
   (\<exists>x. extractExpenseData (JStr ''Spent 200'') (JStr ''alice'') ''2025-11-22''
          (Inr (JObj [(''amount'', JNum 200), (''type'', JStr ''expense'')])) = Inr x \<and>
        field x ''intent'' = JStr ''transaction'' \<and>
        \<not> list_ex loan_call
            (fst (dispatch whole_number sample_env (JStr ''alice'') (JStr ''Spent 200'') x))) \<and>
   (\<exists>x. extractExpenseData (JStr ''Took 200'') (JStr ''alice'') ''2025-11-22''
          (Inr (JObj [(''intent'', JStr ''loan''), (''amount'', JNum 200)])) = Inr x \<and>
        field x ''intent'' = JStr ''transaction'')"
proof -
  let ?p = "JObj [(''amount'', JNum 200), (''type'', JStr ''expense'')]"
  let ?q = "JObj [(''intent'', JStr ''loan''), (''amount'', JNum 200)]"
  have p: "?p \<noteq> JNull" "?p \<noteq> JUndefined" "field ?p ''intent'' \<noteq> JStr ''new_loan''"
    "field ?p ''intent'' \<noteq> JStr ''loan_repayment''" "field ?p ''intent'' = JUndefined"
    by simp_all
  have q: "?q \<noteq> JNull" "?q \<noteq> JUndefined" "field ?q ''intent'' \<noteq> JStr ''new_loan''"
    "field ?q ''intent'' \<noteq> JStr ''loan_repayment''" "field ?q ''intent'' = JStr ''loan''"
    by simp_all
  from unrecognised_intent_is_transaction[OF p(1-4), of "JStr ''Spent 200''" "JStr ''alice''"
      "''2025-11-22''" whole_number sample_env "JStr ''alice''"]
  have a: "\<exists>x. extractExpenseData (JStr ''Spent 200'') (JStr ''alice'') ''2025-11-22'' (Inr ?p) = Inr x \<and>
        field x ''intent'' = JStr ''transaction'' \<and>
        \<not> list_ex loan_call
            (fst (dispatch whole_number sample_env (JStr ''alice'') (JStr ''Spent 200'') x))" .
  from unrecognised_intent_is_transaction[OF q(1-4), of "JStr ''Took 200''" "JStr ''alice''"
      "''2025-11-22''" whole_number sample_env "JStr ''alice''"]
  have b: "\<exists>x. extractExpenseData (JStr ''Took 200'') (JStr ''alice'') ''2025-11-22'' (Inr ?q) = Inr x \<and>
        field x ''intent'' = JStr ''transaction''" by blast
  show ?thesis using p(5) q(5) a b by blast
qed

subsection \<open>The calls of a request\<close>

text \<open>A request makes no store call before the dispatch on the extraction.\<close>

lemma process_calls:
  "fst (process fmt env req) = [] \<or>
   (\<exists>t x. extractExpenseData t (userId req) (extraction_date env) (completion env) = Inr x \<and>
          fst (process fmt env req) = fst (dispatch fmt env (userId req) t x))"
proof (cases "truthy (userId req)")
  case False
  then show ?thesis by (simp add: process_def)
next
  case u: True
  define input where "input =
     (if mode req = JStr ''voice'' \<and> has_file req then
        (case transcription env of
           Inl e \<Rightarrow> Inl (Status500 ''Failed to process request'' e)
         | Inr t \<Rightarrow> Inr (JStr t))
      else if mode req = JStr ''text'' \<and> truthy (body_text req) then Inr (body_text req)
      else Inl (Status400 ''Invalid mode or missing data''))"
  have p: "process fmt env req =
     (case input of
        Inl r \<Rightarrow> ([], r)
      | Inr inputText \<Rightarrow>
          (case extractExpenseData inputText (userId req) (extraction_date env)
                  (completion env) of
             Inl e \<Rightarrow> ([], Status500 ''Failed to process request'' e)
           | Inr extractedData \<Rightarrow>
               (case dispatch fmt env (userId req) inputText extractedData of
                  (calls, Inl e) \<Rightarrow> (calls, Status500 ''Failed to process request'' e)
                | (calls, Inr response) \<Rightarrow> (calls, Status200 response extractedData))))"
    using u by (simp add: process_def input_def Let_def)
  show ?thesis
  proof (cases input)
    case (Inl r)
    then show ?thesis unfolding p by simp
  next
    case (Inr t)
    show ?thesis
    proof (cases "extractExpenseData t (userId req) (extraction_date env) (completion env)")
      case (Inl e)
      with Inr show ?thesis unfolding p by simp
    next
      case x: (Inr x)
      obtain calls r where d: "dispatch fmt env (userId req) t x = (calls, r)"
        by (cases "dispatch fmt env (userId req) t x")
      have "fst (process fmt env req) = calls"
        unfolding p using Inr x d by (cases r) simp_all
      then have "fst (process fmt env req) = fst (dispatch fmt env (userId req) t x)"
        using d by simp
      with x show ?thesis by blast
    qed
  qed
qed

subsection \<open>Amounts\<close>

text \<open>
  C4, as stated, fails for a non-numeric amount that is truthy: the reply's amount, the
  string "two hundred", is returned as it came, it is not 0, and the handler calls
  \<^verbatim>\<open>saveTransaction\<close> with it.
\<close>

theorem truthy_non_numeric_amount_is_written:
  "extractExpenseData (JStr ''spent two hundred'') (JStr ''alice'') ''2025-11-22''
     (Inr spelled_out_reply) =
   Inr (JObj [(''intent'', JStr ''transaction''), (''amount'', JStr ''two hundred''),
              (''currency'', JStr ''BDT''), (''category'', JStr ''other''),
              (''notes'', JStr ''spent two hundred''), (''type'', JStr ''expense''),
              (''date'', JStr ''2025-11-22'')]) \<and>
   JStr ''two hundred'' \<noteq> JNum 0 \<and>
   fst (dispatch whole_number sample_env (JStr ''alice'') (JStr ''spent two hundred'')
          (JObj [(''intent'', JStr ''transaction''), (''amount'', JStr ''two hundred''),
                 (''currency'', JStr ''BDT''), (''category'', JStr ''other''),
                 (''notes'', JStr ''spent two hundred''), (''type'', JStr ''expense''),
                 (''date'', JStr ''2025-11-22'')])) =
   [CallSaveTransaction
      (JObj [(''userId'', JStr ''alice''), (''amount'', JStr ''two hundred''),
             (''currency'', JStr ''BDT''), (''category'', JStr ''other''),
             (''notes'', JStr ''spent two hundred''), (''type'', JStr ''expense''),
             (''date'', JStr ''2025-11-22'')])]"
  by (simp add: extractExpenseData_def spelled_out_reply_def js_or_def dispatch_def
      sample_env_def)

text \<open>
  C4, amended. For every transaction-intent reply whose raw amount is absent, zero or
  falsy in another way (\<^verbatim>\<open>null\<close>, \<^verbatim>\<open>false\<close>, the empty string), the amount of the
  result is 0 and the handler makes no store call: neither its dispatch on that result
  nor, whatever the request, the whole of \<^verbatim>\<open>POST /api/process\<close> on that reply. A
  truthy raw amount, numeric or not, is neither defaulted nor short-circuited: it is the
  amount of the result as it came, and the handler's one store call is
  \<^verbatim>\<open>saveTransaction\<close> with that amount.
\<close>

theorem falsy_amount_writes_nothing:
  assumes "p \<noteq> JNull" "p \<noteq> JUndefined"
    and "field p ''intent'' \<noteq> JStr ''new_loan''"
    and "field p ''intent'' \<noteq> JStr ''loan_repayment''"
  shows "(\<not> truthy (field p ''amount'') \<longrightarrow>
            (\<exists>x. extractExpenseData t u dd (Inr p) = Inr x \<and>
                 field x ''amount'' = JNum 0 \<and>
                 fst (dispatch fmt env uid t x) = []) \<and>
            (completion env = Inr p \<longrightarrow> fst (process fmt env req) = [])) \<and>
         (truthy (field p ''amount'') \<longrightarrow>
            (\<exists>x c. extractExpenseData t u dd (Inr p) = Inr x \<and>
                   field x ''amount'' = field p ''amount'' \<and>
                   fst (dispatch fmt env uid t x) = [CallSaveTransaction c] \<and>
                   field c ''amount'' = field p ''amount''))"
proof (intro conjI impI)
  assume falsy: "\<not> truthy (field p ''amount'')"
  have main: "\<exists>x. extractExpenseData t u dd (Inr p) = Inr x \<and>
              field x ''amount'' = JNum 0 \<and>
              fst (dispatch fmt env uid t x) = []" for t u dd uid
  proof -
    let ?x = "JObj
       [(''intent'', JStr ''transaction''),
        (''amount'', js_or (field p ''amount'') (JNum 0)),
        (''currency'', js_or (field p ''currency'') (JStr ''BDT'')),
        (''category'', js_or (field p ''category'') (JStr ''other'')),
        (''notes'', js_or (field p ''notes'') t),
        (''type'', if field p ''type'' = JStr ''income'' then JStr ''income'' else JStr ''expense''),
        (''date'', js_or (field p ''date'') (JStr dd))]"
    have x: "extractExpenseData t u dd (Inr p) = Inr ?x"
      using assms(1-4) by (rule extract_transaction)
    have a: "field ?x ''amount'' = JNum 0" using falsy by (simp add: js_or_def)
    have i: "field ?x ''intent'' \<noteq> JStr ''new_loan''"
      "field ?x ''intent'' \<noteq> JStr ''loan_repayment''"
      by simp_all
    have "fst (dispatch fmt env uid t ?x) = []"
      unfolding transaction_dispatch_calls[OF i] a by simp
    with x a show ?thesis by blast
  qed
  from main show "\<exists>x. extractExpenseData t u dd (Inr p) = Inr x \<and>
              field x ''amount'' = JNum 0 \<and>
              fst (dispatch fmt env uid t x) = []" .
  assume c: "completion env = Inr p"
  from process_calls[of fmt env req] show "fst (process fmt env req) = []"
  proof
    assume "fst (process fmt env req) = []"
    then show ?thesis .
  next
    assume "\<exists>t x. extractExpenseData t (userId req) (extraction_date env) (completion env) = Inr x \<and>
        fst (process fmt env req) = fst (dispatch fmt env (userId req) t x)"
    then obtain t x where
      x: "extractExpenseData t (userId req) (extraction_date env) (Inr p) = Inr x"
      and f: "fst (process fmt env req) = fst (dispatch fmt env (userId req) t x)"
      unfolding c by blast
    from main[of t "userId req" "extraction_date env" "userId req"] x
    have "fst (dispatch fmt env (userId req) t x) = []" by auto
    with f show ?thesis by simp
  qed
next
  assume tr: "truthy (field p ''amount'')"
  let ?ty = "if field p ''type'' = JStr ''income'' then JStr ''income'' else JStr ''expense''"
  let ?x = "JObj
     [(''intent'', JStr ''transaction''),
      (''amount'', js_or (field p ''amount'') (JNum 0)),
      (''currency'', js_or (field p ''currency'') (JStr ''BDT'')),
      (''category'', js_or (field p ''category'') (JStr ''other'')),
      (''notes'', js_or (field p ''notes'') t),
      (''type'', ?ty),
      (''date'', js_or (field p ''date'') (JStr dd))]"
  let ?c = "JObj
     [(''userId'', uid),
      (''amount'', field ?x ''amount''),
      (''currency'', js_or (field ?x ''currency'') (JStr ''BDT'')),
      (''category'', js_or (field ?x ''category'') (JStr ''other'')),
      (''notes'', js_or (field ?x ''notes'') t),
      (''type'', field ?x ''type''),
      (''date'', js_or (field ?x ''date'') (JStr (handler_date env)))]"
  have x: "extractExpenseData t u dd (Inr p) = Inr ?x"
    using assms(1-4) by (rule extract_transaction)
  have a: "field ?x ''amount'' = field p ''amount''" using tr by (simp add: js_or_def)
  have ty: "truthy (field ?x ''type'')" by simp
  have i: "field ?x ''intent'' \<noteq> JStr ''new_loan''"
    "field ?x ''intent'' \<noteq> JStr ''loan_repayment''"
    by simp_all
  have d: "fst (dispatch fmt env uid t ?x) = [CallSaveTransaction ?c]"
    unfolding transaction_dispatch_calls[OF i] using tr a ty by simp
  have ca: "field ?c ''amount'' = field p ''amount''" using a by simp
  from x a d ca show "\<exists>x c. extractExpenseData t u dd (Inr p) = Inr x \<and>
                   field x ''amount'' = field p ''amount'' \<and>
                   fst (dispatch fmt env uid t x) = [CallSaveTransaction c] \<and>
                   field c ''amount'' = field p ''amount''"
    by blast
qed

text \<open>
  A reply whose amount is the empty string, one without amount, and the reply whose
  amount is the string "two hundred".
\<close>

theorem falsy_amount_writes_nothing_witness:
  "\<not> truthy (field (JObj [(''intent'', JStr ''transaction''), (''amount'', JStr [])]) ''amount'') \<and>
   \<not> truthy (field (JObj [(''intent'', JStr ''transaction'')]) ''amount'') \<and>
   (\<exists>x. extractExpenseData (JStr ''hello'') (JStr ''alice'') ''2025-11-22''
          (Inr (JObj [(''intent'', JStr ''transaction''), (''amount'', JStr [])])) = Inr x \<and>
        field x ''amount'' = JNum 0 \<and>
        fst (dispatch whole_number sample_env (JStr ''alice'') (JStr ''hello'') x) = []) \<and>
   (\<exists>x. extractExpenseData (JStr ''hello'') (JStr ''alice'') ''2025-11-22''
          (Inr (JObj [(''intent'', JStr ''transaction'')])) = Inr x \<and>
        field x ''amount'' = JNum 0 \<and>
        fst (dispatch whole_number sample_env (JStr ''alice'') (JStr ''hello'') x) = []) \<and>
   fst (process whole_number
          (sample_env\<lparr>completion := Inr (JObj [(''intent'', JStr ''transaction'')])\<rparr>)
          sample_request) = [] \<and>
   truthy (field spelled_out_reply ''amount'') \<and>
   (\<exists>x c. extractExpenseData (JStr ''spent two hundred'') (JStr ''alice'') ''2025-11-22''
            (Inr spelled_out_reply) = Inr x \<and>
          field x ''amount'' = JStr ''two hundred'' \<and>
          fst (dispatch whole_number sample_env (JStr ''alice'') (JStr ''spent two hundred'') x) =
            [CallSaveTransaction c] \<and>
          field c ''amount'' = JStr ''two hundred'')"
proof -
  let ?p = "JObj [(''intent'', JStr ''transaction''), (''amount'', JStr [])]"
  let ?q = "JObj [(''intent'', JStr ''transaction'')]"
  have p: "?p \<noteq> JNull" "?p \<noteq> JUndefined" "field ?p ''intent'' \<noteq> JStr ''new_loan''"
    "field ?p ''intent'' \<noteq> JStr ''loan_repayment''"
    and pa: "\<not> truthy (field ?p ''amount'')"
    by simp_all
  have q: "?q \<noteq> JNull" "?q \<noteq> JUndefined" "field ?q ''intent'' \<noteq> JStr ''new_loan''"
    "field ?q ''intent'' \<noteq> JStr ''loan_repayment''"
    and qa: "\<not> truthy (field ?q ''amount'')"
    by simp_all
  have s: "spelled_out_reply \<noteq> JNull" "spelled_out_reply \<noteq> JUndefined"
    "field spelled_out_reply ''intent'' \<noteq> JStr ''new_loan''"
    "field spelled_out_reply ''intent'' \<noteq> JStr ''loan_repayment''"
    and sa: "truthy (field spelled_out_reply ''amount'')"
    and sv: "field spelled_out_reply ''amount'' = JStr ''two hundred''"
    by (simp_all add: spelled_out_reply_def)
  note a = falsy_amount_writes_nothing[OF p, of "JStr ''hello''" "JStr ''alice''" "''2025-11-22''"
      whole_number sample_env "JStr ''alice''"]
  note b = falsy_amount_writes_nothing[OF q, of "JStr ''hello''" "JStr ''alice''" "''2025-11-22''"
      whole_number sample_env "JStr ''alice''"]
  have c: "completion (sample_env\<lparr>completion := Inr ?q\<rparr>) = Inr ?q" by simp
  note d = falsy_amount_writes_nothing[OF q, of "JStr ''hello''" "JStr ''alice''" "''2025-11-22''"
      whole_number "sample_env\<lparr>completion := Inr ?q\<rparr>" "JStr ''alice''" sample_request]
  note e = falsy_amount_writes_nothing[OF s, of "JStr ''spent two hundred''" "JStr ''alice''"
      "''2025-11-22''" whole_number sample_env "JStr ''alice''"]
  have h1: "\<exists>x. extractExpenseData (JStr ''hello'') (JStr ''alice'') ''2025-11-22'' (Inr ?p) = Inr x \<and>
        field x ''amount'' = JNum 0 \<and>
        fst (dispatch whole_number sample_env (JStr ''alice'') (JStr ''hello'') x) = []"
    using a pa by blast
  have h2: "\<exists>x. extractExpenseData (JStr ''hello'') (JStr ''alice'') ''2025-11-22'' (Inr ?q) = Inr x \<and>
        field x ''amount'' = JNum 0 \<and>
        fst (dispatch whole_number sample_env (JStr ''alice'') (JStr ''hello'') x) = []"
    using b qa by blast
  have h3: "fst (process whole_number (sample_env\<lparr>completion := Inr ?q\<rparr>) sample_request) = []"
    using d qa c by blast
  have h4: "\<exists>x c. extractExpenseData (JStr ''spent two hundred'') (JStr ''alice'') ''2025-11-22''
            (Inr spelled_out_reply) = Inr x \<and>
          field x ''amount'' = JStr ''two hundred'' \<and>
          fst (dispatch whole_number sample_env (JStr ''alice'') (JStr ''spent two hundred'') x) =
            [CallSaveTransaction c] \<and>
          field c ''amount'' = JStr ''two hundred''"
    using e sa unfolding sv by blast
  show ?thesis using pa qa h1 h2 h3 sa h4 by blast
qed

subsection \<open>The transaction message\<close>

text \<open>
  C9, as stated, fails: the claim has the date slot show the word "today" when the
  extraction's date equals the anchor date. In the spec's first scenario the date of the
  result is the anchor date, 2025-11-22, and the message ends with that date.
\<close>

theorem anchor_date_is_not_rendered_as_today:
  "extractExpenseData (JStr ''Spent 200 on shopping today'') (JStr ''alice'') ''2025-11-22''
     (Inr shopping_reply) =
   Inr (JObj [(''intent'', JStr ''transaction''), (''amount'', JNum 200),
              (''currency'', JStr ''BDT''), (''category'', JStr ''shopping''),
              (''notes'', JStr ''shopping''), (''type'', JStr ''expense''),
              (''date'', JStr ''2025-11-22'')]) \<and>
   generateResponseMessage whole_number
     (JObj [(''intent'', JStr ''transaction''), (''amount'', JNum 200),
            (''currency'', JStr ''BDT''), (''category'', JStr ''shopping''),
            (''notes'', JStr ''shopping''), (''type'', JStr ''expense''),
            (''date'', JStr ''2025-11-22'')]) =
   emoji_expense @ '' Successfully recorded expense: BDT 200 for shopping (shopping) on 2025-11-22''"
  by (simp add: extractExpenseData_def shopping_reply_def js_or_def generateResponseMessage_def
      whole_number_def digits.simps)

text \<open>
  C9, amended. The formatter is a function of the number format and the extraction
  alone (the same arguments give the same string; it receives no anchor date), and when
  amount and type are present the message ends with the date slot, which shows the word
  "today" when the extraction's date is absent or falsy and the date value otherwise.
\<close>

theorem response_date_slot:
  assumes "truthy (field data ''amount'')" and "truthy (field data ''type'')"
  shows "(\<forall>fmt' data'. fmt' = fmt \<and> data' = data \<longrightarrow>
            generateResponseMessage fmt' data' = generateResponseMessage fmt data) \<and>
         (\<exists>body. generateResponseMessage fmt data =
             body @ '' on '' @
             (if truthy (field data ''date'') then ToString fmt (field data ''date'')
              else ''today''))"
proof -
  let ?body = "(if field data ''type'' = JStr ''expense'' then emoji_expense else emoji_income) @
      '' Successfully '' @
      (if field data ''type'' = JStr ''expense'' then ''recorded expense'' else ''recorded income'') @
      '': '' @ ToString fmt (js_or (field data ''currency'') (JStr ''BDT'')) @ '' '' @
      ToString fmt (field data ''amount'') @ '' for '' @
      ToString fmt (js_or (field data ''category'') (JStr ''other'')) @
      (if truthy (field data ''notes'')
       then '' ('' @ ToString fmt (field data ''notes'') @ '')'' else [])"
  have "generateResponseMessage fmt data =
          ?body @ '' on '' @
          (if truthy (field data ''date'') then ToString fmt (field data ''date'') else ''today'')"
    using assms by (simp add: generateResponseMessage_def Let_def js_or_def)
  then show ?thesis by blast
qed

text \<open>An extraction without a date.\<close>

theorem response_date_slot_witness:
  "truthy (field (JObj [(''amount'', JNum 200), (''type'', JStr ''expense'')]) ''amount'') \<and>
   truthy (field (JObj [(''amount'', JNum 200), (''type'', JStr ''expense'')]) ''type'') \<and>
   \<not> truthy (field (JObj [(''amount'', JNum 200), (''type'', JStr ''expense'')]) ''date'') \<and>
   (\<exists>body. generateResponseMessage whole_number
              (JObj [(''amount'', JNum 200), (''type'', JStr ''expense'')]) =
            body @ '' on today'')"
proof -
  let ?d = "JObj [(''amount'', JNum 200), (''type'', JStr ''expense'')]"
  have h: "truthy (field ?d ''amount'')" "truthy (field ?d ''type'')"
    "\<not> truthy (field ?d ''date'')"
    by simp_all
  from response_date_slot[OF h(1,2), of whole_number] h(3)
  have "\<exists>body. generateResponseMessage whole_number ?d = body @ '' on today''"
    by simp
  with h show ?thesis by blast
qed

subsection \<open>Repayments without a lender\<close>

text \<open>
  C10, as stated, fails where it calls the normalized lender a non-empty string: a
  reply whose lender is the number 5 keeps the number.
\<close>

theorem numeric_lender_is_not_a_string:
  "extractExpenseData (JStr ''paid 2000 to 5'') (JStr ''alice'') ''2025-11-22''
     (Inr numbered_lender_reply) =
   Inr (JObj [(''intent'', JStr ''loan_repayment''), (''lender_name'', JNum 5),
              (''amount'', JNum 2000), (''currency'', JStr ''BDT''),
              (''date'', JStr ''2025-11-22''), (''notes'', JStr ''paid 2000 to 5'')]) \<and>
   \<not> is_nonempty_string (JNum 5)"
  by (simp add: extractExpenseData_def numbered_lender_reply_def js_or_def)

lemma repayment_dispatch_calls:
  assumes "field x ''intent'' = JStr ''loan_repayment''"
  shows "fst (dispatch fmt env uid t x) =
     (if truthy (field x ''amount'') \<and> truthy (field x ''lender_name'')
      then [CallRecordLoanRepayment uid (field x ''lender_name'') (field x ''amount'')
              (js_or (field x ''date'') (JStr (handler_date env)))
              (js_or (field x ''currency'') (JStr ''BDT''))]
      else [])"
  using assms by (simp add: dispatch_def Let_def split: option.split)

lemma lower_Unknown: "lower ''Unknown'' = ''unknown''"
  by code_simp

text \<open>
  C10, amended. For every loan-repayment reply the lender of the result is truthy: it is
  \<open>Unknown\<close> when the raw lender is absent or falsy, and a non-empty string whenever
  the raw lender is a string or absent. The amount of the result is 0 exactly when the
  raw amount is falsy, and the handler makes no store call (its missing-details branch)
  exactly when that amount is 0. A repayment with an amount and no lender is not
  short-circuited: the handler calls \<^verbatim>\<open>recordLoanRepayment\<close> with the lender
  \<open>Unknown\<close>, whose candidates are the user's active loans whose stored lender name
  contains "unknown", letters folded.
\<close>

theorem repayment_lender_defaults:
  assumes "field p ''intent'' = JStr ''loan_repayment''"
  shows "\<exists>x. extractExpenseData t u dd (Inr p) = Inr x \<and>
     truthy (field x ''lender_name'') \<and>
     (\<not> truthy (field p ''lender_name'') \<longrightarrow> field x ''lender_name'' = JStr ''Unknown'') \<and>
     ((\<exists>s. field p ''lender_name'' = JStr s) \<or> \<not> truthy (field p ''lender_name'') \<longrightarrow>
        is_nonempty_string (field x ''lender_name'')) \<and>
     (field x ''amount'' = JNum 0 \<longleftrightarrow> \<not> truthy (field p ''amount'')) \<and>
     (fst (dispatch fmt env uid t x) = [] \<longleftrightarrow> field x ''amount'' = JNum 0) \<and>
     (\<not> truthy (field p ''lender_name'') \<and> truthy (field p ''amount'') \<longrightarrow>
        fst (dispatch fmt env uid t x) =
          [CallRecordLoanRepayment uid (JStr ''Unknown'') (field p ''amount'')
             (js_or (field x ''date'') (JStr (handler_date env)))
             (js_or (field x ''currency'') (JStr ''BDT''))]) \<and>
     (\<forall>owner d. matching_loans owner ''Unknown'' d =
        filter (\<lambda>l. loan_user_id l = owner \<and> status l = ''active'' \<and>
                    sublist ''unknown'' (lower (lender_name l))) (loans d))"
proof -
  let ?x = "JObj
       [(''intent'', JStr ''loan_repayment''),
        (''lender_name'', js_or (field p ''lender_name'') (JStr ''Unknown'')),
        (''amount'', js_or (field p ''amount'') (JNum 0)),
        (''currency'', js_or (field p ''currency'') (JStr ''BDT'')),
        (''date'', js_or (field p ''date'') (JStr dd)),
        (''notes'', js_or (field p ''notes'') t)]"
  have x: "extractExpenseData t u dd (Inr p) = Inr ?x"
    using assms by (rule extract_loan_repayment)
  have i: "field ?x ''intent'' = JStr ''loan_repayment''" by simp
  have l: "field ?x ''lender_name'' = js_or (field p ''lender_name'') (JStr ''Unknown'')" by simp
  have a: "field ?x ''amount'' = js_or (field p ''amount'') (JNum 0)" by simp
  have c1: "truthy (field ?x ''lender_name'')" unfolding l by (simp add: js_or_truthy)
  have c2: "\<not> truthy (field p ''lender_name'') \<longrightarrow> field ?x ''lender_name'' = JStr ''Unknown''"
    unfolding l by (simp add: js_or_def)
  have c3: "(\<exists>s. field p ''lender_name'' = JStr s) \<or> \<not> truthy (field p ''lender_name'') \<longrightarrow>
        is_nonempty_string (field ?x ''lender_name'')"
    unfolding l by (simp add: js_or_nonempty_string)
  have c4: "field ?x ''amount'' = JNum 0 \<longleftrightarrow> \<not> truthy (field p ''amount'')"
    unfolding a by (auto simp: js_or_def)
  have c5: "fst (dispatch fmt env uid t ?x) = [] \<longleftrightarrow> field ?x ''amount'' = JNum 0"
  proof (cases "truthy (field p ''amount'')")
    case True
    then have "truthy (field ?x ''amount'')" unfolding a by (simp add: js_or_def)
    with c1 c4 True show ?thesis unfolding repayment_dispatch_calls[OF i] by simp
  next
    case False
    then have "\<not> truthy (field ?x ''amount'')" unfolding a by (simp add: js_or_def)
    with c4 False show ?thesis unfolding repayment_dispatch_calls[OF i] by simp
  qed
  have c6: "\<not> truthy (field p ''lender_name'') \<and> truthy (field p ''amount'') \<longrightarrow>
        fst (dispatch fmt env uid t ?x) =
          [CallRecordLoanRepayment uid (JStr ''Unknown'') (field p ''amount'')
             (js_or (field ?x ''date'') (JStr (handler_date env)))
             (js_or (field ?x ''currency'') (JStr ''BDT''))]"
  proof
    assume h: "\<not> truthy (field p ''lender_name'') \<and> truthy (field p ''amount'')"
    then have "field ?x ''lender_name'' = JStr ''Unknown''" "field ?x ''amount'' = field p ''amount''"
      unfolding l a by (simp_all add: js_or_def)
    moreover from this h have "truthy (field ?x ''amount'')" "truthy (field ?x ''lender_name'')"
      by simp_all
    ultimately show "fst (dispatch fmt env uid t ?x) =
          [CallRecordLoanRepayment uid (JStr ''Unknown'') (field p ''amount'')
             (js_or (field ?x ''date'') (JStr (handler_date env)))
             (js_or (field ?x ''currency'') (JStr ''BDT''))]"
      unfolding repayment_dispatch_calls[OF i] by simp
  qed
  have c7: "\<forall>owner d. matching_loans owner ''Unknown'' d =
        filter (\<lambda>l. loan_user_id l = owner \<and> status l = ''active'' \<and>
                    sublist ''unknown'' (lower (lender_name l))) (loans d)"
  proof -
    have "plain ''Unknown''" by (simp add: plain_def)
    from matching_loans_plain[OF this] show ?thesis unfolding lower_Unknown by blast
  qed
  show ?thesis using x c1 c2 c3 c4 c5 c6 c7 by blast
qed

text \<open>A repayment of 2000 whose reply names no lender.\<close>

theorem repayment_lender_defaults_witness:
  "field unknown_lender_reply ''intent'' = JStr ''loan_repayment'' \<and>
   \<not> truthy (field unknown_lender_reply ''lender_name'') \<and>
   truthy (field unknown_lender_reply ''amount'') \<and>
   (\<exists>x. extractExpenseData (JStr ''paid 2000'') (JStr ''alice'') ''2025-11-22''
          (Inr unknown_lender_reply) = Inr x \<and>
        field x ''lender_name'' = JStr ''Unknown'' \<and>
        is_nonempty_string (field x ''lender_name'') \<and>
        field x ''amount'' \<noteq> JNum 0 \<and>
        fst (dispatch whole_number sample_env (JStr ''alice'') (JStr ''paid 2000'') x) =
          [CallRecordLoanRepayment (JStr ''alice'') (JStr ''Unknown'') (JNum 2000)
             (js_or (field x ''date'') (JStr ''2025-11-22''))
             (js_or (field x ''currency'') (JStr ''BDT''))])"
proof -
  have h: "field unknown_lender_reply ''intent'' = JStr ''loan_repayment''"
    "\<not> truthy (field unknown_lender_reply ''lender_name'')"
    "truthy (field unknown_lender_reply ''amount'')"
    "field unknown_lender_reply ''amount'' = JNum 2000"
    by (simp_all add: unknown_lender_reply_def)
  have e: "handler_date sample_env = ''2025-11-22''" by (simp add: sample_env_def)
  from repayment_lender_defaults[OF h(1), of "JStr ''paid 2000''" "JStr ''alice''"
      "''2025-11-22''" whole_number sample_env "JStr ''alice''"]
  obtain x where x: "extractExpenseData (JStr ''paid 2000'') (JStr ''alice'') ''2025-11-22''
          (Inr unknown_lender_reply) = Inr x"
    and c2: "\<not> truthy (field unknown_lender_reply ''lender_name'') \<longrightarrow>
             field x ''lender_name'' = JStr ''Unknown''"
    and c3: "(\<exists>s. field unknown_lender_reply ''lender_name'' = JStr s) \<or>
             \<not> truthy (field unknown_lender_reply ''lender_name'') \<longrightarrow>
             is_nonempty_string (field x ''lender_name'')"
    and c4: "field x ''amount'' = JNum 0 \<longleftrightarrow> \<not> truthy (field unknown_lender_reply ''amount'')"
    and c6: "\<not> truthy (field unknown_lender_reply ''lender_name'') \<and>
             truthy (field unknown_lender_reply ''amount'') \<longrightarrow>
        fst (dispatch whole_number sample_env (JStr ''alice'') (JStr ''paid 2000'') x) =
          [CallRecordLoanRepayment (JStr ''alice'') (JStr ''Unknown'')
             (field unknown_lender_reply ''amount'')
             (js_or (field x ''date'') (JStr (handler_date sample_env)))
             (js_or (field x ''currency'') (JStr ''BDT''))]"
    by blast
  have "field x ''lender_name'' = JStr ''Unknown''" using c2 h(2) by blast
  moreover have "is_nonempty_string (field x ''lender_name'')" using c3 h(2) by blast
  moreover have "field x ''amount'' \<noteq> JNum 0" using c4 h(3) by blast
  moreover have "fst (dispatch whole_number sample_env (JStr ''alice'') (JStr ''paid 2000'') x) =
          [CallRecordLoanRepayment (JStr ''alice'') (JStr ''Unknown'') (JNum 2000)
             (js_or (field x ''date'') (JStr ''2025-11-22''))
             (js_or (field x ''currency'') (JStr ''BDT''))]"
    using c6 h(2,3) unfolding h(4) e by blast
  ultimately show ?thesis using x h(1,2,3) by blast
qed

end
